(* ===== verification/Prelude.thy ===== *)
theory Prelude
  imports Main "HOL-Library.State_Monad" "HOL-Library.DAList" "HOL-Library.Multiset"
    "HOL-Library.Char_ord" "HOL-Library.List_Lexorder"
begin

text \<open>
  What every other theory of the development shares: the state monad the Go methods are written
  in, a way of saying that an operation maintains an invariant and leaves an observation of the
  state alone (\<open>preserves\<close>), Go maps as association lists with distinct keys, and a few list
  facts. The collection \<open>preserves_rules\<close> holds the rules by which a monadic program is taken
  apart call by call.
\<close>

section \<open>The state monad\<close>

named_theorems preserves_rules \<open>rules that show what a program leaves alone\<close>

abbreviation ret :: "'a \<Rightarrow> ('s, 'a) state" where
  "ret \<equiv> State_Monad.return"

text \<open>
  \<open>preserves I f m\<close>: from a state with the invariant \<open>I\<close>, the operation \<open>m\<close> leads to one with the
  invariant, and the observation \<open>f\<close> is the same before and after.
\<close>

definition preserves :: "('s \<Rightarrow> bool) \<Rightarrow> ('s \<Rightarrow> 'o) \<Rightarrow> ('s, 'a) state \<Rightarrow> bool" where
  "preserves I f m \<longleftrightarrow>
     (\<forall>s. I s \<longrightarrow> I (snd (run_state m s)) \<and> f (snd (run_state m s)) = f s)"

abbreviation maintains :: "('s \<Rightarrow> bool) \<Rightarrow> ('s, 'a) state \<Rightarrow> bool" where
  "maintains I m \<equiv> preserves I (\<lambda>_. ()) m"

lemma preservesD:
  "preserves I f m \<Longrightarrow> run_state m s = (r, s') \<Longrightarrow> I s \<Longrightarrow> I s' \<and> f s' = f s"
  by (metis preserves_def snd_conv)

lemma preservesI:
  "(\<And>s r s'. I s \<Longrightarrow> run_state m s = (r, s') \<Longrightarrow> I s' \<and> f s' = f s) \<Longrightarrow> preserves I f m"
  by (simp add: preserves_def) (metis surjective_pairing)

lemma preserves_maintains: "preserves I f m \<Longrightarrow> maintains I m"
  by (simp add: preserves_def)

lemma preserves_ret [preserves_rules, simp]: "preserves I f (ret x)"
  by (simp add: preserves_def)

lemma preserves_bind [preserves_rules]:
  "preserves I f m \<Longrightarrow> (\<And>x. preserves I f (k x)) \<Longrightarrow> preserves I f (State_Monad.bind m k)"
  by (simp add: preserves_def split: prod.split) (metis snd_conv)

lemma preserves_if [preserves_rules]:
  "(b \<Longrightarrow> preserves I f m) \<Longrightarrow> (\<not> b \<Longrightarrow> preserves I f n) \<Longrightarrow>
   preserves I f (if b then m else n)"
  by simp

lemma preserves_sum [preserves_rules]:
  "(\<And>e. r = Inl e \<Longrightarrow> preserves I f (m e)) \<Longrightarrow> (\<And>v. r = Inr v \<Longrightarrow> preserves I f (n v)) \<Longrightarrow>
   preserves I f (case r of Inl e \<Rightarrow> m e | Inr v \<Rightarrow> n v)"
  by (cases r) auto

lemma preserves_option [preserves_rules]:
  "(r = None \<Longrightarrow> preserves I f m) \<Longrightarrow> (\<And>v. r = Some v \<Longrightarrow> preserves I f (n v)) \<Longrightarrow>
   preserves I f (case r of None \<Rightarrow> m | Some v \<Rightarrow> n v)"
  by (cases r) auto

lemma preserves_prod [preserves_rules]:
  "(\<And>x y. r = (x, y) \<Longrightarrow> preserves I f (m x y)) \<Longrightarrow> preserves I f (case r of (x, y) \<Rightarrow> m x y)"
  by (cases r) auto

lemma preserves_let [preserves_rules]:
  "(\<And>x. x = t \<Longrightarrow> preserves I f (m x)) \<Longrightarrow> preserves I f (let x = t in m x)"
  by simp

section \<open>Go maps\<close>

text \<open>
  A Go map with string keys is an association list with distinct keys; \<open>None\<close> is the nil map.
  The order of the list stands for the order in which \<open>range\<close> visits the entries, which Go
  leaves open. Reading a nil map finds nothing; \<open>m_put\<close> is only applied to maps that exist
  (writing to a nil map panics in Go, and no modelled code does it).
\<close>

type_synonym 'v gomap = "(string, 'v) alist option"

definition m_empty :: "'v gomap" where
  "m_empty = Some DAList.empty"

definition m_get :: "'v gomap \<Rightarrow> string \<Rightarrow> 'v option" where
  "m_get m k = (case m of None \<Rightarrow> None | Some a \<Rightarrow> DAList.lookup a k)"

definition m_entries :: "'v gomap \<Rightarrow> (string \<times> 'v) list" where
  "m_entries m = (case m of None \<Rightarrow> [] | Some a \<Rightarrow> DAList.impl_of a)"

definition m_put :: "string \<Rightarrow> 'v \<Rightarrow> 'v gomap \<Rightarrow> 'v gomap" where
  "m_put k v m = map_option (DAList.update k v) m"

text \<open>\<open>if m == nil { m = map{} }\<close>\<close>

definition m_nonnil :: "'v gomap \<Rightarrow> 'v gomap" where
  "m_nonnil m = (case m of None \<Rightarrow> m_empty | Some a \<Rightarrow> Some a)"

text \<open>\<open>reflect.DeepEqual\<close> on two maps.\<close>

definition m_deep_equal :: "'v gomap \<Rightarrow> 'v gomap \<Rightarrow> bool" where
  "m_deep_equal m n =
     (case (m, n) of
        (None, None) \<Rightarrow> True
      | (Some a, Some b) \<Rightarrow>
          length (DAList.impl_of a) = length (DAList.impl_of b) \<and>
          (\<forall>(k, v) \<in> set (DAList.impl_of a). DAList.lookup b k = Some v)
      | _ \<Rightarrow> False)"

lemma m_get_simps [simp]:
  "m_get None k = None"
  "m_get (Some a) k = DAList.lookup a k"
  "m_get m_empty k = None"
  by (simp_all add: m_get_def m_empty_def)

lemma m_get_nonnil [simp]: "m_get (m_nonnil m) k = m_get m k"
  by (cases m) (simp_all add: m_nonnil_def m_empty_def)

lemma m_get_nonnil_eq: "m_get (m_nonnil m) = m_get m"
  by (rule ext) simp

lemma m_get_put [simp]:
  "m \<noteq> None \<Longrightarrow> m_get (m_put k v m) j = (if j = k then Some v else m_get m j)"
  by (cases m) (simp_all add: m_put_def lookup_update)

lemma m_put_nil [simp]: "m_put k v m = None \<longleftrightarrow> m = None"
  by (simp add: m_put_def)

lemma m_put_Some [simp]: "(\<exists>y. m_put k v m = Some y) \<longleftrightarrow> (\<exists>y. m = Some y)"
  by (simp add: m_put_def)

lemma m_nonnil_not_nil [simp]:
  "m_nonnil m \<noteq> None" "m_empty \<noteq> None" "\<exists>y. m_nonnil m = Some y" "\<exists>y. m_empty = Some y"
  by (simp_all add: m_nonnil_def m_empty_def split: option.split)

lemma m_entries_distinct [simp]: "distinct (map fst (m_entries m))"
  by (simp add: m_entries_def split: option.split)

lemma m_entries_get: "(k, v) \<in> set (m_entries m) \<longleftrightarrow> m_get m k = Some v"
  by (simp add: m_entries_def m_get_def DAList.lookup_def split: option.split)

lemma m_entries_simps [simp]: "m_entries None = []" "m_entries m_empty = []"
  by (simp_all add: m_entries_def m_empty_def DAList.empty.rep_eq)

lemma lookup_impl_of: "DAList.lookup a k = map_of (DAList.impl_of a) k"
  by (simp add: DAList.lookup_def)

lemma impl_of_distinct_pairs: "distinct (DAList.impl_of a)"
  by (metis distinct_map impl_of_distinct)

text \<open>Two existing maps are deeply equal exactly when they find the same values.\<close>

lemma m_deep_equal_Some:
  "m_deep_equal (Some a) (Some b) \<longleftrightarrow> DAList.lookup a = DAList.lookup b"
proof
  assume eq: "m_deep_equal (Some a) (Some b)"
  let ?A = "DAList.impl_of a" and ?B = "DAList.impl_of b"
  have sub: "set ?A \<subseteq> set ?B"
    using eq by (auto simp: m_deep_equal_def lookup_impl_of dest: map_of_SomeD)
  have "card (set ?A) = card (set ?B)"
    using eq by (simp add: m_deep_equal_def distinct_card impl_of_distinct_pairs)
  with sub have "set ?A = set ?B"
    by (simp add: card_subset_eq)
  then show "DAList.lookup a = DAList.lookup b"
    by (simp add: DAList.lookup.rep_eq map_of_inject_set)
next
  assume eq: "DAList.lookup a = DAList.lookup b"
  then have "set (DAList.impl_of a) = set (DAList.impl_of b)"
    by (metis impl_of_distinct DAList.lookup.rep_eq map_of_inject_set)
  then have "length (DAList.impl_of a) = length (DAList.impl_of b)"
    by (metis distinct_card impl_of_distinct_pairs)
  with eq show "m_deep_equal (Some a) (Some b)"
    by (auto simp: m_deep_equal_def lookup_impl_of simp flip: eq)
qed

lemma m_deep_equal_nonnil:
  "m_deep_equal (m_nonnil m) (m_nonnil n) \<longleftrightarrow> m_get m = m_get n"
  by (cases m; cases n)
    (auto simp: m_nonnil_def m_empty_def m_deep_equal_Some fun_eq_iff)

text \<open>\<open>for k, v := range src { dst[k] = f(v) }\<close>\<close>

definition m_range_put :: "('v \<Rightarrow> 'w) \<Rightarrow> 'v gomap \<Rightarrow> 'w gomap \<Rightarrow> 'w gomap" where
  "m_range_put f src dst = fold (\<lambda>(k, v) m. m_put k (f v) m) (m_entries src) dst"

lemma m_fold_put:
  "distinct (map fst l) \<Longrightarrow> dst \<noteq> None \<Longrightarrow>
   m_get (fold (\<lambda>(k, v) m. m_put k (f v) m) l dst) k =
     (case map_of l k of None \<Rightarrow> m_get dst k | Some v \<Rightarrow> Some (f v)) \<and>
   fold (\<lambda>(k, v) m. m_put k (f v) m) l dst \<noteq> None"
proof (induction l arbitrary: dst)
  case (Cons x l)
  obtain a b where x: "x = (a, b)" by (cases x)
  from Cons have "map_of l a = None" by (simp add: x map_of_eq_None_iff)
  with Cons.IH [of "m_put a (f b) dst"] Cons.prems show ?case
    by (auto simp: x split: option.split)
qed simp

lemma m_entries_map_of: "map_of (m_entries m) k = m_get m k"
  by (simp add: m_entries_def m_get_def lookup_impl_of split: option.split)

lemma m_get_range_put [simp]:
  "dst \<noteq> None \<Longrightarrow> m_get (m_range_put f src dst) k =
     (case m_get src k of None \<Rightarrow> m_get dst k | Some v \<Rightarrow> Some (f v))"
  using m_fold_put [of "m_entries src" dst f k] by (simp add: m_range_put_def m_entries_map_of)

lemma m_range_put_nil [simp]: "m_range_put f src dst = None \<longleftrightarrow> dst = None"
proof (cases dst)
  case None
  have "fold (\<lambda>(k, v) m. m_put k (f v) m) l None = None" for l
    by (induction l) (auto simp: m_put_def)
  then show ?thesis by (simp add: None m_range_put_def)
next
  case (Some a)
  with m_fold_put [of "m_entries src" dst f "[]"] show ?thesis by (simp add: m_range_put_def)
qed

section \<open>Lists\<close>

text \<open>Skip \<open>n\<close> elements and keep at most \<open>l\<close>; \<open>l\<close> is only obeyed when it is positive.\<close>

definition page :: "int \<Rightarrow> int \<Rightarrow> 'a list \<Rightarrow> 'a list" where
  "page limit offset xs =
     (let ys = (if offset > 0 then drop (nat offset) xs else xs)
      in if limit > 0 then take (nat limit) ys else ys)"

lemma set_page: "set (page l n xs) \<subseteq> set xs"
  by (auto simp: page_def Let_def dest: in_set_takeD in_set_dropD)

lemma page_none [simp]: "page 0 0 xs = xs"
  by (simp add: page_def)

lemma map_page: "map f (page l n xs) = page l n (map f xs)"
  by (simp add: page_def Let_def take_map drop_map)

lemma distinct_page: "distinct xs \<Longrightarrow> distinct (page l n xs)"
  by (simp add: page_def Let_def)

text \<open>Lists of records in which a key occurs at most once.\<close>

lemma find_distinct_key:
  "distinct (map key xs) \<Longrightarrow> find (\<lambda>x. key x = k) xs = Some x \<longleftrightarrow> x \<in> set xs \<and> key x = k"
  by (induction xs) (auto simp: image_iff)

lemma find_SomeD: "find P xs = Some x \<Longrightarrow> x \<in> set xs \<and> P x"
  by (induction xs) (auto split: if_splits)

lemma find_keyD: "find (\<lambda>x. key x = k) xs = Some x \<Longrightarrow> x \<in> set xs \<and> key x = k"
  by (induction xs) (auto split: if_splits)

lemma find_None_key: "find (\<lambda>x. key x = k) xs = None \<longleftrightarrow> (\<forall>x \<in> set xs. key x \<noteq> k)"
  by (induction xs) auto

lemma distinct_map_sort_key [simp]: "distinct (map f (sort_key g xs)) \<longleftrightarrow> distinct (map f xs)"
  by (rule mset_eq_imp_distinct_iff) simp

lemma map_sort_key: "map f (sort_key f xs) = sort (map f xs)"
  by (rule properties_for_sort [symmetric]) simp_all

lemma distinct_second_key:
  "distinct (map (\<lambda>x. (f x, g x)) xs) \<Longrightarrow> distinct (map g (filter (\<lambda>x. f x = t \<and> P x) xs))"
  by (induction xs) (auto simp: image_iff)

text \<open>Replace the first element with a key, or append.\<close>

fun upsert :: "('a \<Rightarrow> bool) \<Rightarrow> 'a \<Rightarrow> 'a list \<Rightarrow> 'a list" where
  "upsert same y [] = [y]"
| "upsert same y (x # xs) = (if same x then y # xs else x # upsert same y xs)"

lemma keys_upsert:
  "set (map key (upsert (\<lambda>x. key x = key y) y xs)) = insert (key y) (set (map key xs))"
  by (induction xs) auto

lemma distinct_upsert:
  "distinct (map key xs) \<Longrightarrow> distinct (map key (upsert (\<lambda>x. key x = key y) y xs))"
proof (induction xs)
  case (Cons x xs)
  then show ?case using keys_upsert [of key y xs] by auto
qed simp

lemma find_upsert:
  "distinct (map key xs) \<Longrightarrow>
   find (\<lambda>x. key x = k) (upsert (\<lambda>x. key x = key y) y xs) =
     (if k = key y then Some y else find (\<lambda>x. key x = k) xs)"
  by (induction xs) auto

lemma find_filter_key:
  "find (\<lambda>x. key x = k) (filter (\<lambda>x. \<not> P (key x)) xs) =
     (if P k then None else find (\<lambda>x. key x = k) xs)"
  by (induction xs) auto

lemma option_eqI: "(\<And>x. a = Some x \<longleftrightarrow> b = Some x) \<Longrightarrow> a = b"
  by (cases a; cases b) auto

lemma find_map_key:
  "(\<And>x. key (f x) = key x) \<Longrightarrow>
   find (\<lambda>x. key x = k) (map f xs) = map_option f (find (\<lambda>x. key x = k) xs)"
  by (induction xs) auto

lemma find_filter_distinct:
  "distinct (map key xs) \<Longrightarrow>
   find (\<lambda>x. key x = k) (filter (\<lambda>x. \<not> R x) xs) =
     (case find (\<lambda>x. key x = k) xs of None \<Rightarrow> None | Some x \<Rightarrow> if R x then None else Some x)"
proof (induction xs)
  case (Cons x xs)
  show ?case
  proof (cases "key x = k")
    case True
    with Cons.prems have "find (\<lambda>x. key x = k) xs = None"
      by (auto simp: find_None_key image_iff)
    with Cons True show ?thesis by simp
  qed (use Cons in simp)
qed simp

lemma page_positive [simp]:
  "page (if l > 0 then l else 0) (if n > 0 then n else 0) xs = page l n xs"
  by (simp add: page_def)

end
