(* ===== verification/GoStrings.thy ===== *)
theory GoStrings
  imports Prelude
begin

text \<open>
  The part of Go's string handling the sources use. A Go string is a sequence of bytes, so it is
  a HOL \<open>string\<close> (a list of 8-bit characters); a rune is an \<open>int\<close>. Modelled from the packages
  \<open>strings\<close>, \<open>unicode/utf8\<close> and \<open>strconv\<close>: prefixes, splitting and joining, trimming of white
  space, UTF-8 decoding as done by \<open>for range\<close> over a string and encoding as done by the
  conversion to \<open>string\<close>, and decimal integers of 64 bits.
\<close>

section \<open>Prefixes, splitting, joining\<close>

definition HasPrefix :: "string \<Rightarrow> string \<Rightarrow> bool" where
  "HasPrefix s p \<longleftrightarrow> take (length p) s = p"

definition TrimPrefix :: "string \<Rightarrow> string \<Rightarrow> string" where
  "TrimPrefix s p = (if HasPrefix s p then drop (length p) s else s)"

text \<open>\<open>strings.Cut\<close>: the text before and after the first separator.\<close>

fun Cut :: "string \<Rightarrow> string \<Rightarrow> (string \<times> string) option" where
  "Cut [] sep = (if sep = [] then Some ([], []) else None)"
| "Cut (c # cs) sep =
     (if HasPrefix (c # cs) sep then Some ([], drop (length sep) (c # cs))
      else map_option (\<lambda>(a, b). (c # a, b)) (Cut cs sep))"

definition Contains :: "string \<Rightarrow> string \<Rightarrow> bool" where
  "Contains s sub \<longleftrightarrow> Cut s sub \<noteq> None"

lemma HasPrefix_append [simp]: "HasPrefix (p @ s) p"
  by (simp add: HasPrefix_def)

lemma HasPrefix_iff: "HasPrefix s p \<longleftrightarrow> (\<exists>t. s = p @ t)"
  by (metis HasPrefix_append HasPrefix_def append_take_drop_id)

lemma Cut_Some: "Cut s sep = Some (a, b) \<Longrightarrow> s = a @ sep @ b"
  by (induction s sep arbitrary: a b rule: Cut.induct)
    (auto simp: HasPrefix_iff split: if_splits)

lemma Cut_length: "Cut s sep = Some (a, b) \<Longrightarrow> sep \<noteq> [] \<Longrightarrow> length b < length s"
  by (drule Cut_Some) simp

text \<open>\<open>strings.Split\<close> for a separator that is not empty.\<close>

function Split :: "string \<Rightarrow> string \<Rightarrow> string list" where
  "Split s sep =
     (case Cut s sep of
        None \<Rightarrow> [s]
      | Some (a, b) \<Rightarrow> if sep = [] then [s] else a # Split b sep)"
  by pat_completeness auto
termination
  by (relation "measure (\<lambda>(s, sep). length s)") (auto dest: Cut_length)

declare Split.simps [simp del]

text \<open>\<open>strings.SplitN(s, sep, 2)\<close>.\<close>

definition SplitN2 :: "string \<Rightarrow> string \<Rightarrow> string list" where
  "SplitN2 s sep = (case Cut s sep of None \<Rightarrow> [s] | Some (a, b) \<Rightarrow> [a, b])"

fun Join :: "string list \<Rightarrow> string \<Rightarrow> string" where
  "Join [] sep = []"
| "Join [x] sep = x"
| "Join (x # y # xs) sep = x @ sep @ Join (y # xs) sep"

text \<open>For a separator of one byte, splitting is reading up to that byte.\<close>

lemma Cut_char_None: "Cut s [c] = None \<longleftrightarrow> c \<notin> set s"
  by (induction s) (auto simp: HasPrefix_def split: if_splits)

lemma Cut_char_append: "c \<notin> set a \<Longrightarrow> Cut (a @ c # b) [c] = Some (a, b)"
  by (induction a) (auto simp: HasPrefix_def)

lemma Cut_char_Some: "Cut s [c] = Some (a, b) \<Longrightarrow> c \<notin> set a"
  by (induction s arbitrary: a) (auto simp: HasPrefix_def split: if_splits)

lemma Split_char_none: "c \<notin> set s \<Longrightarrow> Split s [c] = [s]"
  by (subst Split.simps) (simp add: Cut_char_None [THEN iffD2])

lemma Split_char_append: "c \<notin> set a \<Longrightarrow> Split (a @ c # b) [c] = a # Split b [c]"
  by (subst Split.simps) (simp add: Cut_char_append)

lemma Split_not_Nil [simp]: "Split s sep \<noteq> []"
  by (subst Split.simps) (simp split: option.split prod.split)

lemma Split_Join:
  "xs \<noteq> [] \<Longrightarrow> (\<And>x. x \<in> set xs \<Longrightarrow> c \<notin> set x) \<Longrightarrow> Split (Join xs [c]) [c] = xs"
  by (induction xs "[c]" rule: Join.induct) (auto simp: Split_char_none Split_char_append)

section \<open>White space\<close>

text \<open>
  The characters of \<open>unicode.IsSpace\<close>, each as its UTF-8 bytes: the six ASCII ones, U+0085,
  U+00A0, U+1680, U+2000 to U+200A, U+2028, U+2029, U+202F, U+205F and U+3000.
\<close>

definition byte :: "int \<Rightarrow> char" where
  "byte n = char_of n"

definition spaces :: "string list" where
  "spaces = map (map byte)
     ([[9], [10], [11], [12], [13], [32], [0xC2, 0x85], [0xC2, 0xA0], [0xE1, 0x9A, 0x80]] @
      map (\<lambda>n. [0xE2, 0x80, n]) [0x80..0x8A] @
      [[0xE2, 0x80, 0xA8], [0xE2, 0x80, 0xA9], [0xE2, 0x80, 0xAF], [0xE2, 0x81, 0x9F],
       [0xE3, 0x80, 0x80]])"

fun trim_step :: "string list \<Rightarrow> string \<Rightarrow> string option" where
  "trim_step [] s = None"
| "trim_step (p # ps) s =
     (if p \<noteq> [] \<and> HasPrefix s p then Some (drop (length p) s) else trim_step ps s)"

lemma trim_step_shorter: "trim_step ps s = Some t \<Longrightarrow> length t < length s"
  by (induction ps) (auto simp: HasPrefix_iff split: if_splits)

function trim_with :: "string list \<Rightarrow> string \<Rightarrow> string" where
  "trim_with ps s = (case trim_step ps s of None \<Rightarrow> s | Some t \<Rightarrow> trim_with ps t)"
  by pat_completeness auto
termination
  by (relation "measure (\<lambda>(ps, s). length s)") (auto dest: trim_step_shorter)

declare trim_with.simps [simp del]

definition TrimSpace :: "string \<Rightarrow> string" where
  "TrimSpace s = rev (trim_with (map rev spaces) (rev (trim_with spaces s)))"

text \<open>\<open>strings.ToUpper\<close>, which the sources apply to names, for the letters of ASCII.\<close>

definition ToUpper :: "string \<Rightarrow> string" where
  "ToUpper = map (\<lambda>c. if 97 \<le> (of_char c :: int) \<and> (of_char c :: int) \<le> 122 then byte (of_char c - 32) else c)"

section \<open>UTF-8\<close>

definition rune_error :: int where
  "rune_error = 0xFFFD"

definition cont :: "int \<Rightarrow> bool" where
  "cont b \<longleftrightarrow> 0x80 \<le> b \<and> b \<le> 0xBF"

text \<open>\<open>utf8.DecodeRuneInString\<close> on the bytes of a string that is not empty: the rune and its size.\<close>

definition decode_rune :: "int list \<Rightarrow> int \<times> nat" where
  "decode_rune bs =
     (case bs of
        [] \<Rightarrow> (rune_error, 0)
      | b0 # r \<Rightarrow>
          if b0 < 0x80 then (b0, 1)
          else if 0xC2 \<le> b0 \<and> b0 \<le> 0xDF then
            (case r of
               b1 # _ \<Rightarrow> if cont b1 then ((b0 mod 32) * 64 + b1 mod 64, 2) else (rune_error, 1)
             | [] \<Rightarrow> (rune_error, 1))
          else if 0xE0 \<le> b0 \<and> b0 \<le> 0xEF then
            (case r of
               b1 # b2 # _ \<Rightarrow>
                 if cont b1 \<and> cont b2 \<and> (b0 = 0xE0 \<longrightarrow> 0xA0 \<le> b1) \<and> (b0 = 0xED \<longrightarrow> b1 \<le> 0x9F)
                 then ((b0 mod 16) * 4096 + (b1 mod 64) * 64 + b2 mod 64, 3)
                 else (rune_error, 1)
             | _ \<Rightarrow> (rune_error, 1))
          else if 0xF0 \<le> b0 \<and> b0 \<le> 0xF4 then
            (case r of
               b1 # b2 # b3 # _ \<Rightarrow>
                 if cont b1 \<and> cont b2 \<and> cont b3 \<and> (b0 = 0xF0 \<longrightarrow> 0x90 \<le> b1) \<and>
                    (b0 = 0xF4 \<longrightarrow> b1 \<le> 0x8F)
                 then ((b0 mod 8) * 262144 + (b1 mod 64) * 4096 + (b2 mod 64) * 64 + b3 mod 64, 4)
                 else (rune_error, 1)
             | _ \<Rightarrow> (rune_error, 1))
          else (rune_error, 1))"

lemma decode_rune_size: "bs \<noteq> [] \<Longrightarrow> 0 < snd (decode_rune bs)"
  by (auto simp: decode_rune_def split: list.splits)

text \<open>The runes \<open>for _, r := range s\<close> visits.\<close>

function decode_all :: "int list \<Rightarrow> int list" where
  "decode_all bs =
     (if bs = [] then []
      else fst (decode_rune bs) # decode_all (drop (snd (decode_rune bs)) bs))"
  by pat_completeness auto
termination
  by (relation "measure length") (auto simp: decode_rune_size)

declare decode_all.simps [simp del]

definition runes :: "string \<Rightarrow> int list" where
  "runes s = decode_all (map of_char s)"

text \<open>The conversion of runes to a string: \<open>utf8.AppendRune\<close> for each.\<close>

definition encode_rune :: "int \<Rightarrow> int list" where
  "encode_rune r0 =
     (let r = (if r0 < 0 \<or> r0 > 0x10FFFF \<or> (0xD800 \<le> r0 \<and> r0 \<le> 0xDFFF) then rune_error else r0)
      in if r < 0x80 then [r]
         else if r < 0x800 then [0xC0 + r div 64, 0x80 + r mod 64]
         else if r < 0x10000 then
           [0xE0 + r div 4096, 0x80 + (r div 64) mod 64, 0x80 + r mod 64]
         else
           [0xF0 + r div 262144, 0x80 + (r div 4096) mod 64, 0x80 + (r div 64) mod 64,
            0x80 + r mod 64])"

definition string_of_runes :: "int list \<Rightarrow> string" where
  "string_of_runes rs = map byte (concat (map encode_rune rs))"

definition valid_rune :: "int \<Rightarrow> bool" where
  "valid_rune r \<longleftrightarrow> 0 \<le> r \<and> r \<le> 0x10FFFF \<and> \<not> (0xD800 \<le> r \<and> r \<le> 0xDFFF)"

lemma of_char_byte: "0 \<le> n \<Longrightarrow> n < 256 \<Longrightarrow> of_char (byte n) = (n::int)"
  by (simp add: byte_def of_char_of)

lemma byte_of_char [simp]: "byte (of_char c) = c"
  by (simp add: byte_def)

lemma encode_rune_bytes: "b \<in> set (encode_rune r) \<Longrightarrow> 0 \<le> b \<and> b < 256"
  by (auto simp: encode_rune_def Let_def rune_error_def split: if_splits)

lemma decode_encode1: "0 \<le> r \<Longrightarrow> r < 0x80 \<Longrightarrow> decode_rune (encode_rune r @ bs) = (r, 1)"
  by (simp add: encode_rune_def decode_rune_def)

lemma decode2:
  "0xC2 \<le> b0 \<Longrightarrow> b0 \<le> 0xDF \<Longrightarrow> cont b1 \<Longrightarrow>
   decode_rune (b0 # b1 # bs) = ((b0 mod 32) * 64 + b1 mod 64, 2)"
  by (simp add: decode_rune_def)

lemma decode3:
  "0xE0 \<le> b0 \<Longrightarrow> b0 \<le> 0xEF \<Longrightarrow> cont b1 \<Longrightarrow> cont b2 \<Longrightarrow> (b0 = 0xE0 \<longrightarrow> 0xA0 \<le> b1) \<Longrightarrow>
   (b0 = 0xED \<longrightarrow> b1 \<le> 0x9F) \<Longrightarrow>
   decode_rune (b0 # b1 # b2 # bs) = ((b0 mod 16) * 4096 + (b1 mod 64) * 64 + b2 mod 64, 3)"
  by (simp add: decode_rune_def)

lemma decode4:
  "0xF0 \<le> b0 \<Longrightarrow> b0 \<le> 0xF4 \<Longrightarrow> cont b1 \<Longrightarrow> cont b2 \<Longrightarrow> cont b3 \<Longrightarrow> (b0 = 0xF0 \<longrightarrow> 0x90 \<le> b1) \<Longrightarrow>
   (b0 = 0xF4 \<longrightarrow> b1 \<le> 0x8F) \<Longrightarrow>
   decode_rune (b0 # b1 # b2 # b3 # bs) =
     ((b0 mod 8) * 262144 + (b1 mod 64) * 4096 + (b2 mod 64) * 64 + b3 mod 64, 4)"
  by (simp add: decode_rune_def)

lemma mod_add_multiple: "0 \<le> q \<Longrightarrow> q < m \<Longrightarrow> (m * k + q) mod m = (q::int)"
  by simp

lemma decode_encode2:
  assumes "0x80 \<le> r" "r < 0x800"
  shows "decode_rune (encode_rune r @ bs) = (r, 2)"
proof -
  define q s where "q = r div 64" and "s = r mod 64"
  have q: "2 \<le> q" "q < 32" "0 \<le> s" "s < 64" using assms by (auto simp: q_def s_def)
  have "r = q * 64 + s" by (simp add: q_def s_def)
  moreover have "encode_rune r = [0xC0 + q, 0x80 + s]"
    using assms by (simp add: encode_rune_def q_def s_def)
  ultimately show ?thesis
    using q mod_add_multiple [of q 32 6] mod_add_multiple [of s 64 2]
    by (simp add: decode2 cont_def)
qed

lemma decode_encode3:
  assumes "0x800 \<le> r" "r < 0x10000" "\<not> (0xD800 \<le> r \<and> r \<le> 0xDFFF)"
  shows "decode_rune (encode_rune r @ bs) = (r, 3)"
proof -
  define q p s where "q = r div 4096" and "p = (r div 64) mod 64" and "s = r mod 64"
  have q: "0 \<le> q" "q < 16" "0 \<le> p" "p < 64" "0 \<le> s" "s < 64"
    using assms by (auto simp: q_def p_def s_def)
  have "r div 64 div 64 = q" by (simp add: q_def zdiv_zmult2_eq [symmetric])
  then have r: "r = q * 4096 + p * 64 + s"
    using div_mult_mod_eq [of r 64] div_mult_mod_eq [of "r div 64" 64]
    unfolding p_def s_def by linarith
  then have "q = 0 \<longrightarrow> 32 \<le> p" and "q = 13 \<longrightarrow> p \<le> 31" using assms q by auto
  moreover have "encode_rune r = [0xE0 + q, 0x80 + p, 0x80 + s]"
    using assms by (cases "r < 0xD800") (simp_all add: encode_rune_def q_def p_def s_def)
  ultimately show ?thesis
    using q r mod_add_multiple [of q 16 14] mod_add_multiple [of p 64 2]
      mod_add_multiple [of s 64 2]
    by (simp add: decode3 cont_def)
qed

lemma decode_encode4:
  assumes "0x10000 \<le> r" "r \<le> 0x10FFFF"
  shows "decode_rune (encode_rune r @ bs) = (r, 4)"
proof -
  define q p u s where "q = r div 262144" and "p = (r div 4096) mod 64"
    and "u = (r div 64) mod 64" and "s = r mod 64"
  have q: "0 \<le> q" "q < 8" "0 \<le> p" "p < 64" "0 \<le> u" "u < 64" "0 \<le> s" "s < 64"
    using assms by (auto simp: q_def p_def u_def s_def)
  have "r div 64 div 64 = r div 4096" "r div 4096 div 64 = q"
    by (simp_all add: q_def zdiv_zmult2_eq [symmetric])
  then have r: "r = q * 262144 + p * 4096 + u * 64 + s"
    using div_mult_mod_eq [of r 64] div_mult_mod_eq [of "r div 64" 64]
      div_mult_mod_eq [of "r div 4096" 64]
    unfolding p_def u_def s_def by linarith
  then have "q \<le> 4" and "q = 0 \<longrightarrow> 16 \<le> p" and "q = 4 \<longrightarrow> p \<le> 15" using assms q by auto
  moreover have "encode_rune r = [0xF0 + q, 0x80 + p, 0x80 + u, 0x80 + s]"
    using assms by (simp add: encode_rune_def q_def p_def u_def s_def)
  ultimately show ?thesis
    using q r mod_add_multiple [of q 8 30] mod_add_multiple [of p 64 2]
      mod_add_multiple [of u 64 2] mod_add_multiple [of s 64 2]
    by (simp add: decode4 cont_def)
qed

lemma decode_encode_rune:
  assumes "valid_rune r"
  shows "decode_rune (encode_rune r @ bs) = (r, length (encode_rune r))"
proof -
  consider "r < 0x80" | "0x80 \<le> r" "r < 0x800" | "0x800 \<le> r" "r < 0x10000"
    | "0x10000 \<le> r"
    by linarith
  then show ?thesis
    using assms decode_encode1 [of r bs] decode_encode2 [of r bs] decode_encode3 [of r bs]
      decode_encode4 [of r bs]
    by cases (auto simp: valid_rune_def encode_rune_def)
qed

lemma encode_rune_not_Nil [simp]: "encode_rune r \<noteq> []"
  by (simp add: encode_rune_def Let_def)

lemma decode_all_encode:
  "(\<And>r. r \<in> set rs \<Longrightarrow> valid_rune r) \<Longrightarrow> decode_all (concat (map encode_rune rs)) = rs"
  by (induction rs) (simp_all add: decode_all.simps [of "encode_rune _ @ _"]
      decode_all.simps [of "[]"] decode_encode_rune)

lemma runes_string_of_runes:
  assumes "\<And>r. r \<in> set rs \<Longrightarrow> valid_rune r"
  shows "runes (string_of_runes rs) = rs"
proof -
  have "map of_char (string_of_runes rs) = concat (map encode_rune rs)"
    by (auto simp: string_of_runes_def of_char_byte encode_rune_bytes intro!: map_idI)
  with assms show ?thesis
    by (simp add: runes_def decode_all_encode)
qed

section \<open>Decimal integers\<close>

definition int64 :: "int \<Rightarrow> bool" where
  "int64 i \<longleftrightarrow> - (2 ^ 63) \<le> i \<and> i < 2 ^ 63"

definition digit :: "char \<Rightarrow> bool" where
  "digit c \<longleftrightarrow> (let n = of_char c :: int in 48 \<le> n \<and> n \<le> 57)"

definition digit_value :: "char \<Rightarrow> nat" where
  "digit_value c = of_char c - 48"

definition decimal :: "string \<Rightarrow> nat" where
  "decimal s = foldl (\<lambda>n c. 10 * n + digit_value c) 0 s"

text \<open>\<open>strconv.ParseInt(s, 10, 64)\<close>; \<open>None\<close> is a syntax or range error.\<close>

definition ParseInt :: "string \<Rightarrow> int option" where
  "ParseInt s =
     (let (neg, ds) = (case s of c # cs \<Rightarrow> if c = CHR ''-'' then (True, cs)
                                         else if c = CHR ''+'' then (False, cs) else (False, s)
                       | [] \<Rightarrow> (False, []));
          i = (if neg then - int (decimal ds) else int (decimal ds))
      in if ds \<noteq> [] \<and> list_all digit ds \<and> int64 i then Some i else None)"

fun decimal_digits :: "nat \<Rightarrow> string" where
  "decimal_digits n =
     (if n < 10 then [byte (48 + int n)]
      else decimal_digits (n div 10) @ [byte (48 + int (n mod 10))])"

declare decimal_digits.simps [simp del]

text \<open>\<open>strconv.FormatInt(i, 10)\<close> and \<open>strconv.Itoa\<close>.\<close>

definition FormatInt :: "int \<Rightarrow> string" where
  "FormatInt i = (if i < 0 then CHR ''-'' # decimal_digits (nat (- i)) else decimal_digits (nat i))"

lemma digit_byte: "n < 10 \<Longrightarrow> digit (byte (48 + int n))"
  by (simp add: digit_def of_char_byte)

lemma digit_value_byte: "n < 10 \<Longrightarrow> digit_value (byte (48 + int n)) = n"
proof -
  assume "n < 10"
  then have "(of_char (byte (48 + int n)) :: int) = 48 + int n" by (simp add: of_char_byte)
  then have "(of_char (byte (48 + int n)) :: nat) = 48 + n"
    by (metis of_nat_add of_nat_eq_iff of_nat_numeral of_nat_of_char)
  then show ?thesis by (simp add: digit_value_def)
qed

lemma decimal_digits_digits: "list_all digit (decimal_digits n) \<and> decimal_digits n \<noteq> []"
proof (induction n rule: decimal_digits.induct)
  case (1 n)
  then show ?case
    by (cases "n < 10") (auto simp: decimal_digits.simps [of n] digit_byte simp del: of_nat_mod)
qed

lemma decimal_decimal_digits: "decimal (decimal_digits n) = n"
proof (induction n rule: decimal_digits.induct)
  case (1 n)
  then show ?case
    by (cases "n < 10")
      (auto simp: decimal_digits.simps [of n] decimal_def digit_value_byte simp del: of_nat_mod zmod_int)
qed

lemma ParseInt_FormatInt:
  assumes "int64 i" shows "ParseInt (FormatInt i) = Some i"
proof (cases "i < 0")
  case True
  with assms show ?thesis
    by (simp add: ParseInt_def FormatInt_def decimal_digits_digits decimal_decimal_digits)
next
  case False
  obtain c cs where ds: "decimal_digits (nat i) = c # cs"
    using decimal_digits_digits [of "nat i"] by (cases "decimal_digits (nat i)") auto
  moreover from ds have "c \<noteq> CHR ''-''" "c \<noteq> CHR ''+''"
    using decimal_digits_digits [of "nat i"] by (auto simp: digit_def)
  moreover have "decimal (c # cs) = nat i" "list_all digit (c # cs)"
    using ds decimal_decimal_digits [of "nat i"] decimal_digits_digits [of "nat i"] by auto
  ultimately show ?thesis
    using False assms by (simp add: ParseInt_def FormatInt_def)
qed

lemma ParseInt_int64: "ParseInt s = Some i \<Longrightarrow> int64 i"
  by (auto simp: ParseInt_def Let_def split: prod.splits if_splits list.splits)

end
