(* ===== verification/GoErrors.thy ===== *)
theory GoErrors
  imports GoStrings
begin

text \<open>
  Errors as values (\<open>pkg/model/errors.go\<close>, the package \<open>errors\<close>) and the two result types of the
  development. A Go function that returns \<open>(x, err)\<close> is modelled by \<open>error + 'a\<close>: callers look at
  \<open>x\<close> only when \<open>err\<close> is nil. The controller's \<open>(x, err, code)\<close> is \<open>'a reply\<close>: \<open>Inl (err, code)\<close>
  or \<open>Inr (x, code)\<close>.
\<close>

text \<open>
  \<open>Err\<close> is an \<open>errors.New\<close> or \<open>fmt.Errorf\<close> of the sources, \<open>ErrWrap\<close> one that wraps with \<open>%w\<close>;
  \<open>ErrNoDocuments\<close> and \<open>ErrLib\<close> come from the packages the sources call.
\<close>

datatype error =
    PermissionCheckFailed
  | ErrNotFound
  | ErrNoDocuments
  | Err string
  | ErrWrap string error
  | ErrLib string

fun errors_is :: "error \<Rightarrow> error \<Rightarrow> bool" where
  "errors_is (ErrWrap m e) t \<longleftrightarrow> ErrWrap m e = t \<or> errors_is e t"
| "errors_is e t \<longleftrightarrow> e = t"

type_synonym 'a reply = "(error \<times> int) + ('a \<times> int)"

abbreviation StatusOK :: int where "StatusOK \<equiv> 200"
abbreviation StatusAccepted :: int where "StatusAccepted \<equiv> 202"
abbreviation StatusBadRequest :: int where "StatusBadRequest \<equiv> 400"
abbreviation StatusUnauthorized :: int where "StatusUnauthorized \<equiv> 401"
abbreviation StatusForbidden :: int where "StatusForbidden \<equiv> 403"
abbreviation StatusNotFound :: int where "StatusNotFound \<equiv> 404"
abbreviation StatusUpgradeRequired :: int where "StatusUpgradeRequired \<equiv> 426"
abbreviation StatusInternalServerError :: int where "StatusInternalServerError \<equiv> 500"
abbreviation StatusBadGateway :: int where "StatusBadGateway \<equiv> 502"

lemma errors_is_refl [simp]: "errors_is e e"
  by (cases e) simp_all

text \<open>The text of an error. A wrapping error has its own text in front of the wrapped one.\<close>

fun error_text :: "error \<Rightarrow> string" where
  "error_text PermissionCheckFailed = ''permission check failed''"
| "error_text ErrNotFound = ''not found''"
| "error_text ErrNoDocuments = ''mongo: no documents in result''"
| "error_text (Err m) = m"
| "error_text (ErrWrap m e) = m @ error_text e"
| "error_text (ErrLib m) = m"

text \<open>A value and its status code; an error and its status code.\<close>

definition reply_code :: "'a reply \<Rightarrow> int" where
  "reply_code r = (case r of Inl (e, c) \<Rightarrow> c | Inr (v, c) \<Rightarrow> c)"

lemma reply_code_simps [simp]: "reply_code (Inl (e, c)) = c" "reply_code (Inr (v, c)) = c"
  by (simp_all add: reply_code_def)

end
