(* ===== verification/GoUrl.thy ===== *)
theory GoUrl
  imports GoErrors
begin

text \<open>
  The part of \<open>net/url\<close> the sources use: percent-encoding of query components and path segments,
  \<open>url.Values\<close> with \<open>Get\<close>, \<open>Has\<close> and \<open>Encode\<close>, and \<open>url.ParseQuery\<close>. The last section shows that
  parsing an encoded query gives the values back.
\<close>

section \<open>Percent-encoding\<close>

definition hex :: "int \<Rightarrow> char" where
  "hex n = byte (if n < 10 then 48 + n else 55 + n)"

definition unhex :: "char \<Rightarrow> int option" where
  "unhex c =
     (let n = of_char c in
      if 48 \<le> n \<and> n \<le> 57 then Some (n - 48)
      else if 65 \<le> n \<and> n \<le> 70 then Some (n - 55)
      else if 97 \<le> n \<and> n \<le> 102 then Some (n - 87) else None)"

definition alnum :: "char \<Rightarrow> bool" where
  "alnum c \<longleftrightarrow>
     (let n = of_char c :: int in
      (48 \<le> n \<and> n \<le> 57) \<or> (65 \<le> n \<and> n \<le> 90) \<or> (97 \<le> n \<and> n \<le> 122))"

definition unreserved :: "char \<Rightarrow> bool" where
  "unreserved c \<longleftrightarrow> alnum c \<or> c \<in> set ''-_.~''"

definition percent :: "char \<Rightarrow> string" where
  "percent c = [CHR ''%'', hex (of_char c div 16), hex (of_char c mod 16)]"

definition escape_char :: "char \<Rightarrow> string" where
  "escape_char c =
     (if unreserved c then [c] else if c = CHR '' '' then ''+'' else percent c)"

definition QueryEscape :: "string \<Rightarrow> string" where
  "QueryEscape s = concat (map escape_char s)"

definition PathEscape :: "string \<Rightarrow> string" where
  "PathEscape s =
     concat (map (\<lambda>c. if unreserved c \<or> c \<in> set ''$&+:=@'' then [c] else percent c) s)"

fun QueryUnescape :: "string \<Rightarrow> string option" where
  "QueryUnescape [] = Some []"
| "QueryUnescape (c # cs) =
     (if c = CHR ''%'' then
        (case cs of
           a # b # r \<Rightarrow>
             (case (unhex a, unhex b) of
                (Some x, Some y) \<Rightarrow> map_option (Cons (byte (16 * x + y))) (QueryUnescape r)
              | _ \<Rightarrow> None)
         | _ \<Rightarrow> None)
      else map_option (Cons (if c = CHR ''+'' then CHR '' '' else c)) (QueryUnescape cs))"

lemma unhex_hex: "0 \<le> n \<Longrightarrow> n < 16 \<Longrightarrow> unhex (hex n) = Some n"
  by (auto simp: unhex_def hex_def of_char_byte Let_def)

lemma of_char_range: "0 \<le> (of_char c :: int)" "(of_char c :: int) < 256"
  by (metis of_nat_0_le_iff of_nat_of_char)
    (metis of_char_mod_256 pos_mod_bound zero_less_numeral)

lemma QueryUnescape_percent: "QueryUnescape (percent c @ s) = map_option (Cons c) (QueryUnescape s)"
proof -
  have "0 \<le> (of_char c :: int) div 16" "(of_char c :: int) div 16 < 16"
    using of_char_range [of c] by auto
  moreover have "16 * ((of_char c :: int) div 16) + of_char c mod 16 = of_char c"
    by simp
  ultimately show ?thesis
    by (simp add: percent_def unhex_hex)
qed

lemma unreserved_not_special:
  "unreserved c \<Longrightarrow> c \<noteq> CHR ''%'' \<and> c \<noteq> CHR ''+'' \<and> c \<noteq> CHR ''&'' \<and> c \<noteq> CHR ''='' \<and> c \<noteq> CHR '';''"
  by (auto simp: unreserved_def alnum_def)

lemma QueryUnescape_escape_char:
  "QueryUnescape (escape_char c @ s) = map_option (Cons c) (QueryUnescape s)"
  by (auto simp: escape_char_def QueryUnescape_percent dest: unreserved_not_special)

lemma QueryUnescape_QueryEscape: "QueryUnescape (QueryEscape s) = Some s"
  by (induction s) (simp_all add: QueryEscape_def QueryUnescape_escape_char)

lemma hex_chars: "0 \<le> n \<Longrightarrow> n < 16 \<Longrightarrow> unreserved (hex n)"
  by (auto simp: unreserved_def alnum_def hex_def of_char_byte Let_def)

lemma QueryEscape_no_special:
  assumes "c \<in> set (QueryEscape s)" shows "c \<noteq> CHR ''&'' \<and> c \<noteq> CHR ''='' \<and> c \<noteq> CHR '';''"
proof -
  from assms obtain d where "c \<in> set (escape_char d)" by (auto simp: QueryEscape_def)
  moreover have "unreserved (hex (of_char d div 16))" "unreserved (hex (of_char d mod 16))"
    using of_char_range [of d] by (auto intro!: hex_chars)
  ultimately show ?thesis
    by (auto simp: escape_char_def percent_def split: if_splits dest!: unreserved_not_special)
qed

section \<open>url.Values\<close>

type_synonym url_values = "(string, string list) alist"

definition values_list :: "url_values \<Rightarrow> string \<Rightarrow> string list" where
  "values_list q k = (case DAList.lookup q k of None \<Rightarrow> [] | Some vs \<Rightarrow> vs)"

definition Get :: "url_values \<Rightarrow> string \<Rightarrow> string" where
  "Get q k = (case values_list q k of [] \<Rightarrow> [] | v # _ \<Rightarrow> v)"

definition Has :: "url_values \<Rightarrow> string \<Rightarrow> bool" where
  "Has q k \<longleftrightarrow> DAList.lookup q k \<noteq> None"

definition Set_value :: "string \<Rightarrow> string \<Rightarrow> url_values \<Rightarrow> url_values" where
  "Set_value k v q = DAList.update k [v] q"

definition Add :: "string \<Rightarrow> string \<Rightarrow> url_values \<Rightarrow> url_values" where
  "Add k v q = DAList.update k (values_list q k @ [v]) q"

definition encode_pairs :: "url_values \<Rightarrow> string list" where
  "encode_pairs q =
     concat (map (\<lambda>k. map (\<lambda>v. QueryEscape k @ ''='' @ QueryEscape v) (values_list q k))
       (sort (map fst (DAList.impl_of q))))"

definition Encode :: "url_values \<Rightarrow> string" where
  "Encode q = Join (encode_pairs q) ''&''"

text \<open>One round of the loop in \<open>url.ParseQuery\<close>: the values so far and the first error.\<close>

definition parse_piece :: "string \<Rightarrow> url_values \<times> error option \<Rightarrow> url_values \<times> error option" where
  "parse_piece piece acc =
     (let (m, err) = acc;
          fail = (\<lambda>e. (m, case err of None \<Rightarrow> Some (ErrLib e) | Some x \<Rightarrow> Some x)) in
      if CHR '';'' \<in> set piece then (m, Some (ErrLib ''invalid semicolon separator in query''))
      else if piece = [] then (m, err)
      else let (k, v) = (case Cut piece ''='' of None \<Rightarrow> (piece, []) | Some p \<Rightarrow> p) in
        case QueryUnescape k of
          None \<Rightarrow> fail ''invalid URL escape''
        | Some key \<Rightarrow>
            (case QueryUnescape v of
               None \<Rightarrow> fail ''invalid URL escape''
             | Some val \<Rightarrow> (Add key val m, err)))"

definition ParseQuery :: "string \<Rightarrow> url_values \<times> error option" where
  "ParseQuery s = fold parse_piece (Split s ''&'') (DAList.empty, None)"

lemma values_list_Add:
  "values_list (Add k v q) j = (if j = k then values_list q k @ [v] else values_list q j)"
  by (simp add: values_list_def Add_def lookup_update)

section \<open>Round trip\<close>

lemma parse_piece_encoded:
  "parse_piece (QueryEscape k @ CHR ''='' # QueryEscape v) (m, err) = (Add k v m, err)"
proof -
  have "CHR ''='' \<notin> set (QueryEscape k)" using QueryEscape_no_special by blast
  then have "Cut (QueryEscape k @ CHR ''='' # QueryEscape v) ''='' = Some (QueryEscape k, QueryEscape v)"
    by (rule Cut_char_append)
  moreover have "CHR '';'' \<notin> set (QueryEscape k @ CHR ''='' # QueryEscape v)"
    using QueryEscape_no_special by auto
  ultimately show ?thesis
    by (simp add: parse_piece_def QueryUnescape_QueryEscape)
qed

lemma fold_parse_piece_encoded:
  "fold parse_piece (map (\<lambda>(k, v). QueryEscape k @ CHR ''='' # QueryEscape v) kvs) (m, err) =
   (fold (\<lambda>(k, v). Add k v) kvs m, err)"
  by (induction kvs arbitrary: m) (auto simp: parse_piece_encoded)

lemma values_list_fold_Add:
  "values_list (fold (\<lambda>(k, v). Add k v) kvs m) j =
   values_list m j @ map snd (filter (\<lambda>kv. fst kv = j) kvs)"
  by (induction kvs arbitrary: m) (auto simp: values_list_Add)

lemma filter_concat_pairs:
  assumes "distinct ks"
  shows "map snd (filter (\<lambda>kv. fst kv = j) (concat (map (\<lambda>k. map (Pair k) (f k)) ks))) =
    (if j \<in> set ks then f j else [])"
  using assms
proof (induction ks)
  case (Cons k ks)
  have "filter (\<lambda>kv. fst kv = j) (map (Pair k) (f k)) = (if k = j then map (Pair j) (f j) else [])"
    by (induction "f k") (auto simp: filter_map o_def)
  with Cons show ?case by (auto simp: o_def)
qed simp

lemma ParseQuery_Encode_values:
  shows "snd (ParseQuery (Encode q)) = None"
    and "values_list (fst (ParseQuery (Encode q))) k = values_list q k"
proof -
  let ?ks = "sort (map fst (DAList.impl_of q))"
  define kvs where "kvs = concat (map (\<lambda>k. map (Pair k) (values_list q k)) ?ks)"
  have pairs: "encode_pairs q = map (\<lambda>(k, v). QueryEscape k @ CHR ''='' # QueryEscape v) kvs"
    by (simp add: encode_pairs_def kvs_def map_concat o_def)
  have parse: "ParseQuery (Encode q) = (fold (\<lambda>(k, v). Add k v) kvs DAList.empty, None)"
  proof (cases "kvs = []")
    case True
    then show ?thesis
      by (simp add: ParseQuery_def Encode_def pairs Split_char_none parse_piece_def)
  next
    case False
    have "Split (Join (encode_pairs q) ''&'') ''&'' = encode_pairs q"
      using False by (intro Split_Join) (auto simp: pairs dest: QueryEscape_no_special)
    then show ?thesis
      by (simp add: ParseQuery_def Encode_def pairs fold_parse_piece_encoded)
  qed
  then show "snd (ParseQuery (Encode q)) = None" by simp
  have "values_list (fst (ParseQuery (Encode q))) k = map snd (filter (\<lambda>kv. fst kv = k) kvs)"
    by (simp add: parse values_list_fold_Add) (simp add: values_list_def)
  also have "\<dots> = (if k \<in> set ?ks then values_list q k else [])"
    unfolding kvs_def by (rule filter_concat_pairs) simp
  also have "\<dots> = values_list q k"
    by (auto simp: values_list_def lookup_impl_of map_of_eq_None_iff split: option.split
        dest!: map_of_SomeD) force
  finally show "values_list (fst (ParseQuery (Encode q))) k = values_list q k" .
qed

end
