(* ===== verification/Model.thy ===== *)
theory Model
  imports GoUrl "HOL-Library.Product_Lexorder"
begin

text \<open>
  The package \<open>pkg/model\<close>: permissions and permission lists, resources and their permissions, topics
  with their validation and comparison, the options of queries, and the import/export document.
  The last section states what a set of resource permissions grants to a requester, the yardstick
  the two databases and the controller are measured by.
\<close>

section \<open>Permissions (\<open>permissions.go\<close>)\<close>

text \<open>\<open>type Permission rune\<close>: any rune can be passed where a permission is expected.\<close>

type_synonym permission = int

definition Read :: permission where "Read = of_char CHR ''r''"
definition Write :: permission where "Write = of_char CHR ''w''"
definition Administrate :: permission where "Administrate = of_char CHR ''a''"
definition Execute :: permission where "Execute = of_char CHR ''x''"

lemmas permission_defs = Read_def Write_def Administrate_def Execute_def

definition known_permission :: "permission \<Rightarrow> bool" where
  "known_permission p \<longleftrightarrow> p \<in> {Read, Write, Execute, Administrate}"

fun permission_list :: "int list \<Rightarrow> error + permission list" where
  "permission_list [] = Inr []"
| "permission_list (p # ps) =
     (if p = Read \<or> p = Write \<or> p = Execute \<or> p = Administrate then
        (case permission_list ps of Inl e \<Rightarrow> Inl e | Inr r \<Rightarrow> Inr (p # r))
      else Inl (Err (''unknown permission '' @ [CHR 0x27] @ FormatInt p @ [CHR 0x27])))"

definition PermissionListFromString :: "string \<Rightarrow> error + permission list" where
  "PermissionListFromString str = permission_list (runes str)"

definition PermissionList_Encode :: "permission list \<Rightarrow> string" where
  "PermissionList_Encode ps = string_of_runes ps"

record permissions_map =
  pm_read :: bool
  pm_write :: bool
  pm_execute :: bool
  pm_administrate :: bool

definition no_permissions :: permissions_map where
  "no_permissions = \<lparr>pm_read = False, pm_write = False, pm_execute = False, pm_administrate = False\<rparr>"

definition all_permissions :: permissions_map where
  "all_permissions = \<lparr>pm_read = True, pm_write = True, pm_execute = True, pm_administrate = True\<rparr>"

text \<open>\<open>m[k]\<close> with the zero value when there is no entry.\<close>

definition m_index :: "permissions_map gomap \<Rightarrow> string \<Rightarrow> permissions_map" where
  "m_index m k = (case m_get m k of None \<Rightarrow> no_permissions | Some v \<Rightarrow> v)"

record resource_permissions =
  rp_user :: "permissions_map gomap"
  rp_group :: "permissions_map gomap"
  rp_role :: "permissions_map gomap"

definition nil_permissions :: resource_permissions where
  "nil_permissions = \<lparr>rp_user = None, rp_group = None, rp_role = None\<rparr>"

text \<open>Needs at least one admin user.\<close>

definition Valid :: "resource_permissions \<Rightarrow> bool" where
  "Valid p \<longleftrightarrow> list_ex (\<lambda>(u, r). pm_administrate r) (m_entries (rp_user p))"

record resource =
  r_id :: string
  r_topic_id :: string
  r_permissions :: resource_permissions

record computed_permissions =
  cp_id :: string
  cp_permissions :: permissions_map

section \<open>Topics (\<open>model.go\<close>)\<close>

definition ClientVersion :: string where
  "ClientVersion = ''2''"

record topic =
  t_id :: string
  t_publish_to_kafka_topic :: string
  t_ensure_kafka_topic_init :: bool
  t_ensure_kafka_topic_init_partition_number :: int
  t_last_update_unix_timestamp :: int
  t_default_permissions :: resource_permissions

text \<open>The regular expression \<open>^[a-zA-Z0-9\._\-]+$\<close>.\<close>

definition kafka_name :: "string \<Rightarrow> bool" where
  "kafka_name s \<longleftrightarrow> s \<noteq> [] \<and> list_all (\<lambda>c. alnum c \<or> c \<in> set ''._-'') s"

definition Validate :: "topic \<Rightarrow> error option" where
  "Validate t =
     (if t_id t = [] then Some (Err ''id is required'')
      else if TrimSpace (t_publish_to_kafka_topic t) \<noteq> t_publish_to_kafka_topic t then
        Some (Err ''publish_to_kafka_topic contains space pre/suffix'')
      else if t_publish_to_kafka_topic t \<noteq> [] \<and> \<not> kafka_name (t_publish_to_kafka_topic t) then
        Some (Err ''kafka topic contains invalid characters'')
      else None)"

definition nonnil_permissions :: "resource_permissions \<Rightarrow> resource_permissions" where
  "nonnil_permissions p =
     \<lparr>rp_user = m_nonnil (rp_user p), rp_group = m_nonnil (rp_group p),
      rp_role = m_nonnil (rp_role p)\<rparr>"

definition deep_equal_permissions :: "resource_permissions \<Rightarrow> resource_permissions \<Rightarrow> bool" where
  "deep_equal_permissions p q \<longleftrightarrow>
     m_deep_equal (rp_user p) (rp_user q) \<and> m_deep_equal (rp_group p) (rp_group q) \<and>
     m_deep_equal (rp_role p) (rp_role q)"

definition Topic_Equal :: "topic \<Rightarrow> topic \<Rightarrow> bool" where
  "Topic_Equal this t =
     (if t_id this \<noteq> t_id t then False
      else if t_publish_to_kafka_topic this \<noteq> t_publish_to_kafka_topic t then False
      else if t_ensure_kafka_topic_init this \<noteq> t_ensure_kafka_topic_init t then False
      else if t_ensure_kafka_topic_init_partition_number this \<noteq>
              t_ensure_kafka_topic_init_partition_number t then False
      else if \<not> deep_equal_permissions (nonnil_permissions (t_default_permissions this))
                 (nonnil_permissions (t_default_permissions t)) then False
      else True)"

record admin_load_request =
  lr_permission_search_url :: string
  lr_token :: string
  lr_topic_id :: string
  lr_overwrite_existing :: bool
  lr_dry_run :: bool

text \<open>A nil filter admits everything, an empty one nothing.\<close>

record import_export_options =
  ieo_include_topic_config :: bool
  ieo_include_permissions :: bool
  ieo_filter_topics :: "string list option"
  ieo_filter_resource_id :: "string list option"

record import_export =
  ie_topics :: "topic list"
  ie_permissions :: "resource list"

definition ImportExport_Sort :: "import_export \<Rightarrow> import_export" where
  "ImportExport_Sort d =
     \<lparr>ie_topics = sort_key t_id (ie_topics d),
      ie_permissions = sort_key (\<lambda>r. (r_topic_id r, r_id r)) (ie_permissions d)\<rparr>"

section \<open>Options (\<open>options.go\<close>)\<close>

text \<open>A limit of 0 is no limit; \<open>None\<close> for the ids is the nil slice.\<close>

record list_options =
  lo_limit :: int
  lo_offset :: int
  lo_ids :: "string list option"

definition default_list_options :: list_options where
  "default_list_options = \<lparr>lo_limit = 0, lo_offset = 0, lo_ids = None\<rparr>"

definition ListOptionsFromQuery :: "url_values \<Rightarrow> error + list_options" where
  "ListOptionsFromQuery q =
     (let limit = Get q ''limit''; offset = Get q ''offset'' in
      case (if limit = [] then Some 0 else ParseInt limit) of
        None \<Rightarrow> Inl (ErrLib ''strconv.ParseInt'')
      | Some l \<Rightarrow>
          (case (if offset = [] then Some 0 else ParseInt offset) of
             None \<Rightarrow> Inl (ErrLib ''strconv.ParseInt'')
           | Some n \<Rightarrow> Inr \<lparr>lo_limit = l, lo_offset = n, lo_ids = None\<rparr>))"

record get_options =
  go_check_permission :: bool
  go_user_id :: string
  go_group_ids :: "string list"
  go_role_ids :: "string list"
  go_permissions :: "permission list"

definition default_get_options :: get_options where
  "default_get_options =
     \<lparr>go_check_permission = False, go_user_id = [], go_group_ids = [], go_role_ids = [],
      go_permissions = []\<rparr>"

section \<open>What permissions grant\<close>

text \<open>
  An access control list says which subject has which permission. A requester is a user with
  roles and groups; it holds a permission when one of its subjects does.
\<close>

datatype subject = User string | Group string | Role string

type_synonym acl = "subject \<Rightarrow> permission \<Rightarrow> bool"

definition pm_has :: "permissions_map \<Rightarrow> permission \<Rightarrow> bool" where
  "pm_has m p \<longleftrightarrow>
     (p = Read \<and> pm_read m) \<or> (p = Write \<and> pm_write m) \<or> (p = Execute \<and> pm_execute m) \<or>
     (p = Administrate \<and> pm_administrate m)"

fun subject_entry :: "resource_permissions \<Rightarrow> subject \<Rightarrow> permissions_map" where
  "subject_entry rp (User u) = m_index (rp_user rp) u"
| "subject_entry rp (Group g) = m_index (rp_group rp) g"
| "subject_entry rp (Role r) = m_index (rp_role rp) r"

definition acl_of :: "resource_permissions \<Rightarrow> acl" where
  "acl_of rp s p \<longleftrightarrow> pm_has (subject_entry rp s) p"

definition acl_grants :: "acl \<Rightarrow> string \<Rightarrow> string list \<Rightarrow> string list \<Rightarrow> permission \<Rightarrow> bool" where
  "acl_grants a user roles groups p \<longleftrightarrow>
     a (User user) p \<or> (\<exists>g \<in> set groups. a (Group g) p) \<or> (\<exists>r \<in> set roles. a (Role r) p)"

definition acl_grants_all :: "acl \<Rightarrow> string \<Rightarrow> string list \<Rightarrow> string list \<Rightarrow> permission list \<Rightarrow> bool" where
  "acl_grants_all a user roles groups ps \<longleftrightarrow> (\<forall>p \<in> set ps. acl_grants a user roles groups p)"

definition acl_has_admin_user :: "acl \<Rightarrow> bool" where
  "acl_has_admin_user a \<longleftrightarrow> (\<exists>u. a (User u) Administrate)"

section \<open>Lemmas\<close>

lemma permissions_distinct [simp]:
  "Read \<noteq> Write" "Read \<noteq> Execute" "Read \<noteq> Administrate" "Write \<noteq> Execute"
  "Write \<noteq> Administrate" "Execute \<noteq> Administrate" "Write \<noteq> Read" "Execute \<noteq> Read"
  "Administrate \<noteq> Read" "Execute \<noteq> Write" "Administrate \<noteq> Write" "Administrate \<noteq> Execute"
  by (simp_all add: permission_defs)

lemma pm_has_simps [simp]:
  "pm_has m Read = pm_read m" "pm_has m Write = pm_write m"
  "pm_has m Execute = pm_execute m" "pm_has m Administrate = pm_administrate m"
  "pm_has no_permissions p = False"
  by (auto simp: pm_has_def no_permissions_def)

lemma pm_has_unknown: "\<not> known_permission p \<Longrightarrow> \<not> pm_has m p"
  by (auto simp: pm_has_def known_permission_def)

lemma known_permissionE:
  assumes "known_permission p"
  obtains "p = Read" | "p = Write" | "p = Execute" | "p = Administrate"
  using assms by (auto simp: known_permission_def)

lemma known_permissions [simp]:
  "known_permission Read" "known_permission Write" "known_permission Execute"
  "known_permission Administrate"
  by (simp_all add: known_permission_def)

lemma permissions_map_eqI:
  assumes "\<And>p. known_permission p \<Longrightarrow> pm_has m p = pm_has n p"
  shows "m = n"
  using assms [of Read] assms [of Write] assms [of Execute] assms [of Administrate]
  by (cases m; cases n) simp

lemma m_index_simps [simp]: "m_index None k = no_permissions" "m_index m_empty k = no_permissions"
  by (simp_all add: m_index_def)

lemma m_index_nonnil [simp]: "m_index (m_nonnil m) k = m_index m k"
  by (simp add: m_index_def)

lemma m_index_put [simp]:
  "m \<noteq> None \<Longrightarrow> m_index (m_put k v m) j = (if j = k then v else m_index m j)"
  by (simp add: m_index_def)

lemma acl_of_nil [simp]: "acl_of nil_permissions s p = False"
  by (cases s) (simp_all add: acl_of_def nil_permissions_def)

lemma Valid_iff: "Valid p \<longleftrightarrow> acl_has_admin_user (acl_of p)"
proof
  assume "Valid p"
  then obtain u r where "m_get (rp_user p) u = Some r" "pm_administrate r"
    by (auto simp: Valid_def list_ex_iff m_entries_get)
  then have "acl_of p (User u) Administrate"
    by (simp add: acl_of_def m_index_def)
  then show "acl_has_admin_user (acl_of p)"
    unfolding acl_has_admin_user_def by blast
next
  assume "acl_has_admin_user (acl_of p)"
  then obtain u where "pm_administrate (m_index (rp_user p) u)"
    by (auto simp: acl_has_admin_user_def acl_of_def)
  then obtain r where "m_get (rp_user p) u = Some r" "pm_administrate r"
    by (auto simp: m_index_def no_permissions_def split: option.splits)
  then show "Valid p"
    by (auto simp: Valid_def list_ex_iff m_entries_get)
qed

lemma permission_list_Inr:
  "permission_list rs = Inr ps \<longleftrightarrow> ps = rs \<and> (\<forall>p \<in> set rs. known_permission p)"
  by (induction rs arbitrary: ps)
    (auto simp: known_permission_def split: sum.splits if_splits)

lemma known_permission_valid_rune: "known_permission p \<Longrightarrow> valid_rune p"
  by (auto simp: known_permission_def permission_defs valid_rune_def)

lemma deep_equal_nonnil_permissions:
  "deep_equal_permissions (nonnil_permissions p) (nonnil_permissions q) \<longleftrightarrow>
   m_get (rp_user p) = m_get (rp_user q) \<and> m_get (rp_group p) = m_get (rp_group q) \<and>
   m_get (rp_role p) = m_get (rp_role q)"
  by (simp add: deep_equal_permissions_def nonnil_permissions_def m_deep_equal_nonnil)

lemma acl_of_m_get:
  "m_get (rp_user p) = m_get (rp_user q) \<Longrightarrow> m_get (rp_group p) = m_get (rp_group q) \<Longrightarrow>
   m_get (rp_role p) = m_get (rp_role q) \<Longrightarrow> acl_of p = acl_of q"
proof (intro ext)
  fix s x
  assume "m_get (rp_user p) = m_get (rp_user q)" "m_get (rp_group p) = m_get (rp_group q)"
    "m_get (rp_role p) = m_get (rp_role q)"
  then show "acl_of p s x = acl_of q s x"
    by (cases s) (simp_all add: acl_of_def m_index_def)
qed

section \<open>Properties\<close>

lemma PermissionListFromString_Encode:
  "list_all known_permission ps \<Longrightarrow> PermissionListFromString (PermissionList_Encode ps) = Inr ps"
  using known_permission_valid_rune
  by (auto simp: PermissionListFromString_def PermissionList_Encode_def runes_string_of_runes
      permission_list_Inr list_all_iff)

text \<open>
  A permission list is parsed exactly from the strings that encode known permissions: parsing
  the encoding of known permissions gives them back, anything parsed is known permissions, and a
  string with any other rune is refused.
\<close>

theorem permission_list_round_trip:
  "(list_all known_permission ps \<longrightarrow> PermissionListFromString (PermissionList_Encode ps) = Inr ps) \<and>
   (\<forall>qs. PermissionListFromString s = Inr qs \<longrightarrow> list_all known_permission qs \<and> qs = runes s) \<and>
   ((\<exists>r \<in> set (runes s). \<not> known_permission r) \<longrightarrow> (\<exists>e. PermissionListFromString s = Inl e))"
proof (intro conjI impI allI)
  show "PermissionListFromString (PermissionList_Encode ps) = Inr ps" if "list_all known_permission ps"
    using that by (rule PermissionListFromString_Encode)
  show "list_all known_permission qs" "qs = runes s" if "PermissionListFromString s = Inr qs" for qs
    using that by (auto simp: PermissionListFromString_def permission_list_Inr list_all_iff)
  show "\<exists>e. PermissionListFromString s = Inl e" if "\<exists>r \<in> set (runes s). \<not> known_permission r"
    using that permission_list_Inr [of "runes s"]
    by (cases "permission_list (runes s)") (auto simp: PermissionListFromString_def)
qed

theorem permission_list_round_trip_witness:
  "PermissionListFromString (PermissionList_Encode [Read, Administrate]) = Inr [Read, Administrate]"
  using permission_list_round_trip [of "[Read, Administrate]"] by simp

text \<open>
  C18. Options taken from a query fit into 64 bits and carry no filter of ids. Limit and offset come
  back as they were written into the query; absent or empty they are 0.
\<close>

theorem list_options_from_query:
  "(\<forall>o'. ListOptionsFromQuery q = Inr o' \<longrightarrow> int64 (lo_limit o') \<and> int64 (lo_offset o') \<and> lo_ids o' = None) \<and>
   (int64 l \<and> int64 n \<and> Get q ''limit'' = FormatInt l \<and> Get q ''offset'' = FormatInt n \<longrightarrow>
      ListOptionsFromQuery q = Inr \<lparr>lo_limit = l, lo_offset = n, lo_ids = None\<rparr>) \<and>
   (Get q ''limit'' = [] \<and> Get q ''offset'' = [] \<longrightarrow> ListOptionsFromQuery q = Inr default_list_options)"
proof (intro conjI impI allI)
  fix o' assume "ListOptionsFromQuery q = Inr o'"
  then show "int64 (lo_limit o')" "int64 (lo_offset o')" "lo_ids o' = None"
    by (auto simp: ListOptionsFromQuery_def Let_def int64_def split: option.splits if_splits
        dest: ParseInt_int64)
next
  have "FormatInt i \<noteq> []" for i
    using decimal_digits_digits by (simp add: FormatInt_def)
  then show "ListOptionsFromQuery q = Inr \<lparr>lo_limit = l, lo_offset = n, lo_ids = None\<rparr>"
    if "int64 l \<and> int64 n \<and> Get q ''limit'' = FormatInt l \<and> Get q ''offset'' = FormatInt n"
    using that by (simp add: ListOptionsFromQuery_def Let_def ParseInt_FormatInt)
  show "ListOptionsFromQuery q = Inr default_list_options"
    if "Get q ''limit'' = [] \<and> Get q ''offset'' = []"
    using that by (simp add: ListOptionsFromQuery_def default_list_options_def)
qed

theorem list_options_from_query_witness:
  "ListOptionsFromQuery (Add ''limit'' (FormatInt 10) (Add ''offset'' (FormatInt 20) DAList.empty)) =
     Inr \<lparr>lo_limit = 10, lo_offset = 20, lo_ids = None\<rparr>"
  using list_options_from_query [of "Add ''limit'' (FormatInt 10) (Add ''offset'' (FormatInt 20) DAList.empty)" 10 20]
  by (simp add: int64_def Get_def values_list_Add values_list_def [of DAList.empty])

end
