(* ===== verification/IdModifier.thy ===== *)
theory IdModifier
  imports Model
begin

text \<open>
  The package \<open>pkg/controller/idmodifier\<close>: a resource id may carry a modifier after a dollar sign,
  a query string the controller cuts off before it asks the database.
\<close>

definition Seperator :: string where
  "Seperator = ''$''"

definition DecodeModifierParameter :: "string \<Rightarrow> url_values \<times> error option" where
  "DecodeModifierParameter parameter = ParseQuery parameter"

definition EncodeModifierParameter :: "url_values \<Rightarrow> string" where
  "EncodeModifierParameter parameter = Encode parameter"

text \<open>The pure id and the modifier; \<open>None\<close> is the nil modifier.\<close>

definition SplitModifier :: "string \<Rightarrow> string \<times> url_values option" where
  "SplitModifier rid =
     (case SplitN2 rid Seperator of
        pureId # modifier # _ \<Rightarrow>
          (case DecodeModifierParameter modifier of
             (m, None) \<Rightarrow> (pureId, Some m)
           | (m, Some err) \<Rightarrow> (pureId, None))
      | [pureId] \<Rightarrow> (pureId, None)
      | [] \<Rightarrow> ([], None))"

abbreviation pure_id :: "string \<Rightarrow> string" where
  "pure_id rid \<equiv> fst (SplitModifier rid)"

lemma pure_id_eq: "pure_id rid = (case Cut rid ''$'' of None \<Rightarrow> rid | Some (a, b) \<Rightarrow> a)"
  by (auto simp: SplitModifier_def SplitN2_def Seperator_def split: option.split prod.split)

lemma pure_id_no_modifier: "CHR ''$'' \<notin> set rid \<Longrightarrow> pure_id rid = rid"
  by (simp add: pure_id_eq Cut_char_None [THEN iffD2])

lemma pure_id_append: "CHR ''$'' \<notin> set p \<Longrightarrow> pure_id (p @ CHR ''$'' # m) = p"
  by (simp add: pure_id_eq Cut_char_append)

lemma pure_id_free: "CHR ''$'' \<notin> set (pure_id rid)"
  by (auto simp: pure_id_eq Cut_char_None split: option.splits dest: Cut_char_Some)

lemma pure_id_idem [simp]: "pure_id (pure_id rid) = pure_id rid"
  by (rule pure_id_no_modifier) (rule pure_id_free)

text \<open>
  An id made of a pure id and an encoded modifier is taken apart again: the pure id comes
  back, and the modifier with exactly the values that were encoded.
\<close>

theorem split_modifier_round_trip:
  "\<exists>m. SplitModifier (pure_id p @ Seperator @ EncodeModifierParameter q) = (pure_id p, Some m) \<and>
     values_list m = values_list q"
proof -
  obtain m where m: "ParseQuery (Encode q) = (m, None)"
    using ParseQuery_Encode_values(1) [of q] by (metis prod.collapse)
  have "Cut (pure_id p @ CHR ''$'' # Encode q) ''$'' = Some (pure_id p, Encode q)"
    by (rule Cut_char_append) (rule pure_id_free)
  then have "SplitModifier (pure_id p @ Seperator @ EncodeModifierParameter q) = (pure_id p, Some m)"
    by (simp add: SplitModifier_def SplitN2_def Seperator_def DecodeModifierParameter_def
        EncodeModifierParameter_def m)
  moreover have "values_list m = values_list q"
    using ParseQuery_Encode_values(2) [of q] m by (simp add: fun_eq_iff)
  ultimately show ?thesis by blast
qed

end
