(* ===== verification/DatabaseIfc.thy ===== *)
theory DatabaseIfc
  imports IdModifier
begin

text \<open>
  The interface \<open>database.Database\<close> of \<open>pkg/database/db.go\<close> as a record of its methods over a state
  of type \<open>'s\<close>, and what it promises: an abstract store (the topics, and for every resource the
  access control list its permissions amount to), and locales that say how each method reads or
  changes that store. Methods may fail at any time; a read that fails changes nothing, a write
  that fails has happened or not. \<open>MockDb\<close> and \<open>MongoDb\<close> provide the two implementations.
\<close>

section \<open>The interface\<close>

record 's database =
  MarkResourceAsSynced :: "string \<Rightarrow> string \<Rightarrow> ('s, error option) state"
  SetResource :: "resource \<Rightarrow> int \<Rightarrow> bool \<Rightarrow> ('s, error option) state"
  GetResource :: "string \<Rightarrow> string \<Rightarrow> get_options \<Rightarrow> ('s, error + resource) state"
  DeleteResource :: "string \<Rightarrow> string \<Rightarrow> ('s, error option) state"
  ListUnsyncedResources :: "('s, error + resource list) state"
  AdminListResourceIds :: "string \<Rightarrow> list_options \<Rightarrow> ('s, error + string list) state"
  AdminListResources :: "string \<Rightarrow> list_options \<Rightarrow> ('s, error + resource list) state"
  ListResourcesByPermissions ::
    "string \<Rightarrow> string \<Rightarrow> string list \<Rightarrow> string list \<Rightarrow> list_options \<Rightarrow> permission list \<Rightarrow>
     ('s, error + resource list) state"
  ListResourceIdsByPermissions ::
    "string \<Rightarrow> string \<Rightarrow> string list \<Rightarrow> string list \<Rightarrow> list_options \<Rightarrow> permission list \<Rightarrow>
     ('s, error + string list) state"
  CheckMultipleResourcePermissions ::
    "string \<Rightarrow> string list \<Rightarrow> string \<Rightarrow> string list \<Rightarrow> string list \<Rightarrow> permission list \<Rightarrow>
     ('s, error + (string, bool) alist) state"
  CheckResourcePermissions ::
    "string \<Rightarrow> string \<Rightarrow> string \<Rightarrow> string list \<Rightarrow> string list \<Rightarrow> permission list \<Rightarrow>
     ('s, error + bool) state"
  SetTopic :: "topic \<Rightarrow> ('s, error option) state"
  GetTopic :: "string \<Rightarrow> ('s, error + topic option) state"
  ListTopics :: "list_options \<Rightarrow> ('s, error + topic list) state"
  DeleteTopic :: "string \<Rightarrow> ('s, error option) state"

section \<open>The abstract store\<close>

record store =
  st_topics :: "string \<Rightarrow> topic option"
  st_resources :: "string \<Rightarrow> string \<Rightarrow> acl option"

text \<open>A topic without the time stamp the database puts on it.\<close>

definition topic_core :: "topic \<Rightarrow> topic" where
  "topic_core t = t\<lparr>t_last_update_unix_timestamp := 0\<rparr>"

definition put_resource :: "resource \<Rightarrow> store \<Rightarrow> store" where
  "put_resource r st = st\<lparr>st_resources := (st_resources st)
     (r_topic_id r := (st_resources st (r_topic_id r))(r_id r := Some (acl_of (r_permissions r))))\<rparr>"

definition drop_resource :: "string \<Rightarrow> string \<Rightarrow> store \<Rightarrow> store" where
  "drop_resource t i st = st\<lparr>st_resources := (st_resources st)
     (t := (st_resources st t)(i := None))\<rparr>"

definition put_topic :: "topic \<Rightarrow> store \<Rightarrow> store" where
  "put_topic t st = st\<lparr>st_topics := (st_topics st)(t_id t := Some (topic_core t))\<rparr>"

definition drop_topic :: "string \<Rightarrow> store \<Rightarrow> store" where
  "drop_topic i st = st\<lparr>st_topics := (st_topics st)(i := None),
     st_resources := (st_resources st)(i := (\<lambda>_. None))\<rparr>"

text \<open>What may be left of a topic when its removal fails half way.\<close>

definition drop_topic_partly :: "string \<Rightarrow> store \<Rightarrow> store \<Rightarrow> bool" where
  "drop_topic_partly i st st' \<longleftrightarrow>
     (st_topics st' = st_topics st \<or> st_topics st' = (st_topics st)(i := None)) \<and>
     (\<forall>t j. st_resources st' t j = st_resources st t j \<or> (t = i \<and> st_resources st' t j = None))"

text \<open>A list of the resources of a topic that satisfy a condition, sorted by id.\<close>

definition lists_resources ::
  "store \<Rightarrow> string \<Rightarrow> (string \<Rightarrow> acl \<Rightarrow> bool) \<Rightarrow> resource list \<Rightarrow> bool" where
  "lists_resources st t P l \<longleftrightarrow>
     sorted (map r_id l) \<and> distinct (map r_id l) \<and> (\<forall>r \<in> set l. r_topic_id r = t) \<and>
     (\<lambda>r. (r_id r, acl_of (r_permissions r))) ` set l =
       {(i, a). st_resources st t i = Some a \<and> P i a}"

definition in_ids :: "list_options \<Rightarrow> string \<Rightarrow> bool" where
  "in_ids opt i \<longleftrightarrow> (case lo_ids opt of None \<Rightarrow> True | Some ids \<Rightarrow> i \<in> set ids)"

abbreviation all_known :: "permission list \<Rightarrow> bool" where
  "all_known ps \<equiv> list_all known_permission ps"

section \<open>The contract\<close>

text \<open>Which methods read, and that every method maintains the invariant of the implementation.\<close>

locale database_base =
  fixes db :: "'s database"
    and store_of :: "'s \<Rightarrow> store"
    and invar :: "'s \<Rightarrow> bool"
  assumes reads_MarkResourceAsSynced: "preserves invar store_of (MarkResourceAsSynced db t i)"
    and reads_GetResource: "preserves invar store_of (GetResource db t i opts)"
    and reads_ListUnsyncedResources: "preserves invar store_of (ListUnsyncedResources db)"
    and reads_AdminListResourceIds: "preserves invar store_of (AdminListResourceIds db t opt)"
    and reads_AdminListResources: "preserves invar store_of (AdminListResources db t opt)"
    and reads_ListResourcesByPermissions:
      "preserves invar store_of (ListResourcesByPermissions db t u rs gs opt ps)"
    and reads_ListResourceIdsByPermissions:
      "preserves invar store_of (ListResourceIdsByPermissions db t u rs gs opt ps)"
    and reads_CheckMultipleResourcePermissions:
      "preserves invar store_of (CheckMultipleResourcePermissions db t is u rs gs ps)"
    and reads_CheckResourcePermissions:
      "preserves invar store_of (CheckResourcePermissions db t i u rs gs ps)"
    and reads_GetTopic: "preserves invar store_of (GetTopic db i)"
    and reads_ListTopics: "preserves invar store_of (ListTopics db opt)"
    and maintains_SetResource: "maintains invar (SetResource db r time synced)"
    and maintains_DeleteResource: "maintains invar (DeleteResource db t i)"
    and maintains_SetTopic: "maintains invar (SetTopic db topic)"
    and maintains_DeleteTopic: "maintains invar (DeleteTopic db i)"
begin

lemmas reads = reads_MarkResourceAsSynced reads_GetResource reads_ListUnsyncedResources
  reads_AdminListResourceIds reads_AdminListResources reads_ListResourcesByPermissions
  reads_ListResourceIdsByPermissions reads_CheckMultipleResourcePermissions
  reads_CheckResourcePermissions reads_GetTopic reads_ListTopics

end

text \<open>What the lookups return.\<close>

locale database_lookup = database_base +
  assumes GetTopic_law:
    "invar s \<Longrightarrow> run_state (GetTopic db i) s = (Inr found, s') \<Longrightarrow>
     map_option topic_core found = st_topics (store_of s) i \<and>
     (\<forall>topic. found = Some topic \<longrightarrow> t_id topic = i)"
    and GetResource_law:
    "invar s \<Longrightarrow> run_state (GetResource db t i opts) s = (Inr r, s') \<Longrightarrow>
     r_topic_id r = t \<and> r_id r = i \<and>
     st_resources (store_of s) t i = Some (acl_of (r_permissions r)) \<and>
     (go_check_permission opts \<longrightarrow> all_known (go_permissions opts) \<longrightarrow>
        acl_grants_all (acl_of (r_permissions r)) (go_user_id opts) (go_role_ids opts)
          (go_group_ids opts) (go_permissions opts))"
    and GetResource_not_found:
    "invar s \<Longrightarrow> run_state (GetResource db t i opts) s = (Inl e, s') \<Longrightarrow>
     errors_is e ErrNotFound \<Longrightarrow> st_resources (store_of s) t i = None"
    and GetResource_failed:
    "invar s \<Longrightarrow> run_state (GetResource db t i opts) s = (Inl e, s') \<Longrightarrow>
     errors_is e PermissionCheckFailed \<Longrightarrow>
     go_check_permission opts \<and>
     (\<exists>a. st_resources (store_of s) t i = Some a \<and>
        (all_known (go_permissions opts) \<longrightarrow>
         \<not> acl_grants_all a (go_user_id opts) (go_role_ids opts) (go_group_ids opts)
             (go_permissions opts)))"
    and CheckResourcePermissions_law:
    "invar s \<Longrightarrow> run_state (CheckResourcePermissions db t i u rs gs ps) s = (Inr b, s') \<Longrightarrow>
     all_known ps \<Longrightarrow>
     b \<longleftrightarrow> (\<exists>a. st_resources (store_of s) t i = Some a \<and> acl_grants_all a u rs gs ps)"
    and CheckMultipleResourcePermissions_law:
    "invar s \<Longrightarrow> run_state (CheckMultipleResourcePermissions db t is u rs gs ps) s = (Inr m, s') \<Longrightarrow>
     all_known ps \<Longrightarrow>
     DAList.lookup m i =
       (if i \<in> set is
        then map_option (\<lambda>a. acl_grants_all a u rs gs ps) (st_resources (store_of s) t i)
        else None)"

text \<open>What the lists hold.\<close>

locale database_listing = database_lookup +
  assumes AdminListResources_law:
    "invar s \<Longrightarrow> run_state (AdminListResources db t opt) s = (Inr l, s') \<Longrightarrow>
     \<exists>full. lists_resources (store_of s) t (\<lambda>i a. in_ids opt i) full \<and>
       l = page (lo_limit opt) (lo_offset opt) full"
    and AdminListResourceIds_law:
    "invar s \<Longrightarrow> run_state (AdminListResourceIds db t opt) s = (Inr ids, s') \<Longrightarrow> lo_ids opt = None \<Longrightarrow>
     \<exists>full. lists_resources (store_of s) t (\<lambda>i a. True) full \<and>
       ids = page (lo_limit opt) (lo_offset opt) (map r_id full)"
    and ListResourcesByPermissions_law:
    "invar s \<Longrightarrow> run_state (ListResourcesByPermissions db t u rs gs opt ps) s = (Inr l, s') \<Longrightarrow>
     all_known ps \<Longrightarrow>
     \<exists>full. lists_resources (store_of s) t (\<lambda>i a. acl_grants_all a u rs gs ps) full \<and>
       l = page (lo_limit opt) (lo_offset opt) full"
    and ListResourceIdsByPermissions_law:
    "invar s \<Longrightarrow> run_state (ListResourceIdsByPermissions db t u rs gs opt ps) s = (Inr ids, s') \<Longrightarrow>
     all_known ps \<Longrightarrow>
     \<exists>full. lists_resources (store_of s) t (\<lambda>i a. acl_grants_all a u rs gs ps) full \<and>
       ids = page (lo_limit opt) (lo_offset opt) (map r_id full)"
    and ListTopics_law:
    "invar s \<Longrightarrow> run_state (ListTopics db default_list_options) s = (Inr ts, s') \<Longrightarrow>
     distinct (map t_id ts) \<and>
     (\<lambda>t. (t_id t, topic_core t)) ` set ts = {(i, t). st_topics (store_of s) i = Some t}"

text \<open>What the writes change.\<close>

locale database = database_listing +
  assumes SetResource_law:
    "invar s \<Longrightarrow> run_state (SetResource db r time synced) s = (e, s') \<Longrightarrow>
     store_of s' = put_resource r (store_of s) \<or> (e \<noteq> None \<and> store_of s' = store_of s)"
    and DeleteResource_law:
    "invar s \<Longrightarrow> run_state (DeleteResource db t i) s = (e, s') \<Longrightarrow>
     store_of s' = drop_resource t i (store_of s) \<or> (e \<noteq> None \<and> store_of s' = store_of s)"
    and SetTopic_law:
    "invar s \<Longrightarrow> run_state (SetTopic db topic) s = (e, s') \<Longrightarrow>
     store_of s' = put_topic topic (store_of s) \<or> (e \<noteq> None \<and> store_of s' = store_of s)"
    and DeleteTopic_law:
    "invar s \<Longrightarrow> run_state (DeleteTopic db i) s = (None, s') \<Longrightarrow>
     store_of s' = drop_topic i (store_of s)"
    and DeleteTopic_error:
    "invar s \<Longrightarrow> run_state (DeleteTopic db i) s = (Some err, s') \<Longrightarrow>
     drop_topic_partly i (store_of s) (store_of s')"

section \<open>Lemmas about the store\<close>

lemma put_resource_simps [simp]:
  "st_topics (put_resource r st) = st_topics st"
  "st_resources (put_resource r st) t i =
     (if t = r_topic_id r \<and> i = r_id r then Some (acl_of (r_permissions r))
      else st_resources st t i)"
  by (simp_all add: put_resource_def)

lemma drop_resource_simps [simp]:
  "st_topics (drop_resource t i st) = st_topics st"
  "st_resources (drop_resource t i st) u j =
     (if u = t \<and> j = i then None else st_resources st u j)"
  by (simp_all add: drop_resource_def)

lemma put_topic_simps [simp]:
  "st_resources (put_topic t st) = st_resources st"
  "st_topics (put_topic t st) = (st_topics st)(t_id t := Some (topic_core t))"
  by (simp_all add: put_topic_def)

lemma drop_topic_simps [simp]:
  "st_topics (drop_topic i st) = (st_topics st)(i := None)"
  "st_resources (drop_topic i st) t j = (if t = i then None else st_resources st t j)"
  by (simp_all add: drop_topic_def)

lemma topic_core_simps [simp]:
  "t_id (topic_core t) = t_id t"
  "t_publish_to_kafka_topic (topic_core t) = t_publish_to_kafka_topic t"
  "t_ensure_kafka_topic_init (topic_core t) = t_ensure_kafka_topic_init t"
  "t_ensure_kafka_topic_init_partition_number (topic_core t) =
     t_ensure_kafka_topic_init_partition_number t"
  "t_default_permissions (topic_core t) = t_default_permissions t"
  by (simp_all add: topic_core_def)

lemma store_eqI:
  assumes "st_topics a = st_topics b" "\<And>t i. st_resources a t i = st_resources b t i"
  shows "a = (b :: store)"
proof -
  have "st_resources a = st_resources b" using assms(2) by (intro ext)
  with assms(1) show ?thesis by simp
qed

lemma lists_resourcesD:
  "lists_resources st t P l \<Longrightarrow> r \<in> set l \<Longrightarrow>
   r_topic_id r = t \<and> st_resources st t (r_id r) = Some (acl_of (r_permissions r)) \<and>
   P (r_id r) (acl_of (r_permissions r))"
  by (auto simp: lists_resources_def)

lemma lists_resources_ids:
  "lists_resources st t P l \<Longrightarrow>
   set (map r_id l) = {i. \<exists>a. st_resources st t i = Some a \<and> P i a}"
proof -
  assume l: "lists_resources st t P l"
  have "set (map r_id l) = fst ` (\<lambda>r. (r_id r, acl_of (r_permissions r))) ` set l"
    by (simp add: image_image)
  also have "\<dots> = fst ` {(i, a). st_resources st t i = Some a \<and> P i a}"
    using l by (simp add: lists_resources_def)
  also have "\<dots> = {i. \<exists>a. st_resources st t i = Some a \<and> P i a}"
    by (auto simp: image_iff)
  finally show ?thesis .
qed

text \<open>The ids of such a list are determined by the store.\<close>

lemma lists_resources_unique_ids:
  "lists_resources st t P l \<Longrightarrow> lists_resources st t P k \<Longrightarrow> map r_id l = map r_id k"
  using lists_resources_ids [of st t P l] lists_resources_ids [of st t P k]
  by (auto simp: lists_resources_def intro: sorted_distinct_set_unique)

end
