(* ===== verification/MongoEntry.thy ===== *)
theory MongoEntry
  imports DatabaseIfc
begin

text \<open>
  The documents of the permissions collection: \<open>PermissionsEntry\<close> with its conversion to and from
  resource permissions (\<open>pkg/database/mongo/permissions.go\<close> and \<open>update.go\<close>) and the permission
  check on an entry (\<open>check.go\<close>). An entry keeps, for every permission, the users, groups and roles
  that have it. The lemmas relate an entry to the access control list it stands for.
\<close>

section \<open>Entries\<close>

record permissions_entry =
  pe_topic_id :: string
  pe_id :: string
  pe_timestamp :: int
  pe_synced :: bool
  pe_admin_users :: "string list"
  pe_admin_groups :: "string list"
  pe_admin_roles :: "string list"
  pe_read_users :: "string list"
  pe_read_groups :: "string list"
  pe_read_roles :: "string list"
  pe_write_users :: "string list"
  pe_write_groups :: "string list"
  pe_write_roles :: "string list"
  pe_execute_users :: "string list"
  pe_execute_groups :: "string list"
  pe_execute_roles :: "string list"

text \<open>The entry \<open>SetPermissions\<close> starts from.\<close>

definition empty_entry :: "string \<Rightarrow> string \<Rightarrow> int \<Rightarrow> bool \<Rightarrow> permissions_entry" where
  "empty_entry topic rid t synced =
     \<lparr>pe_topic_id = topic, pe_id = rid, pe_timestamp = t, pe_synced = synced,
      pe_admin_users = [], pe_admin_groups = [], pe_admin_roles = [],
      pe_read_users = [], pe_read_groups = [], pe_read_roles = [],
      pe_write_users = [], pe_write_groups = [], pe_write_roles = [],
      pe_execute_users = [], pe_execute_groups = [], pe_execute_roles = []\<rparr>"

section \<open>From permissions to an entry\<close>

fun set_groups :: "(string \<times> permissions_map) list \<Rightarrow> permissions_entry \<Rightarrow> permissions_entry" where
  "set_groups [] this = this"
| "set_groups ((grp, p) # rest) this =
     (let this = (if pm_administrate p
                  then this\<lparr>pe_admin_groups := pe_admin_groups this @ [grp]\<rparr> else this);
          this = (if pm_execute p
                  then this\<lparr>pe_execute_groups := pe_execute_groups this @ [grp]\<rparr> else this);
          this = (if pm_write p
                  then this\<lparr>pe_write_groups := pe_write_groups this @ [grp]\<rparr> else this);
          this = (if pm_read p
                  then this\<lparr>pe_read_groups := pe_read_groups this @ [grp]\<rparr> else this)
      in set_groups rest this)"

fun set_roles :: "(string \<times> permissions_map) list \<Rightarrow> permissions_entry \<Rightarrow> permissions_entry" where
  "set_roles [] this = this"
| "set_roles ((role, p) # rest) this =
     (let this = (if pm_administrate p
                  then this\<lparr>pe_admin_roles := pe_admin_roles this @ [role]\<rparr> else this);
          this = (if pm_execute p
                  then this\<lparr>pe_execute_roles := pe_execute_roles this @ [role]\<rparr> else this);
          this = (if pm_write p
                  then this\<lparr>pe_write_roles := pe_write_roles this @ [role]\<rparr> else this);
          this = (if pm_read p
                  then this\<lparr>pe_read_roles := pe_read_roles this @ [role]\<rparr> else this)
      in set_roles rest this)"

fun set_users :: "(string \<times> permissions_map) list \<Rightarrow> permissions_entry \<Rightarrow> permissions_entry" where
  "set_users [] this = this"
| "set_users ((user, p) # rest) this =
     (let this = (if pm_administrate p
                  then this\<lparr>pe_admin_users := pe_admin_users this @ [user]\<rparr> else this);
          this = (if pm_execute p
                  then this\<lparr>pe_execute_users := pe_execute_users this @ [user]\<rparr> else this);
          this = (if pm_write p
                  then this\<lparr>pe_write_users := pe_write_users this @ [user]\<rparr> else this);
          this = (if pm_read p
                  then this\<lparr>pe_read_users := pe_read_users this @ [user]\<rparr> else this)
      in set_users rest this)"

definition setResourcePermissions ::
  "resource_permissions \<Rightarrow> permissions_entry \<Rightarrow> permissions_entry" where
  "setResourcePermissions permissions this =
     set_users (m_entries (rp_user permissions))
       (set_roles (m_entries (rp_role permissions))
         (set_groups (m_entries (rp_group permissions)) this))"

section \<open>From an entry to a resource\<close>

text \<open>One of the twelve loops of \<open>ToResource\<close>.\<close>

fun grant_loop ::
  "(permissions_map \<Rightarrow> permissions_map) \<Rightarrow> string list \<Rightarrow> permissions_map gomap \<Rightarrow>
   permissions_map gomap" where
  "grant_loop grant [] m = m"
| "grant_loop grant (name # names) m =
     (let m = (if m_get m name = None then m_put name no_permissions m else m);
          permissions = grant (m_index m name)
      in grant_loop grant names (m_put name permissions m))"

definition ToResource :: "permissions_entry \<Rightarrow> resource" where
  "ToResource this =
     \<lparr>r_id = pe_id this,
      r_topic_id = pe_topic_id this,
      r_permissions =
       \<lparr>rp_user =
          grant_loop (pm_execute_update (\<lambda>_. True)) (pe_execute_users this)
            (grant_loop (pm_write_update (\<lambda>_. True)) (pe_write_users this)
              (grant_loop (pm_read_update (\<lambda>_. True)) (pe_read_users this)
                (grant_loop (pm_administrate_update (\<lambda>_. True)) (pe_admin_users this) m_empty))),
        rp_group =
          grant_loop (pm_execute_update (\<lambda>_. True)) (pe_execute_groups this)
            (grant_loop (pm_write_update (\<lambda>_. True)) (pe_write_groups this)
              (grant_loop (pm_read_update (\<lambda>_. True)) (pe_read_groups this)
                (grant_loop (pm_administrate_update (\<lambda>_. True)) (pe_admin_groups this) m_empty))),
        rp_role =
          grant_loop (pm_execute_update (\<lambda>_. True)) (pe_execute_roles this)
            (grant_loop (pm_write_update (\<lambda>_. True)) (pe_write_roles this)
              (grant_loop (pm_read_update (\<lambda>_. True)) (pe_read_roles this)
                (grant_loop (pm_administrate_update (\<lambda>_. True)) (pe_admin_roles this) m_empty)))\<rparr>\<rparr>"

section \<open>The check on an entry\<close>

fun containsAny :: "string list \<Rightarrow> string list \<Rightarrow> bool" where
  "containsAny list [] = False"
| "containsAny list (e # any) = (if List.member list e then True else containsAny list any)"

text \<open>Permissions that are none of the four are skipped: the switch has no default.\<close>

fun checkPermissions ::
  "string \<Rightarrow> string list \<Rightarrow> string list \<Rightarrow> permissions_entry \<Rightarrow> permission list \<Rightarrow> bool" where
  "checkPermissions userId roleIds groupIds element [] = True"
| "checkPermissions userId roleIds groupIds element (p # ps) =
     (if p = Administrate then
        (if \<not> List.member (pe_admin_users element) userId \<and>
            \<not> containsAny (pe_admin_groups element) groupIds \<and>
            \<not> containsAny (pe_admin_roles element) roleIds
         then False else checkPermissions userId roleIds groupIds element ps)
      else if p = Read then
        (if \<not> List.member (pe_read_users element) userId \<and>
            \<not> containsAny (pe_read_groups element) groupIds \<and>
            \<not> containsAny (pe_read_roles element) roleIds
         then False else checkPermissions userId roleIds groupIds element ps)
      else if p = Write then
        (if \<not> List.member (pe_write_users element) userId \<and>
            \<not> containsAny (pe_write_groups element) groupIds \<and>
            \<not> containsAny (pe_write_roles element) roleIds
         then False else checkPermissions userId roleIds groupIds element ps)
      else if p = Execute then
        (if \<not> List.member (pe_execute_users element) userId \<and>
            \<not> containsAny (pe_execute_groups element) groupIds \<and>
            \<not> containsAny (pe_execute_roles element) roleIds
         then False else checkPermissions userId roleIds groupIds element ps)
      else checkPermissions userId roleIds groupIds element ps)"

section \<open>What an entry grants\<close>

fun entry_acl :: "permissions_entry \<Rightarrow> subject \<Rightarrow> permission \<Rightarrow> bool" where
  "entry_acl e (User u) p \<longleftrightarrow>
     (p = Administrate \<and> u \<in> set (pe_admin_users e)) \<or> (p = Read \<and> u \<in> set (pe_read_users e)) \<or>
     (p = Write \<and> u \<in> set (pe_write_users e)) \<or> (p = Execute \<and> u \<in> set (pe_execute_users e))"
| "entry_acl e (Group g) p \<longleftrightarrow>
     (p = Administrate \<and> g \<in> set (pe_admin_groups e)) \<or> (p = Read \<and> g \<in> set (pe_read_groups e)) \<or>
     (p = Write \<and> g \<in> set (pe_write_groups e)) \<or> (p = Execute \<and> g \<in> set (pe_execute_groups e))"
| "entry_acl e (Role r) p \<longleftrightarrow>
     (p = Administrate \<and> r \<in> set (pe_admin_roles e)) \<or> (p = Read \<and> r \<in> set (pe_read_roles e)) \<or>
     (p = Write \<and> r \<in> set (pe_write_roles e)) \<or> (p = Execute \<and> r \<in> set (pe_execute_roles e))"

lemma containsAny_iff [simp]: "containsAny xs ys \<longleftrightarrow> (\<exists>y \<in> set ys. y \<in> set xs)"
  by (induction ys) auto

lemma checkPermissions_Cons:
  "checkPermissions u rs gs e (p # ps) \<longleftrightarrow>
   (known_permission p \<longrightarrow> acl_grants (entry_acl e) u rs gs p) \<and> checkPermissions u rs gs e ps"
  by (auto simp: acl_grants_def known_permission_def)

declare checkPermissions.simps(2) [simp del]

lemma checkPermissions_iff:
  "checkPermissions u rs gs e ps \<longleftrightarrow>
   (\<forall>p \<in> set ps. known_permission p \<longrightarrow> acl_grants (entry_acl e) u rs gs p)"
  by (induction ps) (auto simp: checkPermissions_Cons)

lemma checkPermissions_grants:
  "all_known ps \<Longrightarrow> checkPermissions u rs gs e ps \<longleftrightarrow> acl_grants_all (entry_acl e) u rs gs ps"
  by (auto simp: checkPermissions_iff acl_grants_all_def list_all_iff)

text \<open>The loops of \<open>setResourcePermissions\<close> append the names that have a permission.\<close>

definition having :: "(permissions_map \<Rightarrow> bool) \<Rightarrow> (string \<times> permissions_map) list \<Rightarrow> string list" where
  "having field es = map fst (filter (\<lambda>(n, p). field p) es)"

lemma having_simps [simp]:
  "having f [] = []"
  "having f ((n, p) # es) = (if f p then n # having f es else having f es)"
  by (simp_all add: having_def)

lemma set_groups_eq:
  "set_groups es e = e\<lparr>pe_admin_groups := pe_admin_groups e @ having pm_administrate es,
     pe_execute_groups := pe_execute_groups e @ having pm_execute es,
     pe_write_groups := pe_write_groups e @ having pm_write es,
     pe_read_groups := pe_read_groups e @ having pm_read es\<rparr>"
  by (induction es e rule: set_groups.induct) (simp_all add: Let_def)

lemma set_roles_eq:
  "set_roles es e = e\<lparr>pe_admin_roles := pe_admin_roles e @ having pm_administrate es,
     pe_execute_roles := pe_execute_roles e @ having pm_execute es,
     pe_write_roles := pe_write_roles e @ having pm_write es,
     pe_read_roles := pe_read_roles e @ having pm_read es\<rparr>"
  by (induction es e rule: set_roles.induct) (simp_all add: Let_def)

lemma set_users_eq:
  "set_users es e = e\<lparr>pe_admin_users := pe_admin_users e @ having pm_administrate es,
     pe_execute_users := pe_execute_users e @ having pm_execute es,
     pe_write_users := pe_write_users e @ having pm_write es,
     pe_read_users := pe_read_users e @ having pm_read es\<rparr>"
  by (induction es e rule: set_users.induct) (simp_all add: Let_def)

lemma in_having_entries:
  "\<not> f no_permissions \<Longrightarrow> n \<in> set (having f (m_entries m)) \<longleftrightarrow> f (m_index m n)"
  by (force simp: having_def m_index_def m_entries_get image_iff split: option.split)

lemma no_permissions_fields [simp]:
  "\<not> pm_read no_permissions" "\<not> pm_write no_permissions" "\<not> pm_execute no_permissions"
  "\<not> pm_administrate no_permissions"
  by (simp_all add: no_permissions_def)

text \<open>The entry made for permissions grants what the permissions grant.\<close>

lemma entry_acl_setResourcePermissions:
  "entry_acl (setResourcePermissions rp (empty_entry t i time synced)) = acl_of rp"
proof (intro ext)
  fix s p
  show "entry_acl (setResourcePermissions rp (empty_entry t i time synced)) s p = acl_of rp s p"
    by (cases s) (auto simp: setResourcePermissions_def set_groups_eq set_roles_eq set_users_eq
        empty_entry_def in_having_entries acl_of_def pm_has_def)
qed

lemma setResourcePermissions_fields [simp]:
  "pe_topic_id (setResourcePermissions rp e) = pe_topic_id e"
  "pe_id (setResourcePermissions rp e) = pe_id e"
  "pe_timestamp (setResourcePermissions rp e) = pe_timestamp e"
  "pe_synced (setResourcePermissions rp e) = pe_synced e"
  by (simp_all add: setResourcePermissions_def set_groups_eq set_roles_eq set_users_eq)

lemma empty_entry_fields [simp]:
  "pe_topic_id (empty_entry t i time synced) = t"
  "pe_id (empty_entry t i time synced) = i"
  "pe_timestamp (empty_entry t i time synced) = time"
  "pe_synced (empty_entry t i time synced) = synced"
  by (simp_all add: empty_entry_def)

text \<open>The loops of \<open>ToResource\<close>.\<close>

lemma grant_loop_not_nil [simp]: "grant_loop f ns m = None \<longleftrightarrow> m = None"
  by (induction ns arbitrary: m) (auto simp: Let_def)

lemma grant_loop_Some [simp]: "(\<exists>y. grant_loop f ns m = Some y) \<longleftrightarrow> (\<exists>y. m = Some y)"
  using grant_loop_not_nil [of f ns m] by (simp only: not_None_eq [symmetric])

lemma m_get_grant_loop:
  assumes "\<And>x. f (f x) = f x" "m \<noteq> None"
  shows "m_get (grant_loop f ns m) n = (if n \<in> set ns then Some (f (m_index m n)) else m_get m n)"
  using assms(2)
proof (induction ns arbitrary: m)
  case (Cons k ns)
  define m1 where "m1 = (let m' = (if m_get m k = None then m_put k no_permissions m else m)
    in m_put k (f (m_index m' k)) m')"
  have nn: "m1 \<noteq> None" using Cons.prems by (simp add: m1_def Let_def)
  have get: "m_get m1 j = (if j = k then Some (f (m_index m k)) else m_get m j)" for j
    using Cons.prems by (simp add: m1_def Let_def m_index_def)
  have "m_get (grant_loop f (k # ns) m) n = m_get (grant_loop f ns m1) n"
    by (simp add: Let_def m1_def)
  with Cons.IH [OF nn] show ?case
    by (simp add: m_index_def get assms(1))
qed simp

lemma m_index_grant_loop:
  assumes "\<And>x. f (f x) = f x" "m \<noteq> None"
  shows "m_index (grant_loop f ns m) n = (if n \<in> set ns then f (m_index m n) else m_index m n)"
  using m_get_grant_loop [OF assms] by (simp add: m_index_def)

lemma ToResource_fields [simp]:
  "r_id (ToResource e) = pe_id e" "r_topic_id (ToResource e) = pe_topic_id e"
  by (simp_all add: ToResource_def)

lemma acl_of_ToResource: "acl_of (r_permissions (ToResource e)) = entry_acl e"
proof (intro ext)
  fix s p
  show "acl_of (r_permissions (ToResource e)) s p = entry_acl e s p"
    by (cases s) (auto simp: ToResource_def acl_of_def m_index_grant_loop pm_has_def)
qed

text \<open>A name has an entry in the resource only if it has some permission.\<close>

lemma m_get_ToResource_user:
  "m_get (rp_user (r_permissions (ToResource e))) u =
     (let m = m_index (rp_user (r_permissions (ToResource e))) u
      in if m = no_permissions then None else Some m)"
  by (auto simp: ToResource_def Let_def m_get_grant_loop m_index_grant_loop no_permissions_def)

lemma m_get_ToResource_group:
  "m_get (rp_group (r_permissions (ToResource e))) u =
     (let m = m_index (rp_group (r_permissions (ToResource e))) u
      in if m = no_permissions then None else Some m)"
  by (auto simp: ToResource_def Let_def m_get_grant_loop m_index_grant_loop no_permissions_def)

lemma m_get_ToResource_role:
  "m_get (rp_role (r_permissions (ToResource e))) u =
     (let m = m_index (rp_role (r_permissions (ToResource e))) u
      in if m = no_permissions then None else Some m)"
  by (auto simp: ToResource_def Let_def m_get_grant_loop m_index_grant_loop no_permissions_def)

lemmas m_get_ToResource = m_get_ToResource_user m_get_ToResource_group m_get_ToResource_role

text \<open>Two permission records with the same access control list have the same fields.\<close>

lemma acl_of_index:
  assumes "acl_of p = acl_of q"
  shows "m_index (rp_user p) n = m_index (rp_user q) n"
    and "m_index (rp_group p) n = m_index (rp_group q) n"
    and "m_index (rp_role p) n = m_index (rp_role q) n"
  using fun_cong [OF fun_cong [OF assms], of "User n"] fun_cong [OF fun_cong [OF assms], of "Group n"]
    fun_cong [OF fun_cong [OF assms], of "Role n"]
  by (auto intro!: permissions_map_eqI simp: acl_of_def)

section \<open>Properties\<close>

definition read_back :: "string \<Rightarrow> string \<Rightarrow> int \<Rightarrow> bool \<Rightarrow> resource_permissions \<Rightarrow> resource" where
  "read_back t i time synced rp = ToResource (setResourcePermissions rp (empty_entry t i time synced))"

text \<open>What is left of a map when the entries without any permission are dropped.\<close>

definition kept :: "permissions_map gomap \<Rightarrow> string \<Rightarrow> permissions_map option" where
  "kept m n =
     (case m_get m n of Some p \<Rightarrow> if p = no_permissions then None else Some p | None \<Rightarrow> None)"

lemma kept_index: "kept m n = (if m_index m n = no_permissions then None else Some (m_index m n))"
  by (simp add: kept_def m_index_def split: option.split)

text \<open>
  Permissions survive being stored as an entry and read back: id and topic come back, and so does
  every entry of a user, group or role that has some permission. An entry without any permission
  does not, and maps that were nil come back empty.
\<close>

theorem entry_round_trip:
  "r_id (read_back t i time synced rp) = i \<and> r_topic_id (read_back t i time synced rp) = t \<and>
   m_get (rp_user (r_permissions (read_back t i time synced rp))) = kept (rp_user rp) \<and>
   m_get (rp_group (r_permissions (read_back t i time synced rp))) = kept (rp_group rp) \<and>
   m_get (rp_role (r_permissions (read_back t i time synced rp))) = kept (rp_role rp) \<and>
   rp_user (r_permissions (read_back t i time synced rp)) \<noteq> None \<and>
   rp_group (r_permissions (read_back t i time synced rp)) \<noteq> None \<and>
   rp_role (r_permissions (read_back t i time synced rp)) \<noteq> None"
proof -
  let ?read = "read_back t i time synced rp"
  have "acl_of (r_permissions ?read) = acl_of rp"
    by (simp add: read_back_def acl_of_ToResource entry_acl_setResourcePermissions)
  note same = acl_of_index [OF this]
  have "m_get (rp_user (r_permissions ?read)) n = kept (rp_user rp) n"
    "m_get (rp_group (r_permissions ?read)) n = kept (rp_group rp) n"
    "m_get (rp_role (r_permissions ?read)) n = kept (rp_role rp) n" for n
    unfolding kept_index same [symmetric] unfolding read_back_def by (simp_all only: m_get_ToResource Let_def)
  then have "m_get (rp_user (r_permissions ?read)) = kept (rp_user rp)"
    "m_get (rp_group (r_permissions ?read)) = kept (rp_group rp)"
    "m_get (rp_role (r_permissions ?read)) = kept (rp_role rp)" by (intro ext; simp)+
  then show ?thesis by (simp add: read_back_def) (simp add: ToResource_def)
qed

text \<open>
  The check on a stored entry decides what the permissions it was made from grant: each known
  permission of the list must be held by the user, one of the groups or one of the roles; a rune that
  is no permission is skipped, so an empty list is always granted.
\<close>

theorem entry_check_decision:
  "checkPermissions u rs gs (setResourcePermissions rp (empty_entry t i time synced)) ps \<longleftrightarrow>
   (\<forall>p \<in> set (filter known_permission ps). acl_grants (acl_of rp) u rs gs p)"
  by (auto simp: checkPermissions_iff entry_acl_setResourcePermissions)

theorem entry_check_decision_witness:
  "checkPermissions ''u'' [] [] (setResourcePermissions nil_permissions (empty_entry ''t'' ''i'' 0 True)) [0]"
  using entry_check_decision [of "''u''" "[]" "[]" nil_permissions "''t''" "''i''" 0 True "[0]"]
  by (simp add: known_permission_def permission_defs)

end
