(* ===== verification/MongoDriver.thy ===== *)
theory MongoDriver
  imports MongoEntry
begin

text \<open>
  What \<open>pkg/database/mongo\<close> uses of the MongoDB driver and server. The driver is not part of the
  repository: a collection is a record of its operations over a state of type \<open>'m\<close>, a parameter
  of the operations in \<open>MongoDb\<close>. The filters, sort orders and updates the sources build are data
  here. \<open>collection_laws\<close> states the documented behaviour the sources rely on, and
  \<open>memory_collection\<close> is a collection that has it. The field names in filters are computed from the
  struct definitions as \<open>getBsonFieldObject\<close> does (\<open>mongo.go\<close>).
\<close>

section \<open>Filters and options\<close>

datatype bson = BStr string | BBool bool | BInt int | BArr "string list"

text \<open>
  \<open>FDoc\<close> is a \<open>bson.M\<close>, the conjunction of its entries; \<open>FAnd\<close> and \<open>FOr\<close> are \<open>$and\<close> and \<open>$or\<close>.
\<close>

datatype bson_filter =
    FEq string bson
  | FIn string "string list"
  | FLt string int
  | FDoc "bson_filter list"
  | FAnd "bson_filter list"
  | FOr "bson_filter list"

record find_options =
  fo_limit :: int
  fo_skip :: int
  fo_sort :: "string option"

text \<open>The documents a cursor yields, each with the result of decoding it, and the cursor's error.\<close>

type_synonym 'doc cursor = "(error + 'doc) list \<times> error option"

record ('doc, 'm) collection =
  coll_Find :: "bson_filter \<Rightarrow> find_options \<Rightarrow> ('m, error + 'doc cursor) state"
  coll_FindOne :: "bson_filter \<Rightarrow> ('m, error + (error + 'doc)) state"
  coll_ReplaceOne :: "bson_filter \<Rightarrow> 'doc \<Rightarrow> bool \<Rightarrow> ('m, error option) state"
  coll_UpdateMany :: "bson_filter \<Rightarrow> string \<times> bson \<Rightarrow> ('m, error option) state"
  coll_DeleteMany :: "bson_filter \<Rightarrow> ('m, error option) state"

section \<open>Field names\<close>

text \<open>
  A struct for \<open>fillObjectWithItsBsonFieldNames\<close>: the fields with their Go name, the name the tag
  parser of the driver gives them, and their kind.
\<close>

datatype go_kind = KString | KStringSlice | KStruct bool "(string \<times> string \<times> go_kind) list" | KOther

fun bson_field_names ::
  "string list \<Rightarrow> (string \<times> string \<times> go_kind) list \<Rightarrow> (string \<times> string) list" where
  "bson_field_names prefix [] = []"
| "bson_field_names prefix ((name, tag, KString) # rest) =
     (name, Join (prefix @ [tag]) ''.'') # bson_field_names prefix rest"
| "bson_field_names prefix ((name, tag, KStringSlice) # rest) =
     (name, Join (prefix @ [tag]) ''.'') # bson_field_names prefix rest"
| "bson_field_names prefix ((name, tag, KStruct inline sub) # rest) =
     bson_field_names (if inline then prefix else prefix @ [tag]) sub @
     bson_field_names prefix rest"
| "bson_field_names prefix ((name, tag, KOther) # rest) = bson_field_names prefix rest"

definition bson_name :: "(string \<times> string \<times> go_kind) list \<Rightarrow> string \<Rightarrow> string" where
  "bson_name struct name =
     (case map_of (bson_field_names [] struct) name of None \<Rightarrow> [] | Some n \<Rightarrow> n)"

definition PermissionsEntry_struct :: "(string \<times> string \<times> go_kind) list" where
  "PermissionsEntry_struct =
     [(''TopicId'', ''topic_id'', KString), (''Id'', ''id'', KString),
      (''Timestamp'', ''timestamp'', KOther), (''Synced'', ''synced'', KOther),
      (''AdminUsers'', ''admin_users'', KStringSlice), (''AdminGroups'', ''admin_groups'', KStringSlice),
      (''AdminRoles'', ''admin_roles'', KStringSlice), (''ReadUsers'', ''read_users'', KStringSlice),
      (''ReadGroups'', ''read_groups'', KStringSlice), (''ReadRoles'', ''read_roles'', KStringSlice),
      (''WriteUsers'', ''write_users'', KStringSlice), (''WriteGroups'', ''write_groups'', KStringSlice),
      (''WriteRoles'', ''write_roles'', KStringSlice),
      (''ExecuteUsers'', ''execute_users'', KStringSlice),
      (''ExecuteGroups'', ''execute_groups'', KStringSlice),
      (''ExecuteRoles'', ''execute_roles'', KStringSlice)]"

text \<open>\<open>model.Topic\<close> has no bson tags: the parser of the driver names a field by its lower-case name.\<close>

definition Topic_struct :: "(string \<times> string \<times> go_kind) list" where
  "Topic_struct =
     [(''Id'', ''id'', KString), (''PublishToKafkaTopic'', ''publishtokafkatopic'', KString),
      (''EnsureKafkaTopicInit'', ''ensurekafkatopicinit'', KOther),
      (''EnsureKafkaTopicInitPartitionNumber'', ''ensurekafkatopicinitpartitionnumber'', KOther),
      (''LastUpdateUnixTimestamp'', ''lastupdateunixtimestamp'', KOther),
      (''DefaultPermissions'', ''defaultpermissions'', KStruct False
         [(''UserPermissions'', ''userpermissions'', KOther),
          (''GroupPermissions'', ''grouppermissions'', KOther),
          (''RolePermissions'', ''rolepermissions'', KOther)])]"

definition PermissionsEntryBson :: "string \<Rightarrow> string" where
  "PermissionsEntryBson name = bson_name PermissionsEntry_struct name"

definition PermissionsEntryTimestampBson :: string where
  "PermissionsEntryTimestampBson = ''timestamp''"

definition PermissionsEntrySyncedBson :: string where
  "PermissionsEntrySyncedBson = ''synced''"

definition TopicBson :: "string \<Rightarrow> string" where
  "TopicBson name = bson_name Topic_struct name"

lemma bson_names [simp]:
  "PermissionsEntryBson ''TopicId'' = ''topic_id''" "PermissionsEntryBson ''Id'' = ''id''"
  "PermissionsEntryBson ''AdminUsers'' = ''admin_users''"
  "PermissionsEntryBson ''AdminGroups'' = ''admin_groups''"
  "PermissionsEntryBson ''AdminRoles'' = ''admin_roles''"
  "PermissionsEntryBson ''ReadUsers'' = ''read_users''"
  "PermissionsEntryBson ''ReadGroups'' = ''read_groups''"
  "PermissionsEntryBson ''ReadRoles'' = ''read_roles''"
  "PermissionsEntryBson ''WriteUsers'' = ''write_users''"
  "PermissionsEntryBson ''WriteGroups'' = ''write_groups''"
  "PermissionsEntryBson ''WriteRoles'' = ''write_roles''"
  "PermissionsEntryBson ''ExecuteUsers'' = ''execute_users''"
  "PermissionsEntryBson ''ExecuteGroups'' = ''execute_groups''"
  "PermissionsEntryBson ''ExecuteRoles'' = ''execute_roles''"
  "TopicBson ''Id'' = ''id''"
  by code_simp+

text \<open>The fields of a stored document, as the tags of the structs name them.\<close>

definition entry_field :: "string \<Rightarrow> permissions_entry \<Rightarrow> bson option" where
  "entry_field f e =
     map_of [(''topic_id'', BStr (pe_topic_id e)), (''id'', BStr (pe_id e)),
       (''timestamp'', BInt (pe_timestamp e)), (''synced'', BBool (pe_synced e)),
       (''admin_users'', BArr (pe_admin_users e)), (''admin_groups'', BArr (pe_admin_groups e)),
       (''admin_roles'', BArr (pe_admin_roles e)), (''read_users'', BArr (pe_read_users e)),
       (''read_groups'', BArr (pe_read_groups e)), (''read_roles'', BArr (pe_read_roles e)),
       (''write_users'', BArr (pe_write_users e)), (''write_groups'', BArr (pe_write_groups e)),
       (''write_roles'', BArr (pe_write_roles e)), (''execute_users'', BArr (pe_execute_users e)),
       (''execute_groups'', BArr (pe_execute_groups e)), (''execute_roles'', BArr (pe_execute_roles e))] f"

definition entry_set :: "string \<times> bson \<Rightarrow> permissions_entry \<Rightarrow> permissions_entry" where
  "entry_set u e =
     (case u of (f, BBool b) \<Rightarrow> if f = ''synced'' then e\<lparr>pe_synced := b\<rparr> else e | _ \<Rightarrow> e)"

definition topic_field :: "string \<Rightarrow> topic \<Rightarrow> bson option" where
  "topic_field f t =
     map_of [(''id'', BStr (t_id t)), (''publishtokafkatopic'', BStr (t_publish_to_kafka_topic t)),
       (''ensurekafkatopicinit'', BBool (t_ensure_kafka_topic_init t)),
       (''ensurekafkatopicinitpartitionnumber'',
          BInt (t_ensure_kafka_topic_init_partition_number t)),
       (''lastupdateunixtimestamp'', BInt (t_last_update_unix_timestamp t))] f"

section \<open>The documented behaviour of a collection\<close>

fun filter_ok :: "bson_filter \<Rightarrow> bool" where
  "filter_ok (FAnd fs) \<longleftrightarrow> fs \<noteq> [] \<and> list_all filter_ok fs"
| "filter_ok (FOr fs) \<longleftrightarrow> fs \<noteq> [] \<and> list_all filter_ok fs"
| "filter_ok (FDoc fs) \<longleftrightarrow> list_all filter_ok fs"
| "filter_ok _ \<longleftrightarrow> True"

text \<open>Equality and \<open>$in\<close> on an array field ask for an element of the array.\<close>

fun sat :: "(string \<Rightarrow> 'doc \<Rightarrow> bson option) \<Rightarrow> bson_filter \<Rightarrow> 'doc \<Rightarrow> bool" where
  "sat field (FEq f v) d \<longleftrightarrow>
     (case field f d of None \<Rightarrow> False
      | Some w \<Rightarrow> w = v \<or> (case (w, v) of (BArr xs, BStr x) \<Rightarrow> x \<in> set xs | _ \<Rightarrow> False))"
| "sat field (FIn f vs) d \<longleftrightarrow>
     (case field f d of Some (BStr x) \<Rightarrow> x \<in> set vs | Some (BArr xs) \<Rightarrow> \<exists>x \<in> set xs. x \<in> set vs
      | _ \<Rightarrow> False)"
| "sat field (FLt f n) d \<longleftrightarrow> (case field f d of Some (BInt m) \<Rightarrow> m < n | _ \<Rightarrow> False)"
| "sat field (FDoc fs) d \<longleftrightarrow> list_all (\<lambda>g. sat field g d) fs"
| "sat field (FAnd fs) d \<longleftrightarrow> list_all (\<lambda>g. sat field g d) fs"
| "sat field (FOr fs) d \<longleftrightarrow> list_ex (\<lambda>g. sat field g d) fs"

definition sort_value :: "(string \<Rightarrow> 'doc \<Rightarrow> bson option) \<Rightarrow> find_options \<Rightarrow> 'doc \<Rightarrow> string" where
  "sort_value field opt d =
     (case fo_sort opt of None \<Rightarrow> []
      | Some f \<Rightarrow> (case field f d of Some (BStr x) \<Rightarrow> x | _ \<Rightarrow> []))"

text \<open>Errors of the driver are not the sentinels of the program.\<close>

definition driver_error :: "error \<Rightarrow> bool" where
  "driver_error e \<longleftrightarrow> \<not> errors_is e ErrNotFound \<and> \<not> errors_is e PermissionCheckFailed"

definition replaced :: "('doc \<Rightarrow> bool) \<Rightarrow> 'doc \<Rightarrow> bool \<Rightarrow> 'doc multiset \<Rightarrow> 'doc multiset \<Rightarrow> bool" where
  "replaced matching doc upsert_opt old new \<longleftrightarrow>
     (\<exists>d \<in># old. matching d \<and> new = old - {#d#} + {#doc#}) \<or>
     ((\<forall>d \<in># old. \<not> matching d) \<and> new = (if upsert_opt then add_mset doc old else old))"

text \<open>
  \<open>content s\<close> lists the documents of the collection in the state \<open>s\<close>, \<open>other s\<close> what else there
  is. A successful \<open>Find\<close> returns the matching documents, sorted, skipped and limited as asked;
  \<open>$and\<close> and \<open>$or\<close> want a non-empty list. A write that fails has had its effect, part of it or none.
\<close>

definition find_law ::
  "('doc, 'm) collection \<Rightarrow> (string \<Rightarrow> 'doc \<Rightarrow> bson option) \<Rightarrow> ('m \<Rightarrow> 'doc list) \<Rightarrow> ('m \<Rightarrow> 'o) \<Rightarrow> bool" where
  "find_law C field content other \<longleftrightarrow>
     (\<forall>flt opt s r s'. run_state (coll_Find C flt opt) s = (r, s') \<longrightarrow>
        content s' = content s \<and> other s' = other s \<and>
        (\<forall>ds. r = Inr (map Inr ds, None) \<longrightarrow> filter_ok flt \<and>
           (\<exists>full. mset full = mset (filter (sat field flt) (content s)) \<and>
              sorted (map (sort_value field opt) full) \<and>
              ds = page (fo_limit opt) (fo_skip opt) full)))"

definition find_one_law ::
  "('doc, 'm) collection \<Rightarrow> (string \<Rightarrow> 'doc \<Rightarrow> bson option) \<Rightarrow> ('m \<Rightarrow> 'doc list) \<Rightarrow> ('m \<Rightarrow> 'o) \<Rightarrow> bool" where
  "find_one_law C field content other \<longleftrightarrow>
     (\<forall>flt s r s'. run_state (coll_FindOne C flt) s = (r, s') \<longrightarrow>
        content s' = content s \<and> other s' = other s \<and>
        (\<forall>e. r = Inl e \<longrightarrow> driver_error e \<and>
           (errors_is e ErrNoDocuments \<longrightarrow> (\<forall>d \<in> set (content s). \<not> sat field flt d))) \<and>
        (\<forall>e. r = Inr (Inl e) \<longrightarrow> driver_error e \<and> \<not> errors_is e ErrNoDocuments) \<and>
        (\<forall>d. r = Inr (Inr d) \<longrightarrow> d \<in> set (content s) \<and> sat field flt d))"

definition replace_one_law ::
  "('doc, 'm) collection \<Rightarrow> (string \<Rightarrow> 'doc \<Rightarrow> bson option) \<Rightarrow> ('m \<Rightarrow> 'doc list) \<Rightarrow> ('m \<Rightarrow> 'o) \<Rightarrow> bool" where
  "replace_one_law C field content other \<longleftrightarrow>
     (\<forall>flt doc up s e s'. run_state (coll_ReplaceOne C flt doc up) s = (e, s') \<longrightarrow>
        other s' = other s \<and>
        (replaced (sat field flt) doc up (mset (content s)) (mset (content s')) \<or>
         (e \<noteq> None \<and> content s' = content s)))"

definition update_many_law ::
  "('doc, 'm) collection \<Rightarrow> (string \<Rightarrow> 'doc \<Rightarrow> bson option) \<Rightarrow> (string \<times> bson \<Rightarrow> 'doc \<Rightarrow> 'doc) \<Rightarrow>
   ('m \<Rightarrow> 'doc list) \<Rightarrow> ('m \<Rightarrow> 'o) \<Rightarrow> bool" where
  "update_many_law C field setf content other \<longleftrightarrow>
     (\<forall>flt u s e s'. run_state (coll_UpdateMany C flt u) s = (e, s') \<longrightarrow>
        other s' = other s \<and>
        (\<exists>sel. content s' = map (\<lambda>d. if sel d \<and> sat field flt d then setf u d else d) (content s) \<and>
           (e = None \<longrightarrow> sel = (\<lambda>_. True))))"

definition delete_many_law ::
  "('doc, 'm) collection \<Rightarrow> (string \<Rightarrow> 'doc \<Rightarrow> bson option) \<Rightarrow> ('m \<Rightarrow> 'doc list) \<Rightarrow> ('m \<Rightarrow> 'o) \<Rightarrow> bool" where
  "delete_many_law C field content other \<longleftrightarrow>
     (\<forall>flt s e s'. run_state (coll_DeleteMany C flt) s = (e, s') \<longrightarrow>
        other s' = other s \<and>
        (\<exists>sel. content s' = filter (\<lambda>d. \<not> (sel d \<and> sat field flt d)) (content s) \<and>
           (e = None \<longrightarrow> sel = (\<lambda>_. True))))"

definition collection_laws ::
  "('doc, 'm) collection \<Rightarrow> (string \<Rightarrow> 'doc \<Rightarrow> bson option) \<Rightarrow> (string \<times> bson \<Rightarrow> 'doc \<Rightarrow> 'doc) \<Rightarrow>
   ('m \<Rightarrow> 'doc list) \<Rightarrow> ('m \<Rightarrow> 'o) \<Rightarrow> bool" where
  "collection_laws C field setf content other \<longleftrightarrow>
     find_law C field content other \<and> find_one_law C field content other \<and>
     replace_one_law C field content other \<and> update_many_law C field setf content other \<and>
     delete_many_law C field content other"

section \<open>A collection in memory\<close>

definition mem_replace :: "('doc \<Rightarrow> bool) \<Rightarrow> 'doc \<Rightarrow> bool \<Rightarrow> 'doc list \<Rightarrow> 'doc list" where
  "mem_replace matching doc up ds =
     (if list_ex matching ds then upsert matching doc ds else if up then ds @ [doc] else ds)"

text \<open>\<open>get\<close> and \<open>put\<close> reach the documents inside the state.\<close>

definition memory_collection ::
  "(string \<Rightarrow> 'doc \<Rightarrow> bson option) \<Rightarrow> (string \<times> bson \<Rightarrow> 'doc \<Rightarrow> 'doc) \<Rightarrow> ('m \<Rightarrow> 'doc list) \<Rightarrow>
   ('doc list \<Rightarrow> 'm \<Rightarrow> 'm) \<Rightarrow> ('doc, 'm) collection" where
  "memory_collection field setf get put =
     \<lparr>coll_Find = (\<lambda>flt opt. State (\<lambda>s.
        (if filter_ok flt
         then Inr (map Inr (page (fo_limit opt) (fo_skip opt)
                (sort_key (sort_value field opt) (filter (sat field flt) (get s)))), None)
         else Inl (ErrLib ''$and/$or/$nor must be a nonempty array''), s))),
      coll_FindOne = (\<lambda>flt. State (\<lambda>s.
        (case find (sat field flt) (get s) of None \<Rightarrow> Inl ErrNoDocuments | Some d \<Rightarrow> Inr (Inr d), s))),
      coll_ReplaceOne = (\<lambda>flt doc up. State (\<lambda>s.
        (None, put (mem_replace (sat field flt) doc up (get s)) s))),
      coll_UpdateMany = (\<lambda>flt u. State (\<lambda>s.
        (None, put (map (\<lambda>d. if sat field flt d then setf u d else d) (get s)) s))),
      coll_DeleteMany = (\<lambda>flt. State (\<lambda>s.
        (None, put (filter (\<lambda>d. \<not> sat field flt d) (get s)) s)))\<rparr>"

lemma mset_upsert_first:
  "list_ex matching ds \<Longrightarrow>
   \<exists>d \<in># mset ds. matching d \<and> mset (upsert matching doc ds) = mset ds - {#d#} + {#doc#}"
proof (induction ds)
  case (Cons x ds)
  show ?case
  proof (cases "matching x")
    case False
    with Cons obtain d where "d \<in># mset ds" "matching d"
      "mset (upsert matching doc ds) = mset ds - {#d#} + {#doc#}"
      by auto
    with False show ?thesis by (intro bexI [of _ d]) (auto simp: multiset_eq_iff)
  qed simp
qed simp

lemma replaced_mem_replace:
  "replaced matching doc up (mset ds) (mset (mem_replace matching doc up ds))"
proof (cases "list_ex matching ds")
  case True
  then show ?thesis
    using mset_upsert_first [OF True] by (auto simp: replaced_def mem_replace_def)
next
  case False
  then show ?thesis by (auto simp: replaced_def mem_replace_def list_ex_iff)
qed

lemma memory_collection_laws:
  assumes "\<And>ds s. get (put ds s) = ds" "\<And>ds s. other (put ds s) = other s"
  shows "collection_laws (memory_collection field setf get put) field setf get other"
proof -
  let ?C = "memory_collection field setf get put"
  have "find_law ?C field get other"
    unfolding find_law_def
  proof (intro allI impI conjI, goal_cases)
    case (4 flt opt s r s' ds) then show ?case
      by (intro exI [of _ "sort_key (sort_value field opt) (filter (sat field flt) (get s))"])
        (auto simp: memory_collection_def split: if_splits)
  qed (auto simp: memory_collection_def split: if_splits)
  moreover have "find_one_law ?C field get other"
    unfolding find_one_law_def
    by (auto simp: memory_collection_def driver_error_def find_None_iff split: option.splits
        dest!: find_SomeD)
  moreover have "replace_one_law ?C field get other"
    unfolding replace_one_law_def
    by (auto simp: memory_collection_def assms replaced_mem_replace)
  moreover have "update_many_law ?C field setf get other"
    unfolding update_many_law_def
    by (auto simp: memory_collection_def assms intro!: exI [of _ "\<lambda>_. True"])
  moreover have "delete_many_law ?C field get other"
    unfolding delete_many_law_def
    by (auto simp: memory_collection_def assms intro!: exI [of _ "\<lambda>_. True"])
  ultimately show ?thesis by (simp add: collection_laws_def)
qed

end
