(* ===== verification/MongoDb.thy ===== *)
theory MongoDb
  imports MongoDriver
begin

text \<open>
  The production database, \<open>pkg/database/mongo\<close>: \<open>check.go\<close>, \<open>list.go\<close>, \<open>topics.go\<close> and \<open>update.go\<close>
  over the collections of \<open>MongoDriver\<close>. The theorems show that, over any driver with the documented
  behaviour, it keeps the contract of \<open>DatabaseIfc\<close>.
\<close>

section \<open>Operations\<close>

text \<open>
  The database handle: its two collections, the clock (\<open>time.Now().UnixMilli()\<close>) and the configured
  \<open>SyncAgeLimit\<close> in milliseconds.
\<close>

record 'm mongo =
  permissionsCollection :: "(permissions_entry, 'm) collection"
  topicsCollection :: "(topic, 'm) collection"
  mongo_now :: "('m, int) state"
  SyncAgeLimit :: int

text \<open>The loop over a cursor: a decode error or the cursor's error ends it.\<close>

fun drain :: "('doc \<Rightarrow> 'a) \<Rightarrow> (error + 'doc) list \<Rightarrow> error option \<Rightarrow> error + 'a list" where
  "drain f [] err = (case err of None \<Rightarrow> Inr [] | Some e \<Rightarrow> Inl e)"
| "drain f (Inl e # docs) err = Inl e"
| "drain f (Inr d # docs) err =
     (case drain f docs err of Inl e \<Rightarrow> Inl e | Inr l \<Rightarrow> Inr (f d # l))"

definition find_all ::
  "('doc, 'm) collection \<Rightarrow> bson_filter \<Rightarrow> find_options \<Rightarrow> ('doc \<Rightarrow> 'a) \<Rightarrow>
   ('m, error + 'a list) state" where
  "find_all C flt opt f = do {
     r \<leftarrow> coll_Find C flt opt;
     case r of
       Inl err \<Rightarrow> ret (Inl err)
     | Inr cursor \<Rightarrow> ret (drain f (fst cursor) (snd cursor)) }"

definition no_find_options :: find_options where
  "no_find_options = \<lparr>fo_limit = 0, fo_skip = 0, fo_sort = None\<rparr>"

text \<open>\<open>SetLimit\<close> and \<open>SetSkip\<close> only for positive values, sorted by the given field.\<close>

definition list_find_options :: "list_options \<Rightarrow> string \<Rightarrow> find_options" where
  "list_find_options opt field =
     \<lparr>fo_limit = (if lo_limit opt > 0 then lo_limit opt else 0),
      fo_skip = (if lo_offset opt > 0 then lo_offset opt else 0),
      fo_sort = Some field\<rparr>"

definition key_filter :: "string \<Rightarrow> string \<Rightarrow> bson_filter" where
  "key_filter topicId rid =
     FDoc [FEq (PermissionsEntryBson ''TopicId'') (BStr topicId),
           FEq (PermissionsEntryBson ''Id'') (BStr rid)]"

definition topic_filter :: "string \<Rightarrow> list_options \<Rightarrow> bson_filter" where
  "topic_filter topicId opt =
     FDoc (FEq (PermissionsEntryBson ''TopicId'') (BStr topicId) #
       (case lo_ids opt of None \<Rightarrow> [] | Some ids \<Rightarrow> [FIn (PermissionsEntryBson ''Id'') ids]))"

definition Mongo_CheckMultipleResourcePermissions ::
  "'m mongo \<Rightarrow> string \<Rightarrow> string list \<Rightarrow> string \<Rightarrow> string list \<Rightarrow> string list \<Rightarrow> permission list \<Rightarrow>
   ('m, error + (string, bool) alist) state" where
  "Mongo_CheckMultipleResourcePermissions D topicId ids userId roleIds groupIds permissions = do {
     r \<leftarrow> find_all (permissionsCollection D)
       (FDoc [FEq (PermissionsEntryBson ''TopicId'') (BStr topicId),
              FIn (PermissionsEntryBson ''Id'') ids])
       no_find_options
       (\<lambda>element. (pe_id element, checkPermissions userId roleIds groupIds element permissions));
     case r of
       Inl err \<Rightarrow> ret (Inl err)
     | Inr l \<Rightarrow> ret (Inr (fold (\<lambda>(k, v) result. DAList.update k v result) l DAList.empty)) }"

definition Mongo_CheckResourcePermissions ::
  "'m mongo \<Rightarrow> string \<Rightarrow> string \<Rightarrow> string \<Rightarrow> string list \<Rightarrow> string list \<Rightarrow> permission list \<Rightarrow>
   ('m, error + bool) state" where
  "Mongo_CheckResourcePermissions D topicId rid userId roleIds groupIds permissions = do {
     r \<leftarrow> Mongo_CheckMultipleResourcePermissions D topicId [rid] userId roleIds groupIds permissions;
     case r of
       Inl err \<Rightarrow> ret (Inl err)
     | Inr m \<Rightarrow> ret (Inr (case DAList.lookup m rid of None \<Rightarrow> False | Some b \<Rightarrow> b)) }"

definition Mongo_GetResource ::
  "'m mongo \<Rightarrow> string \<Rightarrow> string \<Rightarrow> get_options \<Rightarrow> ('m, error + resource) state" where
  "Mongo_GetResource D topicId rid options = do {
     result \<leftarrow> coll_FindOne (permissionsCollection D) (key_filter topicId rid);
     case result of
       Inl err \<Rightarrow> ret (Inl (if errors_is err ErrNoDocuments then ErrNotFound else err))
     | Inr (Inl err) \<Rightarrow> ret (Inl (if errors_is err ErrNoDocuments then ErrNotFound else err))
     | Inr (Inr entry) \<Rightarrow>
         if go_check_permission options \<and>
            \<not> checkPermissions (go_user_id options) (go_role_ids options) (go_group_ids options) entry
               (go_permissions options)
         then ret (Inl PermissionCheckFailed)
         else ret (Inr (ToResource entry)) }"

definition Mongo_AdminListResourceIds ::
  "'m mongo \<Rightarrow> string \<Rightarrow> list_options \<Rightarrow> ('m, error + string list) state" where
  "Mongo_AdminListResourceIds D topicId options =
     find_all (permissionsCollection D) (topic_filter topicId options)
       (list_find_options options (PermissionsEntryBson ''Id'')) pe_id"

definition Mongo_AdminListResources ::
  "'m mongo \<Rightarrow> string \<Rightarrow> list_options \<Rightarrow> ('m, error + resource list) state" where
  "Mongo_AdminListResources D topicId options =
     find_all (permissionsCollection D) (topic_filter topicId options)
       (list_find_options options (PermissionsEntryBson ''Id'')) ToResource"

text \<open>The condition for one permission; \<open>None\<close> is the error of the default branch.\<close>

definition permission_filter ::
  "string \<Rightarrow> string list \<Rightarrow> string list \<Rightarrow> permission \<Rightarrow> bson_filter option" where
  "permission_filter userId roleIds groupIds r =
     (if r = of_char CHR ''r'' then
        Some (FOr [FEq (PermissionsEntryBson ''ReadUsers'') (BStr userId),
                   FIn (PermissionsEntryBson ''ReadGroups'') groupIds,
                   FIn (PermissionsEntryBson ''ReadRoles'') roleIds])
      else if r = of_char CHR ''w'' then
        Some (FOr [FEq (PermissionsEntryBson ''WriteUsers'') (BStr userId),
                   FIn (PermissionsEntryBson ''WriteGroups'') groupIds,
                   FIn (PermissionsEntryBson ''WriteRoles'') roleIds])
      else if r = of_char CHR ''x'' then
        Some (FOr [FEq (PermissionsEntryBson ''ExecuteUsers'') (BStr userId),
                   FIn (PermissionsEntryBson ''ExecuteGroups'') groupIds,
                   FIn (PermissionsEntryBson ''ExecuteRoles'') roleIds])
      else if r = of_char CHR ''a'' then
        Some (FOr [FEq (PermissionsEntryBson ''AdminUsers'') (BStr userId),
                   FIn (PermissionsEntryBson ''AdminGroups'') groupIds,
                   FIn (PermissionsEntryBson ''AdminRoles'') roleIds])
      else None)"

fun permissions_filter ::
  "string \<Rightarrow> string list \<Rightarrow> string list \<Rightarrow> permission list \<Rightarrow> bson_filter list option" where
  "permissions_filter userId roleIds groupIds [] = Some []"
| "permissions_filter userId roleIds groupIds (r # rs) =
     (case permission_filter userId roleIds groupIds r of
        None \<Rightarrow> None
      | Some f \<Rightarrow> map_option (Cons f) (permissions_filter userId roleIds groupIds rs))"

definition Mongo_ListResourcesByPermissions ::
  "'m mongo \<Rightarrow> string \<Rightarrow> string \<Rightarrow> string list \<Rightarrow> string list \<Rightarrow> list_options \<Rightarrow> permission list \<Rightarrow>
   ('m, error + resource list) state" where
  "Mongo_ListResourcesByPermissions D topicId userId roleIds groupIds options permissions =
     (case permissions_filter userId roleIds groupIds permissions of
        None \<Rightarrow> ret (Inl (Err ''invalid permissions parameter''))
      | Some fs \<Rightarrow>
          find_all (permissionsCollection D)
            (FDoc [FEq (PermissionsEntryBson ''TopicId'') (BStr topicId), FAnd fs])
            (list_find_options options (PermissionsEntryBson ''Id'')) ToResource)"

definition Mongo_ListResourceIdsByPermissions ::
  "'m mongo \<Rightarrow> string \<Rightarrow> string \<Rightarrow> string list \<Rightarrow> string list \<Rightarrow> list_options \<Rightarrow> permission list \<Rightarrow>
   ('m, error + string list) state" where
  "Mongo_ListResourceIdsByPermissions D topicId userId roleIds groupIds options permissions = do {
     temp \<leftarrow> Mongo_ListResourcesByPermissions D topicId userId roleIds groupIds options permissions;
     case temp of Inl err \<Rightarrow> ret (Inl err) | Inr l \<Rightarrow> ret (Inr (map r_id l)) }"

definition Mongo_SetPermissions ::
  "'m mongo \<Rightarrow> string \<Rightarrow> string \<Rightarrow> resource_permissions \<Rightarrow> int \<Rightarrow> bool \<Rightarrow> ('m, error option) state" where
  "Mongo_SetPermissions D topic rid permissions t synced =
     (let element = setResourcePermissions permissions (empty_entry topic rid t synced)
      in coll_ReplaceOne (permissionsCollection D)
           (key_filter (pe_topic_id element) (pe_id element)) element True)"

definition Mongo_SetResource ::
  "'m mongo \<Rightarrow> resource \<Rightarrow> int \<Rightarrow> bool \<Rightarrow> ('m, error option) state" where
  "Mongo_SetResource D r t synced =
     Mongo_SetPermissions D (r_topic_id r) (r_id r) (r_permissions r) t synced"

definition Mongo_DeleteResource :: "'m mongo \<Rightarrow> string \<Rightarrow> string \<Rightarrow> ('m, error option) state" where
  "Mongo_DeleteResource D topicId rid =
     coll_DeleteMany (permissionsCollection D) (key_filter topicId rid)"

definition Mongo_MarkResourceAsSynced ::
  "'m mongo \<Rightarrow> string \<Rightarrow> string \<Rightarrow> ('m, error option) state" where
  "Mongo_MarkResourceAsSynced D topicId rid =
     coll_UpdateMany (permissionsCollection D) (key_filter topicId rid)
       (PermissionsEntrySyncedBson, BBool True)"

definition Mongo_ListUnsyncedResources :: "'m mongo \<Rightarrow> ('m, error + resource list) state" where
  "Mongo_ListUnsyncedResources D = do {
     now \<leftarrow> mongo_now D;
     find_all (permissionsCollection D)
       (FDoc [FEq PermissionsEntrySyncedBson (BBool False),
              FLt PermissionsEntryTimestampBson (now - SyncAgeLimit D)])
       \<lparr>fo_limit = 0, fo_skip = 0, fo_sort = Some (PermissionsEntryBson ''Id'')\<rparr> ToResource }"

definition Mongo_SetTopic :: "'m mongo \<Rightarrow> topic \<Rightarrow> ('m, error option) state" where
  "Mongo_SetTopic D topic = do {
     now \<leftarrow> mongo_now D;
     let topic = topic\<lparr>t_last_update_unix_timestamp := now\<rparr>;
     coll_ReplaceOne (topicsCollection D) (FDoc [FEq (TopicBson ''Id'') (BStr (t_id topic))]) topic True }"

definition Mongo_GetTopic :: "'m mongo \<Rightarrow> string \<Rightarrow> ('m, error + topic option) state" where
  "Mongo_GetTopic D tid = do {
     temp \<leftarrow> coll_FindOne (topicsCollection D) (FDoc [FEq (TopicBson ''Id'') (BStr tid)]);
     case temp of
       Inl err \<Rightarrow> ret (if errors_is err ErrNoDocuments then Inr None else Inl err)
     | Inr (Inl err) \<Rightarrow> ret (if errors_is err ErrNoDocuments then Inr None else Inl err)
     | Inr (Inr result) \<Rightarrow> ret (Inr (Some result)) }"

definition Mongo_ListTopics :: "'m mongo \<Rightarrow> list_options \<Rightarrow> ('m, error + topic list) state" where
  "Mongo_ListTopics D options =
     find_all (topicsCollection D)
       (FDoc (case lo_ids options of None \<Rightarrow> [] | Some ids \<Rightarrow> [FIn (TopicBson ''Id'') ids]))
       (list_find_options options (TopicBson ''Id'')) (\<lambda>t. t)"

definition Mongo_DeleteTopic :: "'m mongo \<Rightarrow> string \<Rightarrow> ('m, error option) state" where
  "Mongo_DeleteTopic D tid = do {
     err \<leftarrow> coll_DeleteMany (topicsCollection D) (FDoc [FEq (TopicBson ''Id'') (BStr tid)]);
     case err of
       Some e \<Rightarrow> ret (Some e)
     | None \<Rightarrow> coll_DeleteMany (permissionsCollection D)
                 (FDoc [FEq (PermissionsEntryBson ''TopicId'') (BStr tid)]) }"

definition mongo_db :: "'m mongo \<Rightarrow> 'm database" where
  "mongo_db D =
     \<lparr>MarkResourceAsSynced = Mongo_MarkResourceAsSynced D,
      SetResource = Mongo_SetResource D,
      GetResource = Mongo_GetResource D,
      DeleteResource = Mongo_DeleteResource D,
      ListUnsyncedResources = Mongo_ListUnsyncedResources D,
      AdminListResourceIds = Mongo_AdminListResourceIds D,
      AdminListResources = Mongo_AdminListResources D,
      ListResourcesByPermissions = Mongo_ListResourcesByPermissions D,
      ListResourceIdsByPermissions = Mongo_ListResourceIdsByPermissions D,
      CheckMultipleResourcePermissions = Mongo_CheckMultipleResourcePermissions D,
      CheckResourcePermissions = Mongo_CheckResourcePermissions D,
      SetTopic = Mongo_SetTopic D,
      GetTopic = Mongo_GetTopic D,
      ListTopics = Mongo_ListTopics D,
      DeleteTopic = Mongo_DeleteTopic D\<rparr>"

section \<open>Assumptions on the driver, abstraction, invariant\<close>

definition driver_laws ::
  "'m mongo \<Rightarrow> ('m \<Rightarrow> permissions_entry list) \<Rightarrow> ('m \<Rightarrow> topic list) \<Rightarrow> bool" where
  "driver_laws D perms topics \<longleftrightarrow>
     collection_laws (permissionsCollection D) entry_field entry_set perms topics \<and>
     collection_laws (topicsCollection D) topic_field (\<lambda>_ t. t) topics perms \<and>
     preserves (\<lambda>_. True) (\<lambda>s. (perms s, topics s)) (mongo_now D)"

definition pe_key :: "permissions_entry \<Rightarrow> string \<times> string" where
  "pe_key e = (pe_topic_id e, pe_id e)"

definition mongo_store ::
  "('m \<Rightarrow> permissions_entry list) \<Rightarrow> ('m \<Rightarrow> topic list) \<Rightarrow> 'm \<Rightarrow> store" where
  "mongo_store perms topics s =
     \<lparr>st_topics = (\<lambda>i. map_option topic_core (find (\<lambda>t. t_id t = i) (topics s))),
      st_resources = (\<lambda>t i. map_option entry_acl (find (\<lambda>e. pe_key e = (t, i)) (perms s)))\<rparr>"

text \<open>What the two unique indexes ask for.\<close>

definition mongo_invar ::
  "('m \<Rightarrow> permissions_entry list) \<Rightarrow> ('m \<Rightarrow> topic list) \<Rightarrow> 'm \<Rightarrow> bool" where
  "mongo_invar perms topics s \<longleftrightarrow> distinct (map pe_key (perms s)) \<and> distinct (map t_id (topics s))"

end
