(* ===== verification/MongoContract.thy ===== *)
theory MongoContract
  imports MongoDb
begin

text \<open>
  The production database keeps the contract of \<open>DatabaseIfc\<close> over every driver with the documented
  behaviour (\<open>mongo_database\<close>): queries find the entries whose access control list grants what is
  asked, and writes change the one document they are about. The last section runs it on the
  collections in memory.
\<close>

section \<open>The laws of a collection, one by one\<close>

lemma coll_Find_law:
  assumes "find_law C field content other"
    and "run_state (coll_Find C flt opt) s = (r, s')"
  shows "content s' = content s" and "other s' = other s"
    and "r = Inr (map Inr ds, None) \<Longrightarrow> filter_ok flt \<and>
      (\<exists>full. mset full = mset (filter (sat field flt) (content s)) \<and>
         sorted (map (sort_value field opt) full) \<and> ds = page (fo_limit opt) (fo_skip opt) full)"
  using assms unfolding find_law_def by blast+

lemma coll_FindOne_law:
  assumes "find_one_law C field content other"
    and "run_state (coll_FindOne C flt) s = (r, s')"
  shows "content s' = content s" and "other s' = other s"
    and "r = Inl e \<Longrightarrow> driver_error e"
    and "r = Inl e \<Longrightarrow> errors_is e ErrNoDocuments \<Longrightarrow> d \<in> set (content s) \<Longrightarrow> \<not> sat field flt d"
    and "r = Inr (Inl e) \<Longrightarrow> driver_error e \<and> \<not> errors_is e ErrNoDocuments"
    and "r = Inr (Inr d) \<Longrightarrow> d \<in> set (content s) \<and> sat field flt d"
  using assms unfolding find_one_law_def by blast+

lemma coll_ReplaceOne_law:
  assumes "replace_one_law C field content other"
    and "run_state (coll_ReplaceOne C flt doc up) s = (e, s')"
  shows "other s' = other s"
    and "replaced (sat field flt) doc up (mset (content s)) (mset (content s')) \<or>
     (e \<noteq> None \<and> content s' = content s)"
  using assms unfolding replace_one_law_def by blast+

lemma coll_UpdateMany_law:
  assumes "update_many_law C field setf content other"
    and "run_state (coll_UpdateMany C flt u) s = (e, s')"
  shows "other s' = other s"
    and "\<exists>sel. content s' = map (\<lambda>d. if sel d \<and> sat field flt d then setf u d else d) (content s) \<and>
       (e = None \<longrightarrow> sel = (\<lambda>_. True))"
  using assms unfolding update_many_law_def by blast+

lemma coll_DeleteMany_law:
  assumes "delete_many_law C field content other"
    and "run_state (coll_DeleteMany C flt) s = (e, s')"
  shows "other s' = other s"
    and "\<exists>sel. content s' = filter (\<lambda>d. \<not> (sel d \<and> sat field flt d)) (content s) \<and>
       (e = None \<longrightarrow> sel = (\<lambda>_. True))"
  using assms unfolding delete_many_law_def by blast+

section \<open>Cursors\<close>

lemma drain_Inr:
  "drain f docs err = Inr l \<longleftrightarrow> (\<exists>ds. docs = map Inr ds \<and> err = None \<and> l = map f ds)"
proof (induction docs arbitrary: l)
  case (Cons d docs)
  show ?case
  proof (cases d)
    case (Inr b)
    show ?thesis
    proof (cases "drain f docs err")
      case (Inr k)
      with Cons [of k] show ?thesis by (auto simp: \<open>d = Inr b\<close> Cons_eq_map_conv)
    next
      case (Inl e)
      with Cons show ?thesis by (fastforce simp: \<open>d = Inr b\<close> Cons_eq_map_conv)
    qed
  qed (auto simp: Cons_eq_map_conv)
qed (auto split: option.split)

lemma find_all_state:
  assumes "find_law C field content other"
    and "run_state (find_all C flt opt f) s = (r, s')"
  shows "content s' = content s \<and> other s' = other s"
  using assms(2) coll_Find_law(1,2) [OF assms(1)]
  by (auto simp: find_all_def split: prod.splits sum.splits)

lemma find_all_result:
  assumes laws: "find_law C field content other"
    and run: "run_state (find_all C flt opt f) s = (Inr l, s')"
  shows "filter_ok flt \<and> (\<exists>full. mset full = mset (filter (sat field flt) (content s)) \<and>
    sorted (map (sort_value field opt) full) \<and> l = page (fo_limit opt) (fo_skip opt) (map f full))"
proof -
  from run obtain docs err s1 where find: "run_state (coll_Find C flt opt) s = (Inr (docs, err), s1)"
    and "drain f docs err = Inr l"
    by (auto simp: find_all_def split: prod.splits sum.splits)
  then obtain ds where ds: "docs = map Inr ds" "err = None" "l = map f ds"
    by (auto simp: drain_Inr)
  from coll_Find_law(3) [OF laws find] show ?thesis unfolding ds by (metis map_page)
qed

section \<open>Queries\<close>

lemma sat_key_filter [simp]: "sat entry_field (key_filter t i) e \<longleftrightarrow> pe_key e = (t, i)"
  by (simp add: key_filter_def entry_field_def pe_key_def)

lemma sat_key_filter_eq: "sat entry_field (key_filter t i) = (\<lambda>e. pe_key e = (t, i))"
  by (intro ext) simp

lemma sat_topic_filter [simp]:
  "sat entry_field (topic_filter t opt) e \<longleftrightarrow> pe_topic_id e = t \<and> in_ids opt (pe_id e)"
  by (simp add: topic_filter_def entry_field_def in_ids_def split: option.split)

lemma sat_topic_id [simp]:
  "sat topic_field (FDoc [FEq (TopicBson ''Id'') (BStr i)]) t \<longleftrightarrow> t_id t = i"
  by (simp add: topic_field_def)

lemma sat_permission_filter:
  "permission_filter u rs gs p = Some f \<Longrightarrow>
   sat entry_field f e \<longleftrightarrow> acl_grants (entry_acl e) u rs gs p"
  by (auto simp: permission_filter_def entry_field_def acl_grants_def permission_defs
      split: if_splits)

lemma permission_filter_known: "known_permission p \<Longrightarrow> \<exists>f. permission_filter u rs gs p = Some f"
  by (auto simp: permission_filter_def known_permission_def permission_defs)

lemma permissions_filter_known:
  "all_known ps \<Longrightarrow> \<exists>fs. permissions_filter u rs gs ps = Some fs"
proof (induction ps)
  case (Cons p ps)
  then show ?case using permission_filter_known [of p u rs gs] by auto
qed simp

lemma sat_permissions_filter:
  "permissions_filter u rs gs ps = Some fs \<Longrightarrow>
   list_all (\<lambda>g. sat entry_field g e) fs \<longleftrightarrow> acl_grants_all (entry_acl e) u rs gs ps"
  by (induction ps arbitrary: fs)
    (auto simp: acl_grants_all_def sat_permission_filter split: option.splits)

lemma sort_value_id [simp]:
  "sort_value entry_field (list_find_options opt ''id'') = pe_id"
  by (intro ext) (simp add: sort_value_def list_find_options_def entry_field_def)

lemma list_find_options_page [simp]:
  "page (fo_limit (list_find_options opt f)) (fo_skip (list_find_options opt f)) xs =
   page (lo_limit opt) (lo_offset opt) xs"
  by (simp add: list_find_options_def)

lemma mongo_find_key:
  "mongo_invar P T s \<Longrightarrow> find (\<lambda>e. pe_key e = k) (P s) = Some e \<longleftrightarrow> e \<in> set (P s) \<and> pe_key e = k"
  by (simp add: mongo_invar_def find_distinct_key)

lemma mongo_store_Some:
  "mongo_invar P T s \<Longrightarrow> st_resources (mongo_store P T s) t i = Some a \<longleftrightarrow>
   (\<exists>e \<in> set (P s). pe_key e = (t, i) \<and> a = entry_acl e)"
  using mongo_find_key [of P T s "(t, i)"] by (auto simp: mongo_store_def)

lemma mongo_store_None:
  "st_resources (mongo_store P T s) t i = None \<longleftrightarrow> (\<forall>e \<in> set (P s). pe_key e \<noteq> (t, i))"
  by (auto simp: mongo_store_def find_None_iff)

lemma mongo_store_topic:
  "mongo_invar P T s \<Longrightarrow> t \<in> set (T s) \<Longrightarrow>
   st_topics (mongo_store P T s) (t_id t) = Some (topic_core t)"
  using find_distinct_key [of t_id "T s" "t_id t" t] by (simp add: mongo_store_def mongo_invar_def)

lemma mongo_lists_resources:
  assumes inv: "mongo_invar P T s"
    and full: "mset full = mset (filter (\<lambda>e. pe_topic_id e = t \<and> Q e) (P s))"
    and sorted: "sorted (map pe_id full)"
    and Q: "\<And>e. Q e = R (pe_id e) (entry_acl e)"
  shows "lists_resources (mongo_store P T s) t R (map ToResource full)"
proof -
  have set: "set full = {e \<in> set (P s). pe_topic_id e = t \<and> Q e}"
    using mset_eq_setD [OF full] by simp
  have "distinct (map pe_id (filter (\<lambda>e. pe_topic_id e = t \<and> Q e) (P s)))"
    using inv by (intro distinct_second_key) (simp add: mongo_invar_def pe_key_def [abs_def])
  then have "distinct (map pe_id full)"
    using full by (metis mset_eq_imp_distinct_iff mset_map)
  moreover have "(\<lambda>r. (r_id r, acl_of (r_permissions r))) ` set (map ToResource full) =
      {(i, a). st_resources (mongo_store P T s) t i = Some a \<and> R i a}"
    by (auto simp: set mongo_store_Some [OF inv] pe_key_def Q acl_of_ToResource image_iff)
  ultimately show ?thesis
    using sorted set by (auto simp: lists_resources_def o_def)
qed

section \<open>Reads\<close>

lemma perms_laws:
  "driver_laws D P T \<Longrightarrow> find_law (permissionsCollection D) entry_field P T"
  "driver_laws D P T \<Longrightarrow> find_one_law (permissionsCollection D) entry_field P T"
  "driver_laws D P T \<Longrightarrow> replace_one_law (permissionsCollection D) entry_field P T"
  "driver_laws D P T \<Longrightarrow> update_many_law (permissionsCollection D) entry_field entry_set P T"
  "driver_laws D P T \<Longrightarrow> delete_many_law (permissionsCollection D) entry_field P T"
  by (simp_all add: driver_laws_def collection_laws_def)

lemma topics_laws:
  "driver_laws D P T \<Longrightarrow> find_law (topicsCollection D) topic_field T P"
  "driver_laws D P T \<Longrightarrow> find_one_law (topicsCollection D) topic_field T P"
  "driver_laws D P T \<Longrightarrow> replace_one_law (topicsCollection D) topic_field T P"
  "driver_laws D P T \<Longrightarrow> delete_many_law (topicsCollection D) topic_field T P"
  by (simp_all add: driver_laws_def collection_laws_def)

lemma mongo_frame:
  "P s' = P s \<Longrightarrow> T s' = T s \<Longrightarrow> mongo_invar P T s \<Longrightarrow>
   mongo_invar P T s' \<and> mongo_store P T s' = mongo_store P T s"
  by (simp add: mongo_invar_def mongo_store_def)

lemma preserves_find_perms:
  assumes "driver_laws D P T"
  shows "preserves (mongo_invar P T) (mongo_store P T) (find_all (permissionsCollection D) flt opt f)"
proof (intro preservesI mongo_frame)
  fix s r s' assume "run_state (find_all (permissionsCollection D) flt opt f) s = (r, s')"
  from find_all_state [OF perms_laws(1) [OF assms] this] show "P s' = P s" "T s' = T s" by simp_all
qed

lemma preserves_find_one_perms:
  assumes "driver_laws D P T"
  shows "preserves (mongo_invar P T) (mongo_store P T) (coll_FindOne (permissionsCollection D) flt)"
proof (intro preservesI mongo_frame)
  fix s r s' assume "run_state (coll_FindOne (permissionsCollection D) flt) s = (r, s')"
  from coll_FindOne_law(1,2) [OF perms_laws(2) [OF assms] this] show "P s' = P s" "T s' = T s"
    by simp_all
qed

lemma preserves_find_topics:
  assumes "driver_laws D P T"
  shows "preserves (mongo_invar P T) (mongo_store P T) (find_all (topicsCollection D) flt opt f)"
proof (intro preservesI mongo_frame)
  fix s r s' assume "run_state (find_all (topicsCollection D) flt opt f) s = (r, s')"
  from find_all_state [OF topics_laws(1) [OF assms] this] show "P s' = P s" "T s' = T s" by simp_all
qed

lemma preserves_find_one_topics:
  assumes "driver_laws D P T"
  shows "preserves (mongo_invar P T) (mongo_store P T) (coll_FindOne (topicsCollection D) flt)"
proof (intro preservesI mongo_frame)
  fix s r s' assume "run_state (coll_FindOne (topicsCollection D) flt) s = (r, s')"
  from coll_FindOne_law(1,2) [OF topics_laws(2) [OF assms] this] show "P s' = P s" "T s' = T s"
    by simp_all
qed

lemma preserves_now:
  "driver_laws D P T \<Longrightarrow> preserves (mongo_invar P T) (mongo_store P T) (mongo_now D)"
  by (intro preservesI mongo_frame) (auto simp: driver_laws_def dest: preservesD)

lemmas mongo_preserves = preserves_find_perms preserves_find_topics preserves_find_one_perms
  preserves_find_one_topics preserves_now

lemma find_one_perms:
  assumes laws: "driver_laws D P T" and inv: "mongo_invar P T s"
    and run: "run_state (coll_FindOne (permissionsCollection D) (key_filter t i)) s = (r, s')"
  shows "r = Inl e \<Longrightarrow> errors_is e ErrNoDocuments \<Longrightarrow> st_resources (mongo_store P T s) t i = None"
    and "r = Inl e \<Longrightarrow> driver_error e"
    and "r = Inr (Inl e) \<Longrightarrow> driver_error e \<and> \<not> errors_is e ErrNoDocuments"
    and "r = Inr (Inr d) \<Longrightarrow>
      pe_key d = (t, i) \<and> st_resources (mongo_store P T s) t i = Some (entry_acl d)"
  using coll_FindOne_law(3-6) [OF perms_laws(2) [OF laws] run]
  by (auto simp: mongo_store_None mongo_store_Some [OF inv])

lemma mongo_GetResource_cases:
  assumes laws: "driver_laws D P T" and inv: "mongo_invar P T s"
    and run: "run_state (Mongo_GetResource D t i opts) s = (r, s')"
  shows "(\<exists>d. pe_key d = (t, i) \<and> st_resources (mongo_store P T s) t i = Some (entry_acl d) \<and>
       r = (if go_check_permission opts \<and>
              \<not> checkPermissions (go_user_id opts) (go_role_ids opts) (go_group_ids opts) d
                 (go_permissions opts)
            then Inl PermissionCheckFailed else Inr (ToResource d))) \<or>
     (r = Inl ErrNotFound \<and> st_resources (mongo_store P T s) t i = None) \<or>
     (\<exists>e. r = Inl e \<and> driver_error e)"
proof -
  obtain q s1 where find: "run_state (coll_FindOne (permissionsCollection D) (key_filter t i)) s = (q, s1)"
    by fastforce
  note one = find_one_perms [OF laws inv find]
  show ?thesis
    using run find one(1,2) one(3) one(4)
    by (cases q rule: sum.exhaust [case_names Inl Inr]; auto simp: Mongo_GetResource_def
        split: if_splits sum.splits)
qed

section \<open>Writes\<close>

lemma replaced_key:
  assumes dist: "distinct (map key xs)"
    and repl: "replaced (\<lambda>d. key d = key doc) doc True (mset xs) (mset ys)"
  shows "distinct (map key ys)"
    and "find (\<lambda>x. key x = k) ys = (if k = key doc then Some doc else find (\<lambda>x. key x = k) xs)"
proof -
  have "distinct (map key ys) \<and> set ys = {x \<in> set xs. key x \<noteq> key doc} \<union> {doc}"
  proof (cases "\<exists>d \<in># mset xs. key d = key doc")
    case True
    then obtain d where d: "d \<in># mset xs" "key d = key doc"
      and ys: "mset ys = mset xs - {#d#} + {#doc#}"
      using repl by (auto simp: replaced_def)
    have "key doc \<in># image_mset key (mset xs)" using d by (metis image_eqI multiset.set_map)
    then have "mset (map key ys) = mset (map key xs)"
      using d by (simp add: ys image_mset_Diff insert_DiffM)
    then have dist_ys: "distinct (map key ys)" using dist by (metis mset_eq_imp_distinct_iff)
    have "set_mset (mset xs - {#d#}) = set xs - {d}"
      using dist d(1) by (metis distinct_map mset_remove1 set_mset_mset set_remove1_eq)
    moreover have "set xs - {d} = {x \<in> set xs. key x \<noteq> key doc}"
      using dist d by (auto simp: distinct_map inj_on_def)
    ultimately show ?thesis
      using dist_ys by (metis Un_insert_right add_mset_add_single set_mset_add_mset_insert set_mset_mset
          sup_bot.right_neutral ys)
  next
    case False
    then have ys: "mset ys = mset (doc # xs)" using repl by (auto simp: replaced_def)
    then have "mset (map key ys) = mset (map key (doc # xs))" by simp
    then have "distinct (map key ys) = distinct (map key (doc # xs))"
      by (rule mset_eq_imp_distinct_iff)
    with False dist mset_eq_setD [OF ys] show ?thesis by auto
  qed
  then have dist_ys: "distinct (map key ys)"
    and set_ys: "set ys = {x \<in> set xs. key x \<noteq> key doc} \<union> {doc}" by simp_all
  then show "distinct (map key ys)" by simp
  show "find (\<lambda>x. key x = k) ys = (if k = key doc then Some doc else find (\<lambda>x. key x = k) xs)"
  proof (rule option_eqI)
    fix x
    have "find (\<lambda>x. key x = k) ys = Some x \<longleftrightarrow> x \<in> set ys \<and> key x = k"
      by (rule find_distinct_key [OF dist_ys])
    also have "\<dots> \<longleftrightarrow> (if k = key doc then x = doc else x \<in> set xs \<and> key x = k)"
      unfolding set_ys by auto
    also have "\<dots> \<longleftrightarrow> (if k = key doc then Some doc else find (\<lambda>x. key x = k) xs) = Some x"
      by (simp only: find_distinct_key [OF dist] split: if_split) auto
    finally show "find (\<lambda>x. key x = k) ys = Some x \<longleftrightarrow>
        (if k = key doc then Some doc else find (\<lambda>x. key x = k) xs) = Some x" .
  qed
qed

text \<open>The entry \<open>SetPermissions\<close> writes.\<close>

lemma mongo_SetPermissions_law:
  assumes laws: "driver_laws D P T" and inv: "mongo_invar P T s"
    and run: "run_state (Mongo_SetPermissions D t i p time synced) s = (e, s')"
  shows "mongo_invar P T s'"
    and "mongo_store P T s' = put_resource \<lparr>r_id = i, r_topic_id = t, r_permissions = p\<rparr> (mongo_store P T s) \<or>
      (e \<noteq> None \<and> mongo_store P T s' = mongo_store P T s)"
proof -
  let ?doc = "setResourcePermissions p (empty_entry t i time synced)"
  have key: "pe_key ?doc = (t, i)" by (simp add: pe_key_def empty_entry_def)
  have "run_state (coll_ReplaceOne (permissionsCollection D) (key_filter t i) ?doc True) s = (e, s')"
    using run by (simp add: Mongo_SetPermissions_def Let_def empty_entry_def)
  note written = coll_ReplaceOne_law [OF perms_laws(3) [OF laws] this]
  consider "replaced (\<lambda>d. pe_key d = pe_key ?doc) ?doc True (mset (P s)) (mset (P s'))"
    | "e \<noteq> None" "P s' = P s"
    using written(2) by (auto simp: key sat_key_filter_eq)
  then have "mongo_invar P T s' \<and>
      (mongo_store P T s' = put_resource \<lparr>r_id = i, r_topic_id = t, r_permissions = p\<rparr> (mongo_store P T s) \<or>
       (e \<noteq> None \<and> mongo_store P T s' = mongo_store P T s))"
  proof cases
    case 1
    have dist: "distinct (map pe_key (P s))" using inv by (simp add: mongo_invar_def)
    have "st_resources (mongo_store P T s') u j =
        (if (u, j) = (t, i) then Some (entry_acl ?doc) else st_resources (mongo_store P T s) u j)" for u j
      using replaced_key(2) [OF dist 1, of "(u, j)"] by (simp add: mongo_store_def key)
    moreover have "entry_acl ?doc = acl_of p" by (rule entry_acl_setResourcePermissions)
    ultimately have "mongo_store P T s' =
        put_resource \<lparr>r_id = i, r_topic_id = t, r_permissions = p\<rparr> (mongo_store P T s)"
      by (intro store_eqI) (simp_all add: mongo_store_def written(1))
    moreover have "mongo_invar P T s'"
      using inv replaced_key(1) [OF dist 1] by (simp add: mongo_invar_def written(1))
    ultimately show ?thesis by simp
  next
    case 2
    then show ?thesis using mongo_frame [OF 2(2) written(1) inv] by simp
  qed
  then show "mongo_invar P T s'"
    and "mongo_store P T s' = put_resource \<lparr>r_id = i, r_topic_id = t, r_permissions = p\<rparr> (mongo_store P T s) \<or>
      (e \<noteq> None \<and> mongo_store P T s' = mongo_store P T s)" by simp_all
qed

lemma mongo_DeleteResource_law:
  assumes laws: "driver_laws D P T" and inv: "mongo_invar P T s"
    and run: "run_state (Mongo_DeleteResource D t i) s = (e, s')"
  shows "mongo_invar P T s'"
    and "mongo_store P T s' = drop_resource t i (mongo_store P T s) \<or>
      (e \<noteq> None \<and> mongo_store P T s' = mongo_store P T s)"
proof -
  have "run_state (coll_DeleteMany (permissionsCollection D) (key_filter t i)) s = (e, s')"
    using run by (simp add: Mongo_DeleteResource_def)
  note written = coll_DeleteMany_law [OF perms_laws(5) [OF laws] this]
  from written(2) [unfolded sat_key_filter] obtain sel where
    "P s' = filter (\<lambda>d. \<not> (sel d \<and> pe_key d = (t, i))) (P s) \<and> (e = None \<longrightarrow> sel = (\<lambda>_. True))" ..
  then have P: "P s' = filter (\<lambda>d. \<not> (sel d \<and> pe_key d = (t, i))) (P s)"
    and sel: "e = None \<longrightarrow> sel = (\<lambda>_. True)" by simp_all
  have dist: "distinct (map pe_key (P s))" using inv by (simp add: mongo_invar_def)
  show "mongo_invar P T s'"
    using inv by (simp add: mongo_invar_def P written(1) distinct_map_filter)
  have found: "find (\<lambda>d. pe_key d = k) (P s') = (case find (\<lambda>d. pe_key d = k) (P s) of None \<Rightarrow> None
      | Some d \<Rightarrow> if sel d \<and> pe_key d = (t, i) then None else Some d)" for k
    unfolding P by (rule find_filter_distinct [OF dist])
  show "mongo_store P T s' = drop_resource t i (mongo_store P T s) \<or>
      (e \<noteq> None \<and> mongo_store P T s' = mongo_store P T s)"
  proof (cases "\<exists>d \<in> set (P s). sel d \<and> pe_key d = (t, i)")
    case True
    then obtain d where d: "find (\<lambda>d. pe_key d = (t, i)) (P s) = Some d" "sel d" "pe_key d = (t, i)"
      using find_distinct_key [OF dist] by blast
    have "st_resources (mongo_store P T s') u j = st_resources (drop_resource t i (mongo_store P T s)) u j" for u j
      using found [of "(u, j)"] d by (auto simp: mongo_store_def dest!: find_keyD split: option.split)
    then show ?thesis by (intro disjI1 store_eqI) (simp_all add: mongo_store_def written(1))
  next
    case False
    then have same: "P s' = P s" by (simp add: P filter_id_conv)
    show ?thesis
    proof (cases e)
      case None
      with False sel have "st_resources (mongo_store P T s) t i = None"
        by (auto simp: mongo_store_None)
      then have "drop_resource t i (mongo_store P T s) = mongo_store P T s"
        by (intro store_eqI) simp_all
      then show ?thesis using mongo_frame [OF same written(1) inv] by simp
    next
      case (Some x)
      then show ?thesis using mongo_frame [OF same written(1) inv] by simp
    qed
  qed
qed

lemma entry_set_same [simp]:
  "pe_key (entry_set u e) = pe_key e" "entry_acl (entry_set u e) = entry_acl e"
proof -
  show "pe_key (entry_set u e) = pe_key e"
    by (auto simp: entry_set_def pe_key_def split: prod.split bson.split)
  have "entry_acl (entry_set u e) a p = entry_acl e a p" for a p
    by (cases a) (auto simp: entry_set_def split: prod.split bson.split)
  then show "entry_acl (entry_set u e) = entry_acl e" by (intro ext)
qed

lemma mongo_MarkResourceAsSynced_frame:
  assumes laws: "driver_laws D P T"
  shows "preserves (mongo_invar P T) (mongo_store P T) (Mongo_MarkResourceAsSynced D t i)"
proof (rule preservesI)
  fix s r s' assume inv: "mongo_invar P T s"
    and run: "run_state (Mongo_MarkResourceAsSynced D t i) s = (r, s')"
  let ?f = "\<lambda>sel d. if sel d \<and> sat entry_field (key_filter t i) d
    then entry_set (PermissionsEntrySyncedBson, BBool True) d else d"
  note written = coll_UpdateMany_law [OF perms_laws(4) [OF laws] run [unfolded Mongo_MarkResourceAsSynced_def]]
  from written(2) obtain sel where "P s' = map (?f sel) (P s) \<and> (r = None \<longrightarrow> sel = (\<lambda>_. True))" ..
  then have P: "P s' = map (?f sel) (P s)" by simp
  have same: "pe_key (?f sel d) = pe_key d" "entry_acl (?f sel d) = entry_acl d" for d
    by simp_all
  have "map pe_key (P s') = map pe_key (P s)"
    by (simp add: P same(1) o_def)
  moreover have "map_option entry_acl (find (\<lambda>d. pe_key d = k) (P s')) =
      map_option entry_acl (find (\<lambda>d. pe_key d = k) (P s))" for k
    using find_map_key [of pe_key "?f sel" k "P s", OF same(1)]
    by (simp only: P option.map_comp o_def same(2))
  ultimately show "mongo_invar P T s' \<and> mongo_store P T s' = mongo_store P T s"
    using inv by (simp add: mongo_invar_def mongo_store_def written(1))
qed

lemma deleted_key:
  assumes dist: "distinct (map key xs)" and ys: "ys = filter (\<lambda>d. \<not> (sel d \<and> Q (key d))) xs"
  shows "distinct (map key ys)"
    and "find (\<lambda>d. key d = k) ys = find (\<lambda>d. key d = k) xs \<or> (Q k \<and> find (\<lambda>d. key d = k) ys = None)"
    and "sel = (\<lambda>_. True) \<Longrightarrow>
      find (\<lambda>d. key d = k) ys = (if Q k then None else find (\<lambda>d. key d = k) xs)"
proof -
  show "distinct (map key ys)" using dist by (simp add: ys distinct_map_filter)
  have found: "find (\<lambda>d. key d = k) ys = (case find (\<lambda>d. key d = k) xs of None \<Rightarrow> None
      | Some d \<Rightarrow> if sel d \<and> Q (key d) then None else Some d)"
    unfolding ys by (rule find_filter_distinct [OF dist])
  show "find (\<lambda>d. key d = k) ys = find (\<lambda>d. key d = k) xs \<or> (Q k \<and> find (\<lambda>d. key d = k) ys = None)"
    by (auto simp: found split: option.split dest!: find_keyD)
  assume "sel = (\<lambda>_. True)"
  then show "find (\<lambda>d. key d = k) ys = (if Q k then None else find (\<lambda>d. key d = k) xs)"
    by (auto simp: found split: option.split dest!: find_keyD)
qed

lemma mongo_SetTopic_law:
  assumes laws: "driver_laws D P T" and inv: "mongo_invar P T s"
    and run: "run_state (Mongo_SetTopic D topic) s = (e, s')"
  shows "mongo_invar P T s'"
    and "mongo_store P T s' = put_topic topic (mongo_store P T s) \<or>
      (e \<noteq> None \<and> mongo_store P T s' = mongo_store P T s)"
proof -
  obtain now s1 where now: "run_state (mongo_now D) s = (now, s1)" by fastforce
  let ?doc = "topic\<lparr>t_last_update_unix_timestamp := now\<rparr>"
  have s1: "P s1 = P s" "T s1 = T s"
    using laws preservesD [OF _ now] by (auto simp: driver_laws_def)
  have inv1: "mongo_invar P T s1" "mongo_store P T s1 = mongo_store P T s"
    using mongo_frame [OF s1 inv] by simp_all
  have "run_state (coll_ReplaceOne (topicsCollection D)
      (FDoc [FEq (TopicBson ''Id'') (BStr (t_id topic))]) ?doc True) s1 = (e, s')"
    using run now by (simp add: Mongo_SetTopic_def)
  note written = coll_ReplaceOne_law [OF topics_laws(3) [OF laws] this]
  have sat: "sat topic_field (FDoc [FEq (TopicBson ''Id'') (BStr (t_id topic))]) =
      (\<lambda>t. t_id t = t_id ?doc)" unfolding sat_topic_id by simp
  consider "replaced (\<lambda>t. t_id t = t_id ?doc) ?doc True (mset (T s1)) (mset (T s'))"
    | "e \<noteq> None" "T s' = T s1"
    using written(2) unfolding sat by blast
  then have "mongo_invar P T s' \<and> (mongo_store P T s' = put_topic topic (mongo_store P T s1) \<or>
       (e \<noteq> None \<and> mongo_store P T s' = mongo_store P T s1))"
  proof cases
    case 1
    have dist: "distinct (map t_id (T s1))" using inv1 by (simp add: mongo_invar_def)
    have "mongo_store P T s' = put_topic topic (mongo_store P T s1)"
      using replaced_key(2) [OF dist 1]
      by (intro store_eqI) (auto simp: mongo_store_def written(1) topic_core_def)
    moreover have "mongo_invar P T s'"
      using inv1 replaced_key(1) [OF dist 1] by (simp add: mongo_invar_def written(1))
    ultimately show ?thesis by simp
  next
    case 2
    then show ?thesis using mongo_frame [OF written(1) 2(2) inv1(1)] by simp
  qed
  then show "mongo_invar P T s'"
    and "mongo_store P T s' = put_topic topic (mongo_store P T s) \<or>
      (e \<noteq> None \<and> mongo_store P T s' = mongo_store P T s)" by (simp_all add: inv1(2))
qed

lemma mongo_delete_topics:
  assumes laws: "driver_laws D P T" and inv: "mongo_invar P T s"
    and run: "run_state (coll_DeleteMany (topicsCollection D) (FDoc [FEq (TopicBson ''Id'') (BStr i)])) s = (e, s')"
  shows "mongo_invar P T s' \<and> st_resources (mongo_store P T s') = st_resources (mongo_store P T s) \<and>
    drop_topic_partly i (mongo_store P T s) (mongo_store P T s') \<and>
    (e = None \<longrightarrow> st_topics (mongo_store P T s') = (st_topics (mongo_store P T s))(i := None))"
proof -
  note written = coll_DeleteMany_law [OF topics_laws(4) [OF laws] run]
  from written(2) obtain sel where "T s' = filter (\<lambda>d. \<not> (sel d \<and>
      sat topic_field (FDoc [FEq (TopicBson ''Id'') (BStr i)]) d)) (T s) \<and> (e = None \<longrightarrow> sel = (\<lambda>_. True))" ..
  then have T: "T s' = filter (\<lambda>d. \<not> (sel d \<and> t_id d = i)) (T s)"
    and sel: "e = None \<longrightarrow> sel = (\<lambda>_. True)" unfolding sat_topic_id by simp_all
  have dist: "distinct (map t_id (T s))" using inv by (simp add: mongo_invar_def)
  note del = deleted_key [of t_id "T s" "T s'" sel "\<lambda>k. k = i", OF dist T]
  have "st_topics (mongo_store P T s') k = st_topics (mongo_store P T s) k" if "k \<noteq> i" for k
    using del(2) [of k] that by (auto simp: mongo_store_def)
  moreover have "st_topics (mongo_store P T s') i = st_topics (mongo_store P T s) i \<or>
      st_topics (mongo_store P T s') i = None"
    using del(2) [of i] by (auto simp: mongo_store_def)
  ultimately have "st_topics (mongo_store P T s') = st_topics (mongo_store P T s) \<or>
      st_topics (mongo_store P T s') = (st_topics (mongo_store P T s))(i := None)"
  proof (elim disjE, goal_cases)
    case 1
    then have "st_topics (mongo_store P T s') k = st_topics (mongo_store P T s) k" for k
      by (cases "k = i") simp_all
    then show ?case by (intro disjI1 ext)
  next
    case 2
    then show ?case by (intro disjI2 ext) simp
  qed
  moreover have "e = None \<longrightarrow> st_topics (mongo_store P T s') = (st_topics (mongo_store P T s))(i := None)"
    using del(3) sel by (auto simp: mongo_store_def)
  ultimately show ?thesis
    using inv del(1) written(1) by (auto simp: drop_topic_partly_def mongo_store_def mongo_invar_def)
qed

lemma mongo_delete_topic_resources:
  assumes laws: "driver_laws D P T" and inv: "mongo_invar P T s"
    and run: "run_state (coll_DeleteMany (permissionsCollection D)
      (FDoc [FEq (PermissionsEntryBson ''TopicId'') (BStr i)])) s = (e, s')"
  shows "mongo_invar P T s' \<and> st_topics (mongo_store P T s') = st_topics (mongo_store P T s) \<and>
    drop_topic_partly i (mongo_store P T s) (mongo_store P T s') \<and>
    (e = None \<longrightarrow> (\<forall>t j. st_resources (mongo_store P T s') t j =
       (if t = i then None else st_resources (mongo_store P T s) t j)))"
proof -
  note written = coll_DeleteMany_law [OF perms_laws(5) [OF laws] run]
  from written(2) obtain sel where "P s' = filter (\<lambda>d. \<not> (sel d \<and>
      sat entry_field (FDoc [FEq (PermissionsEntryBson ''TopicId'') (BStr i)]) d)) (P s) \<and>
      (e = None \<longrightarrow> sel = (\<lambda>_. True))" ..
  then have P: "P s' = filter (\<lambda>d. \<not> (sel d \<and> fst (pe_key d) = i)) (P s)"
    and sel: "e = None \<longrightarrow> sel = (\<lambda>_. True)" by (simp_all add: entry_field_def pe_key_def)
  have dist: "distinct (map pe_key (P s))" using inv by (simp add: mongo_invar_def)
  note del = deleted_key [of pe_key "P s" "P s'" sel "\<lambda>k. fst k = i", OF dist P]
  have "st_resources (mongo_store P T s') t j = st_resources (mongo_store P T s) t j \<or>
      (t = i \<and> st_resources (mongo_store P T s') t j = None)" for t j
    using del(2) [of "(t, j)"] by (auto simp: mongo_store_def)
  moreover have "e = None \<longrightarrow> (\<forall>t j. st_resources (mongo_store P T s') t j =
       (if t = i then None else st_resources (mongo_store P T s) t j))"
    using del(3) [of "(t, j)" for t j] sel by (auto simp: mongo_store_def)
  ultimately show ?thesis
    using inv del(1) written(1) by (auto simp: drop_topic_partly_def mongo_store_def mongo_invar_def)
qed

lemma mongo_DeleteTopic_law:
  assumes laws: "driver_laws D P T" and inv: "mongo_invar P T s"
    and run: "run_state (Mongo_DeleteTopic D i) s = (e, s')"
  shows "mongo_invar P T s'"
    and "e = None \<Longrightarrow> mongo_store P T s' = drop_topic i (mongo_store P T s)"
    and "drop_topic_partly i (mongo_store P T s) (mongo_store P T s')"
proof -
  obtain e1 s1 where one: "run_state (coll_DeleteMany (topicsCollection D)
      (FDoc [FEq (TopicBson ''Id'') (BStr i)])) s = (e1, s1)" by fastforce
  note first = mongo_delete_topics [OF laws inv one]
  show "mongo_invar P T s'" "e = None \<Longrightarrow> mongo_store P T s' = drop_topic i (mongo_store P T s)"
    "drop_topic_partly i (mongo_store P T s) (mongo_store P T s')"
  proof (atomize (full), cases e1)
    case None
    then have "run_state (coll_DeleteMany (permissionsCollection D)
        (FDoc [FEq (PermissionsEntryBson ''TopicId'') (BStr i)])) s1 = (e, s')"
      using run one by (simp add: Mongo_DeleteTopic_def)
    from mongo_delete_topic_resources [OF laws _ this] first None
    show "mongo_invar P T s' \<and> (e = None \<longrightarrow> mongo_store P T s' = drop_topic i (mongo_store P T s)) \<and>
        drop_topic_partly i (mongo_store P T s) (mongo_store P T s')"
      by (auto intro!: store_eqI simp: drop_topic_partly_def)
  next
    case (Some x)
    with run one first
    show "mongo_invar P T s' \<and> (e = None \<longrightarrow> mongo_store P T s' = drop_topic i (mongo_store P T s)) \<and>
        drop_topic_partly i (mongo_store P T s) (mongo_store P T s')"
      by (auto simp: Mongo_DeleteTopic_def)
  qed
qed

section \<open>The contract holds\<close>

text \<open>The list methods share one shape: the documents of a topic with a condition, sorted by id.\<close>

lemma find_all_lists_resources:
  assumes laws: "driver_laws D P T" and inv: "mongo_invar P T s"
    and run: "run_state (find_all (permissionsCollection D) flt
      (list_find_options opt (PermissionsEntryBson ''Id'')) f) s = (Inr l, s')"
    and sat: "\<And>e. sat entry_field flt e \<longleftrightarrow> pe_topic_id e = t \<and> R (pe_id e) (entry_acl e)"
  shows "\<exists>full. lists_resources (mongo_store P T s) t R (map ToResource full) \<and>
    l = page (lo_limit opt) (lo_offset opt) (map f full)"
proof -
  from find_all_result [OF perms_laws(1) [OF laws] run] obtain full where
    full: "mset full = mset (filter (sat entry_field flt) (P s))"
    and sorted: "sorted (map (sort_value entry_field (list_find_options opt (PermissionsEntryBson ''Id''))) full)"
    and l: "l = page (lo_limit opt) (lo_offset opt) (map f full)" by auto
  have "sat entry_field flt = (\<lambda>e. pe_topic_id e = t \<and> R (pe_id e) (entry_acl e))"
    by (intro ext) (rule sat)
  with full sorted have "lists_resources (mongo_store P T s) t R (map ToResource full)"
    by (intro mongo_lists_resources [OF inv, where Q = "\<lambda>e. R (pe_id e) (entry_acl e)"]) simp_all
  with l show ?thesis by blast
qed

lemma mongo_check_multiple:
  assumes laws: "driver_laws D P T" and inv: "mongo_invar P T s" and known: "all_known ps"
    and run: "run_state (Mongo_CheckMultipleResourcePermissions D t is u rs gs ps) s = (Inr m, s')"
  shows "DAList.lookup m i = (if i \<in> set is
     then map_option (\<lambda>a. acl_grants_all a u rs gs ps) (st_resources (mongo_store P T s) t i) else None)"
proof -
  let ?flt = "FDoc [FEq (PermissionsEntryBson ''TopicId'') (BStr t), FIn (PermissionsEntryBson ''Id'') is]"
  let ?f = "\<lambda>e. (pe_id e, checkPermissions u rs gs e ps)"
  obtain l s1 where find: "run_state (find_all (permissionsCollection D) ?flt no_find_options ?f) s = (Inr l, s1)"
    and m: "m = fold (\<lambda>(k, v) result. DAList.update k v result) l DAList.empty"
    using run by (auto simp: Mongo_CheckMultipleResourcePermissions_def split: prod.splits sum.splits)
  from find_all_result [OF perms_laws(1) [OF laws] find] obtain full where
    full: "mset full = mset (filter (sat entry_field ?flt) (P s))" and l: "l = map ?f full"
    by (auto simp: no_find_options_def)
  have set: "set full = {e \<in> set (P s). pe_topic_id e = t \<and> pe_id e \<in> set is}"
    using mset_eq_setD [OF full] by (simp add: entry_field_def)
  have "DAList.lookup (fold (\<lambda>(k, v) result. DAList.update k v result) (map ?f ds) m0) i =
      (if \<exists>e \<in> set ds. pe_id e = i then Some b else DAList.lookup m0 i)"
    if "\<And>e. e \<in> set ds \<Longrightarrow> pe_id e = i \<Longrightarrow> checkPermissions u rs gs e ps = b" for ds b m0
    using that by (induction ds arbitrary: m0) (auto simp: lookup_update)
  note folded = this [where ds = full and ?m0.0 = DAList.empty, folded l, folded m]
  show ?thesis
  proof (cases "\<exists>e \<in> set full. pe_id e = i")
    case True
    then obtain e where e: "e \<in> set (P s)" "pe_key e = (t, i)" "i \<in> set is"
      by (auto simp: set pe_key_def)
    then have acl: "st_resources (mongo_store P T s) t i = Some (entry_acl e)"
      using mongo_store_Some [OF inv] by auto
    have "d = e" if "d \<in> set full" "pe_id d = i" for d
      using that e inv by (auto simp: set mongo_invar_def pe_key_def distinct_map inj_on_def)
    then have "DAList.lookup m i = Some (checkPermissions u rs gs e ps)"
      using True folded [of "checkPermissions u rs gs e ps"] by auto
    then show ?thesis using e(3) acl checkPermissions_grants [OF known] by simp
  next
    case False
    then have "i \<in> set is \<Longrightarrow> st_resources (mongo_store P T s) t i = None"
      by (auto simp: mongo_store_None set pe_key_def)
    then show ?thesis using False folded by auto
  qed
qed

lemmas mongo_defs = mongo_db_def Mongo_SetResource_def Mongo_CheckResourcePermissions_def
  Mongo_AdminListResourceIds_def Mongo_AdminListResources_def Mongo_ListResourcesByPermissions_def
  Mongo_ListResourceIdsByPermissions_def Mongo_ListTopics_def

lemma preserves_mongo_reads:
  assumes laws: "driver_laws D P T"
  shows "preserves (mongo_invar P T) (mongo_store P T) (Mongo_GetResource D t i opts)"
    "preserves (mongo_invar P T) (mongo_store P T) (Mongo_ListUnsyncedResources D)"
    "preserves (mongo_invar P T) (mongo_store P T) (Mongo_AdminListResourceIds D t opt)"
    "preserves (mongo_invar P T) (mongo_store P T) (Mongo_AdminListResources D t opt)"
    "preserves (mongo_invar P T) (mongo_store P T) (Mongo_ListResourcesByPermissions D t u rs gs opt ps)"
    "preserves (mongo_invar P T) (mongo_store P T) (Mongo_ListResourceIdsByPermissions D t u rs gs opt ps)"
    "preserves (mongo_invar P T) (mongo_store P T) (Mongo_CheckMultipleResourcePermissions D t is u rs gs ps)"
    "preserves (mongo_invar P T) (mongo_store P T) (Mongo_CheckResourcePermissions D t i u rs gs ps)"
    "preserves (mongo_invar P T) (mongo_store P T) (Mongo_GetTopic D i)"
    "preserves (mongo_invar P T) (mongo_store P T) (Mongo_ListTopics D opt)"
  unfolding Mongo_GetResource_def Mongo_ListUnsyncedResources_def Mongo_GetTopic_def
    Mongo_CheckMultipleResourcePermissions_def mongo_defs
  by (auto intro!: preserves_rules mongo_preserves [OF laws] split: sum.split option.split)

lemma mongo_GetTopic_result:
  assumes laws: "driver_laws D P T" and inv: "mongo_invar P T s"
    and run: "run_state (Mongo_GetTopic D i) s = (Inr found, s')"
  shows "map_option topic_core found = st_topics (mongo_store P T s) i \<and>
    (\<forall>topic. found = Some topic \<longrightarrow> t_id topic = i)"
proof -
  obtain q s1 where find: "run_state (coll_FindOne (topicsCollection D)
      (FDoc [FEq (TopicBson ''Id'') (BStr i)])) s = (q, s1)" by fastforce
  note one = coll_FindOne_law(3-6) [OF topics_laws(2) [OF laws] find, unfolded sat_topic_id]
  show ?thesis
  proof (cases q)
    case (Inl e)
    with run find have e: "errors_is e ErrNoDocuments" "found = None"
      by (auto simp: Mongo_GetTopic_def split: if_splits)
    then have "find (\<lambda>t. t_id t = i) (T s) = None"
      using one(2) [OF Inl e(1)] by (auto simp: find_None_key)
    with e show ?thesis by (simp add: mongo_store_def)
  next
    case (Inr q')
    with run find one(3) obtain d where "q' = Inr d" "found = Some d"
      by (cases q') (auto simp: Mongo_GetTopic_def split: if_splits)
    with Inr one(4) mongo_store_topic [OF inv] show ?thesis by auto
  qed
qed

lemma maintainsI: "(\<And>s r s'. I s \<Longrightarrow> run_state m s = (r, s') \<Longrightarrow> I s') \<Longrightarrow> maintains I m"
  by (rule preservesI) simp

lemma mongo_list_by_permissions:
  assumes laws: "driver_laws D P T" and inv: "mongo_invar P T s"
    and run: "run_state (Mongo_ListResourcesByPermissions D t u rs gs opt ps) s = (Inr l, s')"
    and known: "all_known ps"
  shows "\<exists>full. lists_resources (mongo_store P T s) t (\<lambda>i a. acl_grants_all a u rs gs ps) full \<and>
    l = page (lo_limit opt) (lo_offset opt) full"
proof -
  obtain fs where fs: "permissions_filter u rs gs ps = Some fs"
    using permissions_filter_known [OF known] by blast
  let ?flt = "FDoc [FEq (PermissionsEntryBson ''TopicId'') (BStr t), FAnd fs]"
  have find: "run_state (find_all (permissionsCollection D) ?flt
      (list_find_options opt (PermissionsEntryBson ''Id'')) ToResource) s = (Inr l, s')"
    using run by (simp add: Mongo_ListResourcesByPermissions_def fs)
  have "sat entry_field ?flt e \<longleftrightarrow> pe_topic_id e = t \<and> acl_grants_all (entry_acl e) u rs gs ps" for e
    using sat_permissions_filter [OF fs] by (simp add: entry_field_def)
  from find_all_lists_resources [OF laws inv find, of t "\<lambda>i a. acl_grants_all a u rs gs ps", OF this]
  show ?thesis by auto
qed

lemma mongo_list_topics:
  assumes laws: "driver_laws D P T" and inv: "mongo_invar P T s"
    and run: "run_state (Mongo_ListTopics D default_list_options) s = (Inr ts, s')"
  shows "distinct (map t_id ts) \<and>
     (\<lambda>t. (t_id t, topic_core t)) ` set ts = {(i, t). st_topics (mongo_store P T s) i = Some t}"
proof -
  have "run_state (find_all (topicsCollection D) (FDoc [])
      (list_find_options default_list_options (TopicBson ''Id'')) (\<lambda>t. t)) s = (Inr ts, s')"
    using run by (simp add: Mongo_ListTopics_def default_list_options_def)
  from find_all_result [OF topics_laws(1) [OF laws] this]
  have ts: "mset ts = mset (T s)" by (auto simp: default_list_options_def)
  then have "mset (map t_id ts) = mset (map t_id (T s))" by simp
  then have "distinct (map t_id ts)" "set ts = set (T s)"
    using inv mset_eq_imp_distinct_iff [of "map t_id ts" "map t_id (T s)"] mset_eq_setD [OF ts]
    by (auto simp: mongo_invar_def)
  moreover have "st_topics (mongo_store P T s) i = Some c \<longleftrightarrow>
      (\<exists>t \<in> set (T s). t_id t = i \<and> c = topic_core t)" for i c
    using find_distinct_key [of t_id "T s" i] inv by (auto simp: mongo_store_def mongo_invar_def)
  ultimately show ?thesis by auto
qed

lemma map_ToResource_id [simp]: "map (\<lambda>e. r_id (ToResource e)) l = map pe_id l"
  by simp

text \<open>
  Over every driver with the documented behaviour, the operations of \<open>pkg/database/mongo\<close> keep the
  contract of the database interface.
\<close>

lemma mongo_database:
  assumes laws: "driver_laws D P T"
  shows "database (mongo_db D) (mongo_store P T) (mongo_invar P T)"
proof (unfold_locales, goal_cases)
  case 1 show ?case using mongo_MarkResourceAsSynced_frame [OF laws] by (simp add: mongo_db_def)
next
  case (17 s t i opts r s')
  then have "run_state (Mongo_GetResource D t i opts) s = (Inr r, s')" by (simp add: mongo_db_def)
  with mongo_GetResource_cases [OF laws 17(1) this] show ?case
    by (auto simp: acl_of_ToResource checkPermissions_grants pe_key_def split: if_splits)
next
  case (18 s t i opts e s')
  then have "run_state (Mongo_GetResource D t i opts) s = (Inl e, s')" by (simp add: mongo_db_def)
  with mongo_GetResource_cases [OF laws 18(1) this] 18(3) show ?case
    by (auto simp: driver_error_def split: if_splits)
next
  case (19 s t i opts e s')
  then have "run_state (Mongo_GetResource D t i opts) s = (Inl e, s')" by (simp add: mongo_db_def)
  with mongo_GetResource_cases [OF laws 19(1) this] 19(3) show ?case
    by (auto simp: driver_error_def checkPermissions_grants split: if_splits)
next
  case (20 s t i u rs gs ps b s')
  then obtain m s1 where "run_state (Mongo_CheckMultipleResourcePermissions D t [i] u rs gs ps) s = (Inr m, s1)"
    and "b = (case DAList.lookup m i of None \<Rightarrow> False | Some b \<Rightarrow> b)"
    by (auto simp: mongo_defs split: prod.splits sum.splits)
  with mongo_check_multiple [OF laws 20(1,3)] show ?case by (auto split: option.splits)
next
  case 21 then show ?case using mongo_check_multiple [OF laws] by (simp add: mongo_db_def)
next
  case 16 then show ?case using mongo_GetTopic_result [OF laws] by (simp add: mongo_db_def)
next
  case (22 s t opt l s')
  then have "run_state (find_all (permissionsCollection D) (topic_filter t opt)
      (list_find_options opt (PermissionsEntryBson ''Id'')) ToResource) s = (Inr l, s')"
    by (simp add: mongo_defs)
  from find_all_lists_resources [OF laws 22(1) this, of t "\<lambda>i a. in_ids opt i"] show ?case by auto
next
  case (23 s t opt ids s')
  then have "run_state (find_all (permissionsCollection D) (topic_filter t opt)
      (list_find_options opt (PermissionsEntryBson ''Id'')) pe_id) s = (Inr ids, s')"
    by (simp add: mongo_defs)
  from find_all_lists_resources [OF laws 23(1) this, of t "\<lambda>i a. True"] 23(3) show ?case
    by (auto simp: in_ids_def o_def map_ToResource_id)
next
  case (24 s t u rs gs opt ps l s')
  then show ?case by (intro mongo_list_by_permissions [OF laws]) (auto simp: mongo_db_def)
next
  case (25 s t u rs gs opt ps ids s')
  then obtain l s1 where "run_state (Mongo_ListResourcesByPermissions D t u rs gs opt ps) s = (Inr l, s1)"
    and "ids = map r_id l"
    by (auto simp: mongo_db_def Mongo_ListResourceIdsByPermissions_def split: prod.splits sum.splits)
  with mongo_list_by_permissions [OF laws 25(1) _ 25(3)] show ?case by (fastforce simp: map_page)
next
  case (26 s ts s')
  then show ?case using mongo_list_topics [OF laws] by (simp add: mongo_db_def)
next
  case (27 s r time synced e s')
  then have "run_state (Mongo_SetPermissions D (r_topic_id r) (r_id r) (r_permissions r) time synced) s = (e, s')"
    by (simp add: mongo_defs)
  from mongo_SetPermissions_law(2) [OF laws 27(1) this] show ?case by (simp add: put_resource_def)
next
  case 28 then show ?case using mongo_DeleteResource_law(2) [OF laws] by (simp add: mongo_db_def)
next
  case 29 then show ?case using mongo_SetTopic_law(2) [OF laws] by (simp add: mongo_db_def)
next
  case 30 then show ?case using mongo_DeleteTopic_law(2) [OF laws] by (simp add: mongo_db_def)
next
  case 31 then show ?case using mongo_DeleteTopic_law(3) [OF laws] by (simp add: mongo_db_def)
next
  case 12 show ?case using mongo_SetPermissions_law(1) [OF laws]
    by (intro maintainsI) (simp add: mongo_defs)
next
  case 13 show ?case using mongo_DeleteResource_law(1) [OF laws]
    by (intro maintainsI) (simp add: mongo_defs)
next
  case 14 show ?case using mongo_SetTopic_law(1) [OF laws]
    by (intro maintainsI) (simp add: mongo_defs)
next
  case 15 show ?case using mongo_DeleteTopic_law(1) [OF laws]
    by (intro maintainsI) (simp add: mongo_defs)
qed (use preserves_mongo_reads [OF laws] in \<open>simp_all add: mongo_db_def\<close>)

section \<open>The database on collections in memory\<close>

text \<open>The two collections and a clock, in milliseconds, that each reading advances.\<close>

record mem =
  mem_perms :: "permissions_entry list"
  mem_topics :: "topic list"
  mem_clock :: int

definition mem_mongo :: "int \<Rightarrow> mem mongo" where
  "mem_mongo limit =
     \<lparr>permissionsCollection =
        memory_collection entry_field entry_set mem_perms (\<lambda>ds s. s\<lparr>mem_perms := ds\<rparr>),
      topicsCollection =
        memory_collection topic_field (\<lambda>_ t. t) mem_topics (\<lambda>ds s. s\<lparr>mem_topics := ds\<rparr>),
      mongo_now = State (\<lambda>s. (mem_clock s, s\<lparr>mem_clock := mem_clock s + 1\<rparr>)),
      SyncAgeLimit = limit\<rparr>"

definition mem_empty :: mem where
  "mem_empty = \<lparr>mem_perms = [], mem_topics = [], mem_clock = 0\<rparr>"

lemma mem_driver_laws: "driver_laws (mem_mongo limit) mem_perms mem_topics"
  by (auto simp: driver_laws_def mem_mongo_def preserves_def intro!: memory_collection_laws)

interpretation mongo_mem: database "mongo_db (mem_mongo 300000)" "mongo_store mem_perms mem_topics"
  "mongo_invar mem_perms mem_topics"
  by (rule mongo_database [OF mem_driver_laws])

lemma mem_empty_invar: "mongo_invar mem_perms mem_topics mem_empty"
  by (simp add: mongo_invar_def mem_empty_def)

section \<open>Properties\<close>

text \<open>
  C5. Over every driver with the documented behaviour of its collections, the operations of the
  production database keep the contract of the database interface: queries find exactly the entries
  that grant what is asked, writes change the one entry or topic they are about, and both unique
  indexes stay satisfied.
\<close>

theorem mongo_keeps_contract:
  assumes "driver_laws D P T"
  shows "database (mongo_db D) (mongo_store P T) (mongo_invar P T)"
  using assms by (rule mongo_database)

theorem mongo_keeps_contract_witness:
  "database (mongo_db (mem_mongo 300000)) (mongo_store mem_perms mem_topics)
     (mongo_invar mem_perms mem_topics)"
  by (rule mongo_keeps_contract [OF mem_driver_laws])

text \<open>
  The resources that are published again are those stored as not yet published before the
  configured age: for a successful query, each resource is that of an entry that is not marked as
  synced and whose time stamp is older than the limit, and every such entry is listed once.
\<close>

theorem unsynced_resources_listed:
  assumes laws: "driver_laws D P T" and run: "run_state (Mongo_ListUnsyncedResources D) s = (Inr l, s')"
    and now: "run_state (mongo_now D) s = (now, s1)"
  shows "mset l = image_mset ToResource (mset (filter (\<lambda>e. \<not> pe_synced e \<and>
      pe_timestamp e < now - SyncAgeLimit D) (P s)))"
proof -
  let ?flt = "FDoc [FEq PermissionsEntrySyncedBson (BBool False),
    FLt PermissionsEntryTimestampBson (now - SyncAgeLimit D)]"
  let ?opt = "\<lparr>fo_limit = 0, fo_skip = 0, fo_sort = Some (PermissionsEntryBson ''Id'')\<rparr>"
  have "run_state (find_all (permissionsCollection D) ?flt ?opt ToResource) s1 = (Inr l, s')"
    using run now by (simp add: Mongo_ListUnsyncedResources_def)
  from find_all_result [OF perms_laws(1) [OF laws] this]
  obtain full where full: "mset full = mset (filter (sat entry_field ?flt) (P s1))"
    and l: "l = map ToResource full" by auto
  have "P s1 = P s"
    using laws preservesD [OF _ now] by (auto simp: driver_laws_def)
  moreover have "sat entry_field ?flt = (\<lambda>e. \<not> pe_synced e \<and> pe_timestamp e < now - SyncAgeLimit D)"
    by (intro ext) (simp add: entry_field_def PermissionsEntrySyncedBson_def PermissionsEntryTimestampBson_def)
  ultimately have "mset full = mset (filter (\<lambda>e. \<not> pe_synced e \<and> pe_timestamp e < now - SyncAgeLimit D) (P s))"
    using full by simp
  then show ?thesis by (simp add: l)
qed

definition unsynced_mem :: mem where
  "unsynced_mem = \<lparr>mem_perms = [empty_entry ''t'' ''old'' 5 False, empty_entry ''t'' ''new'' 95 False,
     empty_entry ''t'' ''done'' 5 True], mem_topics = [], mem_clock = 100\<rparr>"

lemma unsynced_mem_run:
  "map_prod (map_sum (\<lambda>e. e) (map r_id)) mem_clock (run_state (Mongo_ListUnsyncedResources (mem_mongo 10)) unsynced_mem) =
     (Inr [''old''], 101)"
  by code_simp

theorem unsynced_resources_listed_witness:
  "\<exists>l s'. run_state (Mongo_ListUnsyncedResources (mem_mongo 10)) unsynced_mem = (Inr l, s') \<and>
     mset l = {#ToResource (empty_entry ''t'' ''old'' 5 False)#}"
proof -
  obtain l s' where run: "run_state (Mongo_ListUnsyncedResources (mem_mongo 10)) unsynced_mem = (Inr l, s')"
    using unsynced_mem_run
    by (cases "run_state (Mongo_ListUnsyncedResources (mem_mongo 10)) unsynced_mem")
      (auto simp: map_sum_def split: sum.splits)
  have "run_state (mongo_now (mem_mongo 10)) unsynced_mem = (100, unsynced_mem\<lparr>mem_clock := 101\<rparr>)"
    by (simp add: mem_mongo_def unsynced_mem_def)
  from unsynced_resources_listed [OF mem_driver_laws run this] run show ?thesis
    by (simp add: unsynced_mem_def mem_mongo_def)
qed

end
