(* ===== verification/Configuration.thy ===== *)
theory Configuration
  imports GoErrors
begin

text \<open>
  The configuration, \<open>pkg/configuration/config.go\<close>: the struct, its durations (nanoseconds) and
  their parsing. The logger, a private field, is left out.
\<close>

record duration =
  dur :: int

definition GetDuration :: "duration \<Rightarrow> int" where
  "GetDuration this = dur this"

definition SetDuration :: "int \<Rightarrow> duration \<Rightarrow> duration" where
  "SetDuration d this = this\<lparr>dur := d\<rparr>"

text \<open>\<open>parse\<close> is \<open>time.ParseDuration\<close>. An empty string leaves the duration as it is.\<close>

definition Duration_SetString ::
  "(string \<Rightarrow> error + int) \<Rightarrow> string \<Rightarrow> duration \<Rightarrow> error + duration" where
  "Duration_SetString parse str this =
     (if str = [] then Inr this
      else (case parse str of
              Inl err \<Rightarrow> Inl err
            | Inr duration \<Rightarrow> Inr (SetDuration duration this)))"

record config =
  cfg_Port :: string
  cfg_Debug :: bool
  cfg_EnableSwaggerUi :: bool
  cfg_EditForward :: string
  cfg_DevNotifierUrl :: string
  cfg_KafkaUrl :: string
  cfg_MongoUrl :: string
  cfg_MongoDatabase :: string
  cfg_MongoPermissionsCollection :: string
  cfg_MongoTopicsCollection :: string
  cfg_MigrateFromMongoUrl :: string
  cfg_SyncCheckInterval :: duration
  cfg_SyncAgeLimit :: duration
  cfg_OnlyAdminsMayEditRolePermissions :: bool
  cfg_UserManagementUrl :: string
  cfg_ApiDocsProviderBaseUrl :: string
  cfg_OtelEndpoint :: string
  cfg_LogLevel :: string

definition empty_config :: config where
  "empty_config =
     \<lparr>cfg_Port = [], cfg_Debug = False, cfg_EnableSwaggerUi = False, cfg_EditForward = [],
      cfg_DevNotifierUrl = [], cfg_KafkaUrl = [], cfg_MongoUrl = [], cfg_MongoDatabase = [],
      cfg_MongoPermissionsCollection = [], cfg_MongoTopicsCollection = [],
      cfg_MigrateFromMongoUrl = [], cfg_SyncCheckInterval = \<lparr>dur = 0\<rparr>, cfg_SyncAgeLimit = \<lparr>dur = 0\<rparr>,
      cfg_OnlyAdminsMayEditRolePermissions = False, cfg_UserManagementUrl = [],
      cfg_ApiDocsProviderBaseUrl = [], cfg_OtelEndpoint = [], cfg_LogLevel = []\<rparr>"

end
