(* ===== verification/Kafka.thy ===== *)
theory Kafka
  imports Model Configuration
begin

text \<open>
  Publishing to Kafka, \<open>pkg/controller/kafka\<close>: the messages the producer writes (\<open>kafka.go\<close>), the
  balancer that keeps the messages of one resource in one partition, the creation of topics, and
  the producer that does nothing (\<open>void.go\<close>). The Kafka client library and the JSON encoder are
  parameters.
\<close>

section \<open>Commands\<close>

record right =
  ri_read :: bool
  ri_write :: bool
  ri_execute :: bool
  ri_administrate :: bool

record kafka_rights =
  kr_user_rights :: "right gomap"
  kr_group_rights :: "right gomap"
  kr_keycloak_groups_rights :: "right gomap"

record command =
  cmd_command :: string
  cmd_id :: string
  cmd_rights :: "kafka_rights option"
  cmd_owner :: string

definition right_of :: "permissions_map \<Rightarrow> right" where
  "right_of perm =
     \<lparr>ri_read = pm_read perm, ri_write = pm_write perm, ri_execute = pm_execute perm,
      ri_administrate = pm_administrate perm\<rparr>"

definition permissions_map_of :: "right \<Rightarrow> permissions_map" where
  "permissions_map_of perm =
     \<lparr>pm_read = ri_read perm, pm_write = ri_write perm, pm_execute = ri_execute perm,
      pm_administrate = ri_administrate perm\<rparr>"

definition permissionsToRights :: "resource_permissions \<Rightarrow> kafka_rights" where
  "permissionsToRights permissions =
     \<lparr>kr_user_rights = m_range_put right_of (rp_user permissions) m_empty,
      kr_group_rights = m_range_put right_of (rp_role permissions) m_empty,
      kr_keycloak_groups_rights = m_range_put right_of (rp_group permissions) m_empty\<rparr>"

definition rightsToPermissions :: "kafka_rights option \<Rightarrow> resource_permissions" where
  "rightsToPermissions permissions =
     (case permissions of
        None \<Rightarrow> \<lparr>rp_user = m_empty, rp_group = m_empty, rp_role = None\<rparr>
      | Some p \<Rightarrow>
          \<lparr>rp_user = m_range_put permissions_map_of (kr_user_rights p) m_empty,
           rp_group = m_range_put permissions_map_of (kr_group_rights p) m_empty,
           rp_role = None\<rparr>)"

text \<open>\<open>marshal\<close> is \<open>json.Marshal\<close>.\<close>

definition Command_String :: "(command \<Rightarrow> error + string) \<Rightarrow> command \<Rightarrow> string" where
  "Command_String marshal this =
     (case marshal this of Inl err \<Rightarrow> error_text err | Inr temp \<Rightarrow> temp)"

section \<open>Producers\<close>

record kafka_message =
  km_key :: string
  km_value :: string
  km_time :: int

text \<open>
  The settings of a \<open>kafka.Writer\<close>. The balancer is a \<open>KeySeparationBalancer\<close> over the library's
  hash balancer.
\<close>

record balancer =
  SubBalancer :: "kafka_message \<Rightarrow> int list \<Rightarrow> int"
  bal_Seperator :: string

record kafka_writer =
  kw_addr :: string
  kw_topic :: string
  kw_max_attempts :: int
  kw_batch_size :: int
  kw_balancer :: balancer
  kw_compression :: string

definition Balance :: "balancer \<Rightarrow> kafka_message \<Rightarrow> int list \<Rightarrow> int" where
  "Balance this msg partitions =
     (let key = km_key msg;
          key = (if bal_Seperator this \<noteq> [] then hd (Split key (bal_Seperator this)) else key)
      in SubBalancer this (msg\<lparr>km_key := key\<rparr>) partitions)"

text \<open>One setting of a topic and the request to create it.\<close>

record topic_config =
  tc_topic :: string
  tc_num_partitions :: int
  tc_replication_factor :: int
  tc_entries :: "(string \<times> string) list"

text \<open>
  What the package uses of the client library: connections, the address of the cluster controller,
  creating topics, writing messages; and the JSON encoder and the clock.
\<close>

record ('e, 'c) kafka_lib =
  kl_hash :: "kafka_message \<Rightarrow> int list \<Rightarrow> int"
  kl_dial :: "string \<Rightarrow> ('e, error + 'c) state"
  kl_controller :: "'c \<Rightarrow> ('e, error + (string \<times> int)) state"
  kl_create_topics :: "'c \<Rightarrow> topic_config list \<Rightarrow> ('e, error option) state"
  kl_close_conn :: "'c \<Rightarrow> ('e, unit) state"
  kl_write_messages :: "kafka_writer \<Rightarrow> kafka_message \<Rightarrow> ('e, error option) state"
  kl_close_writer :: "kafka_writer \<Rightarrow> ('e, error option) state"
  kl_marshal :: "command \<Rightarrow> error + string"
  kl_now :: "('e, int) state"

definition NewKafkaWriter :: "('e, 'c) kafka_lib \<Rightarrow> config \<Rightarrow> topic \<Rightarrow> kafka_writer" where
  "NewKafkaWriter L config topic =
     \<lparr>kw_addr = cfg_KafkaUrl config, kw_topic = t_publish_to_kafka_topic topic,
      kw_max_attempts = 10, kw_batch_size = 1,
      kw_balancer = \<lparr>SubBalancer = kl_hash L, bal_Seperator = ''/''\<rparr>,
      kw_compression = ''snappy''\<rparr>"

text \<open>\<open>net.JoinHostPort\<close>\<close>

definition JoinHostPort :: "string \<Rightarrow> string \<Rightarrow> string" where
  "JoinHostPort host port =
     (if CHR '':'' \<in> set host \<or> CHR ''%'' \<in> set host
      then ''['' @ host @ '']:'' @ port else host @ '':'' @ port)"

definition topic_config_entries :: "(string \<times> string) list" where
  "topic_config_entries =
     [(''retention.ms'', ''-1''), (''retention.bytes'', ''-1''), (''cleanup.policy'', ''compact''),
      (''delete.retention.ms'', ''86400000''), (''segment.ms'', ''604800000''),
      (''min.cleanable.dirty.ratio'', ''0.1'')]"

definition InitKafkaTopic ::
  "('e, 'c) kafka_lib \<Rightarrow> string \<Rightarrow> int \<Rightarrow> string list \<Rightarrow> ('e, error option) state" where
  "InitKafkaTopic L bootstrapUrl partitionNumber topics = do {
     let partitionNumber = (if partitionNumber = 0 then 1 else partitionNumber);
     r \<leftarrow> kl_dial L bootstrapUrl;
     case r of
       Inl err \<Rightarrow> ret (Some err)
     | Inr conn \<Rightarrow> do {
         err \<leftarrow> do {
           c \<leftarrow> kl_controller L conn;
           case c of
             Inl err \<Rightarrow> ret (Some err)
           | Inr (host, port) \<Rightarrow> do {
               r2 \<leftarrow> kl_dial L (JoinHostPort host (FormatInt port));
               case r2 of
                 Inl err \<Rightarrow> ret (Some err)
               | Inr controllerConn \<Rightarrow> do {
                   err \<leftarrow> kl_create_topics L controllerConn
                     (map (\<lambda>topic. \<lparr>tc_topic = topic, tc_num_partitions = partitionNumber,
                        tc_replication_factor = 1, tc_entries = topic_config_entries\<rparr>) topics);
                   _ \<leftarrow> kl_close_conn L controllerConn;
                   ret err } } };
         _ \<leftarrow> kl_close_conn L conn;
         ret err } }"

text \<open>
  The two implementations of \<open>Producer\<close>; a \<open>KafkaProducer\<close> whose writer is nil publishes nothing.
  \<open>GetProducer\<close> of the Kafka provider never fails: an error of \<open>InitKafkaTopic\<close> is only logged.
\<close>

datatype producer = VoidProducer | KafkaProducer "kafka_writer option"

definition KafkaProducerProvider_GetProducer ::
  "('e, 'c) kafka_lib \<Rightarrow> config \<Rightarrow> topic \<Rightarrow> ('e, error + producer) state" where
  "KafkaProducerProvider_GetProducer L config topic = do {
     _ \<leftarrow> (if t_ensure_kafka_topic_init topic
           then InitKafkaTopic L (cfg_KafkaUrl config)
                  (t_ensure_kafka_topic_init_partition_number topic) [t_publish_to_kafka_topic topic]
           else ret None);
     ret (Inr (KafkaProducer (Some (NewKafkaWriter L config topic)))) }"

definition KafkaProducer_Close ::
  "('e, 'c) kafka_lib \<Rightarrow> kafka_writer option \<Rightarrow> ('e, error option) state" where
  "KafkaProducer_Close L writer = (case writer of None \<Rightarrow> ret None | Some w \<Rightarrow> kl_close_writer L w)"

definition KafkaProducer_SendPermissions ::
  "('e, 'c) kafka_lib \<Rightarrow> kafka_writer option \<Rightarrow> topic \<Rightarrow> string \<Rightarrow> resource_permissions \<Rightarrow>
   ('e, error option) state" where
  "KafkaProducer_SendPermissions L writer topic rid permissions =
     (case writer of
        None \<Rightarrow> ret None
      | Some w \<Rightarrow>
          (case kl_marshal L \<lparr>cmd_command = ''RIGHTS'', cmd_id = rid,
                  cmd_rights = Some (permissionsToRights permissions), cmd_owner = []\<rparr> of
             Inl err \<Rightarrow> ret (Some err)
           | Inr temp \<Rightarrow> do {
               now \<leftarrow> kl_now L;
               kl_write_messages L w
                 \<lparr>km_key = rid @ ''/rights'', km_value = temp, km_time = now\<rparr> }))"

definition VoidProducerProvider_GetProducer :: "config \<Rightarrow> topic \<Rightarrow> ('e, error + producer) state" where
  "VoidProducerProvider_GetProducer config topic = ret (Inr VoidProducer)"

definition VoidProducer_Close :: "('e, error option) state" where
  "VoidProducer_Close = ret None"

definition VoidProducer_SendPermissions ::
  "topic \<Rightarrow> string \<Rightarrow> resource_permissions \<Rightarrow> ('e, error option) state" where
  "VoidProducer_SendPermissions topic rid permissions = ret None"

text \<open>A call through the interface.\<close>

definition Producer_SendPermissions ::
  "('e, 'c) kafka_lib \<Rightarrow> producer \<Rightarrow> topic \<Rightarrow> string \<Rightarrow> resource_permissions \<Rightarrow>
   ('e, error option) state" where
  "Producer_SendPermissions L p topic rid permissions =
     (case p of
        VoidProducer \<Rightarrow> VoidProducer_SendPermissions topic rid permissions
      | KafkaProducer w \<Rightarrow> KafkaProducer_SendPermissions L w topic rid permissions)"

section \<open>Lemmas\<close>

lemma permissions_map_of_right_of [simp]: "permissions_map_of (right_of m) = m"
  by (simp add: permissions_map_of_def right_of_def)

lemma permissionsToRights_get [simp]:
  "m_get (kr_user_rights (permissionsToRights p)) k = map_option right_of (m_get (rp_user p) k)"
  "m_get (kr_group_rights (permissionsToRights p)) k = map_option right_of (m_get (rp_role p) k)"
  "m_get (kr_keycloak_groups_rights (permissionsToRights p)) k =
     map_option right_of (m_get (rp_group p) k)"
  by (simp_all add: permissionsToRights_def split: option.split)

lemma Balance_no_separator:
  "bal_Seperator b = [] \<Longrightarrow> Balance b msg ps = SubBalancer b msg ps"
  by (simp add: Balance_def)

section \<open>Properties\<close>

text \<open>
  The rights in a published command are the permissions that were stored: users under user
  rights, roles under group rights, groups under Keycloak group rights, entry by entry and with no
  entry besides; the message is keyed by the id and goes to the topic's writer.
\<close>

theorem published_rights:
  assumes "kl_marshal L \<lparr>cmd_command = ''RIGHTS'', cmd_id = rid,
      cmd_rights = Some (permissionsToRights permissions), cmd_owner = []\<rparr> = Inr text"
    and "run_state (kl_now L) e = (now, e1)"
  shows "run_state (KafkaProducer_SendPermissions L (Some w) topic rid permissions) e =
      run_state (kl_write_messages L w \<lparr>km_key = rid @ ''/rights'', km_value = text, km_time = now\<rparr>) e1 \<and>
    m_get (kr_user_rights (permissionsToRights permissions)) k = map_option right_of (m_get (rp_user permissions) k) \<and>
    m_get (kr_group_rights (permissionsToRights permissions)) k = map_option right_of (m_get (rp_role permissions) k) \<and>
    m_get (kr_keycloak_groups_rights (permissionsToRights permissions)) k =
      map_option right_of (m_get (rp_group permissions) k) \<and>
    permissions_map_of (right_of m) = m"
  using assms by (simp add: KafkaProducer_SendPermissions_def)

text \<open>A library that keeps the messages it is given.\<close>

definition log_lib :: "(kafka_message list, unit) kafka_lib" where
  "log_lib = \<lparr>kl_hash = (\<lambda>m ps. hd ps), kl_dial = (\<lambda>_. ret (Inr ())),
     kl_controller = (\<lambda>_. ret (Inr (''broker'', 9092))), kl_create_topics = (\<lambda>_ _. ret None),
     kl_close_conn = (\<lambda>_. ret ()), kl_write_messages = (\<lambda>_ m. State (\<lambda>l. (None, l @ [m]))),
     kl_close_writer = (\<lambda>_. ret None), kl_marshal = (\<lambda>c. Inr (cmd_id c)), kl_now = ret 7\<rparr>"

theorem published_rights_witness:
  "\<forall>w topic. run_state (KafkaProducer_SendPermissions log_lib (Some w) topic ''d'' nil_permissions) [] =
     (None, [\<lparr>km_key = ''d/rights'', km_value = ''d'', km_time = 7\<rparr>])"
  using published_rights [of log_lib "''d''" nil_permissions "''d''" "[]" 7 "[]"]
  by (simp add: log_lib_def)

text \<open>
  All messages of one resource go to the same partition: with the separator set, the balancer
  hands its sub-balancer a message whose key is the part before the separator, so for ids without a
  slash the choice depends on the id only if the sub-balancer looks at the key only.
\<close>

theorem same_partition:
  assumes "bal_Seperator b = ''/''" "CHR ''/'' \<notin> set rid"
    and "\<And>m m' ps. km_key m = km_key m' \<Longrightarrow> SubBalancer b m ps = SubBalancer b m' ps"
    and "km_key msg = rid @ ''/'' @ kind" "km_key msg' = rid @ ''/'' @ kind'"
  shows "Balance b msg ps = Balance b msg' ps"
  using assms(1,2,4,5)
  by (auto simp: Balance_def Let_def Split_char_append intro: assms(3))

theorem same_partition_witness:
  "\<forall>t. Balance (kw_balancer (NewKafkaWriter (log_lib\<lparr>kl_hash := (\<lambda>m ps. ps ! (length (km_key m) mod length ps))\<rparr>)
       empty_config t)) \<lparr>km_key = ''device/rights'', km_value = [], km_time = 0\<rparr> [10, 11, 12, 13] =
   Balance (kw_balancer (NewKafkaWriter (log_lib\<lparr>kl_hash := (\<lambda>m ps. ps ! (length (km_key m) mod length ps))\<rparr>)
       empty_config t)) \<lparr>km_key = ''device/owner'', km_value = [], km_time = 1\<rparr> [10, 11, 12, 13]"
  by (intro allI, rule same_partition [where rid = "''device''" and kind = "''rights''" and kind' = "''owner''"])
    (simp_all add: NewKafkaWriter_def)

text \<open>
  A producer of the Kafka provider never fails to be made: creating the topic is attempted only
  when it is asked for, its error is not reported, and the writer publishes to the topic's Kafka
  topic, balanced by the part of the key before the slash.
\<close>

theorem kafka_provider_total:
  "\<exists>w e'. run_state (KafkaProducerProvider_GetProducer L config topic) e = (Inr (KafkaProducer (Some w)), e') \<and>
     kw_topic w = t_publish_to_kafka_topic topic \<and> kw_addr w = cfg_KafkaUrl config \<and>
     bal_Seperator (kw_balancer w) = ''/'' \<and>
     (t_ensure_kafka_topic_init topic \<or> e' = e)"
  by (cases "t_ensure_kafka_topic_init topic")
    (auto simp: KafkaProducerProvider_GetProducer_def NewKafkaWriter_def split: prod.split)

text \<open>
  The way back is not the inverse: rights that come from permissions of a role alone are read as
  permissions of a group of that name, and the rights of groups are lost.
\<close>

theorem rights_to_permissions_not_inverse:
  "m_get (rp_group (rightsToPermissions (Some (permissionsToRights p)))) k = m_get (rp_role p) k \<and>
   m_get (rp_user (rightsToPermissions (Some (permissionsToRights p)))) k = m_get (rp_user p) k \<and>
   rp_role (rightsToPermissions (Some (permissionsToRights p))) = None"
  by (auto simp: rightsToPermissions_def split: option.split)

end
