(* ===== verification/Controller.thy ===== *)
theory Controller
  imports DatabaseIfc Kafka
begin

text \<open>
  The controller, \<open>pkg/controller/controller.go\<close> and \<open>setPermission\<close> of \<open>resource.go\<close>: its state,
  what it is built from, publishing with a cache of producers, and the loop that publishes again
  what could not be published. Contexts only bound how long a call to the database may take; a
  call that runs into its timeout is one that fails, which every method of the database may do.
  Log lines are left out.
\<close>

section \<open>State and dependencies\<close>

text \<open>
  A parsed token, by what the methods of \<open>service-commons/pkg/jwt\<close> return for it.
\<close>

record token =
  GetUserId :: string
  GetRoles :: "string list"
  GetGroups :: "string list"
  IsAdmin :: bool
  HasGroup :: "string \<Rightarrow> bool"
  Jwt :: string

text \<open>A message of \<open>developer-notifications\<close>.\<close>

record message =
  msg_sender :: string
  msg_title :: string
  msg_tags :: "string list"
  msg_body :: string

record http_request =
  hr_method :: string
  hr_url :: string
  hr_headers :: "(string \<times> string) list"

record http_response =
  hs_status :: int
  hs_body :: string

text \<open>\<open>User\<close> of \<open>resource.go\<close>, the types of \<open>load.go\<close>.\<close>

record user =
  user_id :: string
  user_name :: string

record search_element =
  se_user_rights :: "right gomap"
  se_group_rights :: "right gomap"
  se_resource_id :: string
  se_creator :: string

text \<open>
  The fields of the controller that do not change, and the functions of other packages it calls:
  \<open>'s\<close> is the state of the database, \<open>'e\<close> that of everything outside the service, \<open>'p\<close> a producer.
  \<open>http_do\<close> stands for \<open>http.NewRequest\<close> and \<open>Client.Do\<close>.
\<close>

record ('s, 'e, 'p) controller =
  ctl_config :: config
  ctl_db :: "'s database"
  SendMessage :: "message \<Rightarrow> ('e, error option) state"
  GetProducer :: "config \<Rightarrow> topic \<Rightarrow> ('e, error + 'p) state"
  SendPermissions :: "'p \<Rightarrow> topic \<Rightarrow> string \<Rightarrow> resource_permissions \<Rightarrow> ('e, error option) state"
  jwt_Parse :: "string \<Rightarrow> error + token"
  time_Now :: "('e, int) state"
  http_do :: "http_request \<Rightarrow> ('e, error + http_response) state"
  decode_users :: "string \<Rightarrow> error + user list"
  decode_search :: "string \<Rightarrow> error + search_element list"

text \<open>What changes: the database, the outside, and the map of producers.\<close>

record ('s, 'e, 'p) world =
  w_db :: 's
  w_ext :: 'e
  w_producer :: "'p gomap"

definition on_db :: "('s, 'a) state \<Rightarrow> (('s, 'e, 'p) world, 'a) state" where
  "on_db m = State (\<lambda>w. let (r, d) = run_state m (w_db w) in (r, w\<lparr>w_db := d\<rparr>))"

definition on_ext :: "('e, 'a) state \<Rightarrow> (('s, 'e, 'p) world, 'a) state" where
  "on_ext m = State (\<lambda>w. let (r, e) = run_state m (w_ext w) in (r, w\<lparr>w_ext := e\<rparr>))"

section \<open>Publishing\<close>

definition LogNotifier_SendMessage :: "message \<Rightarrow> ('e, error option) state" where
  "LogNotifier_SendMessage message = ret None"

definition notifyError :: "('s, 'e, 'p) controller \<Rightarrow> string \<Rightarrow> (('s, 'e, 'p) world, unit) state" where
  "notifyError C info = do {
     _ \<leftarrow> on_ext (SendMessage C
       \<lparr>msg_sender = ''github.com/SENERGY-Platform/permissions-v2'',
        msg_title = ''PermissionsV2 Error'',
        msg_tags = [''error'', ''permissions''],
        msg_body = info\<rparr>);
     ret () }"

definition getProducer ::
  "('s, 'e, 'p) controller \<Rightarrow> topic \<Rightarrow> (('s, 'e, 'p) world, error + 'p) state" where
  "getProducer C topic = do {
     _ \<leftarrow> State (\<lambda>w. ((), w\<lparr>w_producer := m_nonnil (w_producer w)\<rparr>));
     cached \<leftarrow> State (\<lambda>w. (m_get (w_producer w) (t_publish_to_kafka_topic topic), w));
     case cached of
       Some producer \<Rightarrow> ret (Inr producer)
     | None \<Rightarrow> do {
         r \<leftarrow> on_ext (GetProducer C (ctl_config C) topic);
         case r of
           Inl err \<Rightarrow> ret (Inl err)
         | Inr producer \<Rightarrow> do {
             _ \<leftarrow> State (\<lambda>w. ((), w\<lparr>w_producer :=
               m_put (t_publish_to_kafka_topic topic) producer (w_producer w)\<rparr>));
             ret (Inr producer) } } }"

definition publishes :: "topic \<Rightarrow> bool" where
  "publishes topic \<longleftrightarrow>
     t_publish_to_kafka_topic topic \<noteq> [] \<and> t_publish_to_kafka_topic topic \<noteq> ''-''"

definition publishPermission ::
  "('s, 'e, 'p) controller \<Rightarrow> topic \<Rightarrow> string \<Rightarrow> resource_permissions \<Rightarrow>
   (('s, 'e, 'p) world, error option) state" where
  "publishPermission C topic rid permissions =
     (if t_publish_to_kafka_topic topic = [] \<or> t_publish_to_kafka_topic topic = ''-'' then ret None
      else do {
        p \<leftarrow> getProducer C topic;
        case p of
          Inl err \<Rightarrow> ret (Some err)
        | Inr producer \<Rightarrow> on_ext (SendPermissions C producer topic rid permissions) })"

definition setPermission ::
  "('s, 'e, 'p) controller \<Rightarrow> topic \<Rightarrow> resource \<Rightarrow> (('s, 'e, 'p) world, error option) state" where
  "setPermission C topic resource = do {
     let publish = publishes topic;
     now \<leftarrow> on_ext (time_Now C);
     err \<leftarrow> on_db (SetResource (ctl_db C) resource now (\<not> publish));
     case err of
       Some e \<Rightarrow> ret (Some e)
     | None \<Rightarrow>
         if \<not> publish then ret None
         else do {
           err \<leftarrow> publishPermission C topic (r_id resource) (r_permissions resource);
           case err of
             Some e \<Rightarrow> do {
               _ \<leftarrow> notifyError C (''unable to publish permissions update to '' @
                 t_publish_to_kafka_topic topic @ ''; publish will be retried'');
               ret None }
           | None \<Rightarrow> on_db (MarkResourceAsSynced (ctl_db C) (t_id topic) (r_id resource)) } }"

section \<open>Publishing again\<close>

text \<open>One turn of the loop; the cases that \<open>continue\<close> end it.\<close>

definition retry_resource ::
  "('s, 'e, 'p) controller \<Rightarrow> resource \<Rightarrow> (('s, 'e, 'p) world, unit) state" where
  "retry_resource C e = do {
     t \<leftarrow> on_db (GetTopic (ctl_db C) (r_topic_id e));
     case t of
       Inl err \<Rightarrow> ret ()
     | Inr None \<Rightarrow> ret ()
     | Inr (Some topic) \<Rightarrow> do {
         err \<leftarrow> publishPermission C topic (r_id e) (r_permissions e);
         case err of
           Some err \<Rightarrow> ret ()
         | None \<Rightarrow> do {
             _ \<leftarrow> on_db (MarkResourceAsSynced (ctl_db C) (t_id topic) (r_id e));
             ret () } } }"

fun retry_resources ::
  "('s, 'e, 'p) controller \<Rightarrow> resource list \<Rightarrow> (('s, 'e, 'p) world, unit) state" where
  "retry_resources C [] = ret ()"
| "retry_resources C (e # es) = do { _ \<leftarrow> retry_resource C e; retry_resources C es }"

definition RetryPublishOfUnsyncedResources ::
  "('s, 'e, 'p) controller \<Rightarrow> (('s, 'e, 'p) world, error option) state" where
  "RetryPublishOfUnsyncedResources C = do {
     r \<leftarrow> on_db (ListUnsyncedResources (ctl_db C));
     case r of
       Inl err \<Rightarrow> ret (Some err)
     | Inr list \<Rightarrow> do { _ \<leftarrow> retry_resources C list; ret None } }"

text \<open>
  The sync loop reacts to the ticks of its timer until its context is done. An interval of zero
  starts no loop.
\<close>

datatype sync_event = Tick | Done

fun sync_loop :: "('s, 'e, 'p) controller \<Rightarrow> sync_event list \<Rightarrow> (('s, 'e, 'p) world, unit) state" where
  "sync_loop C [] = ret ()"
| "sync_loop C (Tick # events) =
     do { _ \<leftarrow> RetryPublishOfUnsyncedResources C; sync_loop C events }"
| "sync_loop C (Done # events) = ret ()"

definition StartSyncLoop ::
  "('s, 'e, 'p) controller \<Rightarrow> sync_event list \<Rightarrow> (('s, 'e, 'p) world, unit) state" where
  "StartSyncLoop C events =
     (if GetDuration (cfg_SyncCheckInterval (ctl_config C)) = 0 then ret () else sync_loop C events)"

text \<open>
  \<open>remote\<close> is the client of the notification service at a url. The controller starts with an empty
  map of producers and one round of publishing; an error of that round is the result.
\<close>

definition NewWithDependencies ::
  "(string \<Rightarrow> message \<Rightarrow> ('e, error option) state) \<Rightarrow> ('s, 'e, 'p) controller \<Rightarrow>
   (('s, 'e, 'p) world, error + ('s, 'e, 'p) controller) state" where
  "NewWithDependencies remote C = do {
     let C = C\<lparr>SendMessage :=
       (if cfg_DevNotifierUrl (ctl_config C) \<noteq> [] then remote (cfg_DevNotifierUrl (ctl_config C))
        else LogNotifier_SendMessage)\<rparr>;
     _ \<leftarrow> State (\<lambda>w. ((), w\<lparr>w_producer := m_empty\<rparr>));
     err \<leftarrow> RetryPublishOfUnsyncedResources C;
     case err of Some e \<Rightarrow> ret (Inl e) | None \<Rightarrow> ret (Inr C) }"

section \<open>Running in the world\<close>

lemma run_on_db:
  "run_state (on_db m) w = (r, w') \<longleftrightarrow>
   (\<exists>d. run_state m (w_db w) = (r, d) \<and> w' = w\<lparr>w_db := d\<rparr>)"
  by (auto simp: on_db_def split: prod.split)

lemma run_on_ext:
  "run_state (on_ext m) w = (r, w') \<longleftrightarrow>
   (\<exists>e. run_state m (w_ext w) = (r, e) \<and> w' = w\<lparr>w_ext := e\<rparr>)"
  by (auto simp: on_ext_def split: prod.split)

lemma run_bind:
  "run_state (State_Monad.bind m k) s = (r, s') \<longleftrightarrow>
   (\<exists>x s1. run_state m s = (x, s1) \<and> run_state (k x) s1 = (r, s'))"
  by (auto split: prod.split)

lemma run_bind_eq:
  "run_state m s = (x, s1) \<Longrightarrow> run_state (State_Monad.bind m k) s = run_state (k x) s1"
  by simp

lemma run_ret: "run_state (ret x) s = (r, s') \<longleftrightarrow> r = x \<and> s' = s"
  by auto

lemma run_gets: "run_state (State (\<lambda>w. (f w, g w))) s = (r, s') \<longleftrightarrow> r = f s \<and> s' = g s"
  by auto

lemmas run_simps = run_bind run_ret run_gets run_on_db run_on_ext

text \<open>Observations of the database, seen from the world.\<close>

lemma preserves_on_db [preserves_rules]:
  "preserves I f m \<Longrightarrow> preserves (\<lambda>w. I (w_db w)) (\<lambda>w. f (w_db w)) (on_db m)"
  by (auto simp: preserves_def on_db_def split: prod.split)

lemma preserves_on_ext [preserves_rules, simp]:
  "preserves (\<lambda>w. I (w_db w)) (\<lambda>w. f (w_db w)) (on_ext m)"
  by (auto simp: preserves_def on_ext_def split: prod.split)

lemma preserves_modify_producer [preserves_rules, simp]:
  "preserves (\<lambda>w. I (w_db w)) (\<lambda>w. f (w_db w)) (State (\<lambda>w. (r w, w\<lparr>w_producer := g w\<rparr>)))"
  "preserves (\<lambda>w. I (w_db w)) (\<lambda>w. f (w_db w)) (State (\<lambda>w. (r w, w)))"
  by (simp_all add: preserves_def)

lemma preserves_publishPermission:
  "preserves (\<lambda>w. I (w_db w)) (\<lambda>w. f (w_db w)) (publishPermission C topic rid ps)"
  unfolding publishPermission_def getProducer_def by (intro preserves_rules)

lemma preserves_notifyError:
  "preserves (\<lambda>w. I (w_db w)) (\<lambda>w. f (w_db w)) (notifyError C info)"
  unfolding notifyError_def by (intro preserves_rules)

lemma publishes_iff:
  "publishes topic \<longleftrightarrow> \<not> (t_publish_to_kafka_topic topic = [] \<or> t_publish_to_kafka_topic topic = ''-'')"
  by (simp add: publishes_def)

section \<open>What the controller's writes do to the store\<close>

text \<open>
  \<open>wpreserves\<close>: a program of the controller leaves the store as it is; \<open>wmaintains\<close>: it keeps the
  invariant of the database.
\<close>

context database
begin

abbreviation wpreserves where
  "wpreserves \<equiv> preserves (\<lambda>w. invar (w_db w)) (\<lambda>w. store_of (w_db w))"

abbreviation wmaintains where
  "wmaintains \<equiv> preserves (\<lambda>w. invar (w_db w)) (\<lambda>w. ())"

lemma wpreserves_reads:
  "preserves invar store_of m \<Longrightarrow> wpreserves (on_db m)"
  by (rule preserves_on_db)

lemma wmaintains_on_db: "maintains invar m \<Longrightarrow> wmaintains (on_db m)"
  by (auto simp: preserves_def on_db_def split: prod.split)

lemma retry_resource_wpreserves:
  "ctl_db C = db \<Longrightarrow> wpreserves (retry_resource C e)"
  unfolding retry_resource_def
  by (intro preserves_rules preserves_publishPermission) (auto intro!: reads)

lemma retry_resources_wpreserves:
  "ctl_db C = db \<Longrightarrow> wpreserves (retry_resources C es)"
  by (induction es) (auto intro!: preserves_rules retry_resource_wpreserves)

text \<open>Publishing again never changes what is stored.\<close>

lemma retry_wpreserves:
  "ctl_db C = db \<Longrightarrow> wpreserves (RetryPublishOfUnsyncedResources C)"
  unfolding RetryPublishOfUnsyncedResources_def
  by (intro preserves_rules retry_resources_wpreserves) (auto intro!: reads)

lemma setPermission_store:
  assumes C: "ctl_db C = db" and inv: "invar (w_db w)"
    and run: "run_state (setPermission C topic resource) w = (e, w')"
  shows "invar (w_db w')"
    and "store_of (w_db w') = put_resource resource (store_of (w_db w)) \<or>
      (e \<noteq> None \<and> store_of (w_db w') = store_of (w_db w))"
proof -
  obtain now w1 where now: "run_state (on_ext (time_Now C)) w = (now, w1)" by fastforce
  obtain err w2 where set: "run_state (on_db (SetResource db resource now (\<not> publishes topic))) w1 = (err, w2)"
    by fastforce
  from now have w1: "w_db w1 = w_db w" by (auto simp: run_on_ext)
  obtain d where set': "run_state (SetResource db resource now (\<not> publishes topic)) (w_db w) = (err, d)"
    and w2: "w_db w2 = d" using set by (auto simp: run_on_db w1)
  have inv2: "invar (w_db w2)"
    using preservesD [OF maintains_SetResource set' inv] by (simp add: w2)
  note law = SetResource_law [OF inv set', folded w2]
  define rest where "rest = (case err of Some e \<Rightarrow> ret (Some e)
     | None \<Rightarrow> if \<not> publishes topic then ret None
         else do {
           err \<leftarrow> publishPermission C topic (r_id resource) (r_permissions resource);
           case err of
             Some e \<Rightarrow> do {
               _ \<leftarrow> notifyError C (''unable to publish permissions update to '' @
                 t_publish_to_kafka_topic topic @ ''; publish will be retried'');
               ret None }
           | None \<Rightarrow> on_db (MarkResourceAsSynced (ctl_db C) (t_id topic) (r_id resource)) })"
  have rest: "run_state rest w2 = (e, w')"
    using run now set by (simp add: setPermission_def C rest_def Let_def)
  have "wpreserves rest"
    unfolding rest_def C
    by (intro preserves_rules preserves_publishPermission preserves_notifyError) (auto intro!: reads)
  from preservesD [OF this rest inv2] have keep: "invar (w_db w')" "store_of (w_db w') = store_of (w_db w2)"
    by simp_all
  then show "invar (w_db w')" by simp
  show "store_of (w_db w') = put_resource resource (store_of (w_db w)) \<or>
      (e \<noteq> None \<and> store_of (w_db w') = store_of (w_db w))"
  proof (cases err)
    case None
    with law keep(2) show ?thesis by simp
  next
    case (Some x)
    with rest have "e = Some x" by (simp add: rest_def)
    with law keep(2) show ?thesis by auto
  qed
qed

end

end
