(* ===== verification/MockDb.thy ===== *)
theory MockDb
  imports DatabaseIfc
begin

text \<open>
  \<open>pkg/database/mock/mock.go\<close>: the database of the test client, two slices in memory. The mutex
  makes each method one step, so a method is a function on the two slices. The first sections are
  the code, the later ones show that it keeps the contract of \<open>DatabaseIfc\<close>.
\<close>

section \<open>State\<close>

record resource_with_time =
  rt_resource :: resource
  rt_time :: int

record mock =
  mk_resources :: "resource_with_time list"
  mk_topics :: "topic list"

definition Mock_New :: mock where
  "Mock_New = \<lparr>mk_resources = [], mk_topics = []\<rparr>"

section \<open>Permission checks\<close>

definition limitOffset :: "'a list \<Rightarrow> int \<Rightarrow> int \<Rightarrow> 'a list" where
  "limitOffset list limit offset =
     (let result = (if offset > 0 then
                      (if offset > int (length list) then [] else drop (nat offset) list)
                    else list)
      in if limit > 0 then
           (if limit < int (length result) then take (nat limit) result else result)
         else result)"

text \<open>One branch of the switch, for the field the permission selects.\<close>

definition checkPerm_field ::
  "(permissions_map \<Rightarrow> bool) \<Rightarrow> resource_permissions \<Rightarrow> string \<Rightarrow> string list \<Rightarrow> string list \<Rightarrow> bool" where
  "checkPerm_field field rp user roles groups =
     (if field (m_index (rp_user rp) user) then True
      else if list_ex (\<lambda>g. field (m_index (rp_group rp) g)) groups then True
      else list_ex (\<lambda>g. field (m_index (rp_role rp) g)) roles)"

definition checkPerm ::
  "resource_with_time \<Rightarrow> string \<Rightarrow> string list \<Rightarrow> string list \<Rightarrow> permission \<Rightarrow> bool" where
  "checkPerm element user roles groups p =
     (let rp = r_permissions (rt_resource element) in
      if p = Read then checkPerm_field pm_read rp user roles groups
      else if p = Write then checkPerm_field pm_write rp user roles groups
      else if p = Execute then checkPerm_field pm_execute rp user roles groups
      else if p = Administrate then checkPerm_field pm_administrate rp user roles groups
      else False)"

fun checkPerms ::
  "resource_with_time \<Rightarrow> string \<Rightarrow> string list \<Rightarrow> string list \<Rightarrow> permission list \<Rightarrow> bool" where
  "checkPerms element user roles groups [] = True"
| "checkPerms element user roles groups (p # ps) =
     (if \<not> checkPerm element user roles groups p then False
      else checkPerms element user roles groups ps)"

section \<open>Resources\<close>

definition rt_key :: "resource_with_time \<Rightarrow> string \<times> string" where
  "rt_key e = (r_topic_id (rt_resource e), r_id (rt_resource e))"

definition Mock_MarkResourceAsSynced :: "string \<Rightarrow> string \<Rightarrow> (mock, error option) state" where
  "Mock_MarkResourceAsSynced topicId rid = ret None"

definition Mock_ListUnsyncedResources :: "(mock, error + resource list) state" where
  "Mock_ListUnsyncedResources = ret (Inr [])"

definition Mock_DeleteResource :: "string \<Rightarrow> string \<Rightarrow> (mock, error option) state" where
  "Mock_DeleteResource topicId rid = State (\<lambda>s.
     (None, s\<lparr>mk_resources := filter (\<lambda>e. \<not> rt_key e = (topicId, rid)) (mk_resources s)\<rparr>))"

definition Mock_SetResource :: "resource \<Rightarrow> int \<Rightarrow> bool \<Rightarrow> (mock, error option) state" where
  "Mock_SetResource r t synced = State (\<lambda>s.
     (None, s\<lparr>mk_resources :=
        upsert (\<lambda>e. rt_key e = (r_topic_id r, r_id r)) \<lparr>rt_resource = r, rt_time = t\<rparr>
          (mk_resources s)\<rparr>))"

definition Mock_ListResourcesByPermissions ::
  "string \<Rightarrow> string \<Rightarrow> string list \<Rightarrow> string list \<Rightarrow> list_options \<Rightarrow> permission list \<Rightarrow>
   (mock, error + resource list) state" where
  "Mock_ListResourcesByPermissions topicId userId roleIds groupIds options permissions = State (\<lambda>s.
     (Inr (limitOffset
        (sort_key r_id (map rt_resource
           (filter (\<lambda>e. r_topic_id (rt_resource e) = topicId \<and>
                        checkPerms e userId roleIds groupIds permissions) (mk_resources s))))
        (lo_limit options) (lo_offset options)), s))"

definition Mock_AdminListResourceIds ::
  "string \<Rightarrow> list_options \<Rightarrow> (mock, error + string list) state" where
  "Mock_AdminListResourceIds topicId options = State (\<lambda>s.
     (Inr (limitOffset
        (sort (map (\<lambda>e. r_id (rt_resource e))
           (filter (\<lambda>e. r_topic_id (rt_resource e) = topicId) (mk_resources s))))
        (lo_limit options) (lo_offset options)), s))"

definition Mock_AdminListResources ::
  "string \<Rightarrow> list_options \<Rightarrow> (mock, error + resource list) state" where
  "Mock_AdminListResources topicId options = State (\<lambda>s.
     (Inr (limitOffset
        (sort_key r_id (map rt_resource
           (filter (\<lambda>e. r_topic_id (rt_resource e) = topicId \<and>
              (case lo_ids options of None \<Rightarrow> True
               | Some ids \<Rightarrow> List.member ids (r_id (rt_resource e)))) (mk_resources s))))
        (lo_limit options) (lo_offset options)), s))"

definition Mock_ListResourceIdsByPermissions ::
  "string \<Rightarrow> string \<Rightarrow> string list \<Rightarrow> string list \<Rightarrow> list_options \<Rightarrow> permission list \<Rightarrow>
   (mock, error + string list) state" where
  "Mock_ListResourceIdsByPermissions topicId userId roleIds groupIds options permissions = do {
     l \<leftarrow> Mock_ListResourcesByPermissions topicId userId roleIds groupIds options permissions;
     case l of Inl err \<Rightarrow> ret (Inl err) | Inr list \<Rightarrow> ret (Inr (map r_id list)) }"

definition Mock_GetResource :: "string \<Rightarrow> string \<Rightarrow> get_options \<Rightarrow> (mock, error + resource) state" where
  "Mock_GetResource topicId rid options = State (\<lambda>s.
     (case find (\<lambda>e. rt_key e = (topicId, rid)) (mk_resources s) of
        None \<Rightarrow> Inl ErrNotFound
      | Some element \<Rightarrow>
          if go_check_permission options \<and>
             \<not> checkPerms element (go_user_id options) (go_role_ids options) (go_group_ids options)
                (go_permissions options)
          then Inl PermissionCheckFailed
          else Inr (rt_resource element), s))"

fun Mock_check_loop ::
  "string \<Rightarrow> get_options \<Rightarrow> string list \<Rightarrow> (string, bool) alist \<Rightarrow>
   (mock, error + (string, bool) alist) state" where
  "Mock_check_loop topicId options [] result = ret (Inr result)"
| "Mock_check_loop topicId options (rid # ids) result = do {
     r \<leftarrow> Mock_GetResource topicId rid options;
     case r of
       Inl err \<Rightarrow>
         if errors_is err PermissionCheckFailed then
           Mock_check_loop topicId options ids (DAList.update rid False result)
         else if errors_is err ErrNotFound then Mock_check_loop topicId options ids result
         else ret (Inl err)
     | Inr _ \<Rightarrow> Mock_check_loop topicId options ids (DAList.update rid True result) }"

definition check_options ::
  "string \<Rightarrow> string list \<Rightarrow> string list \<Rightarrow> permission list \<Rightarrow> get_options" where
  "check_options userId roleIds groupIds permissions =
     \<lparr>go_check_permission = True, go_user_id = userId, go_group_ids = groupIds,
      go_role_ids = roleIds, go_permissions = permissions\<rparr>"

definition Mock_CheckMultipleResourcePermissions ::
  "string \<Rightarrow> string list \<Rightarrow> string \<Rightarrow> string list \<Rightarrow> string list \<Rightarrow> permission list \<Rightarrow>
   (mock, error + (string, bool) alist) state" where
  "Mock_CheckMultipleResourcePermissions topicId ids userId roleIds groupIds permissions =
     Mock_check_loop topicId (check_options userId roleIds groupIds permissions) ids DAList.empty"

definition Mock_CheckResourcePermissions ::
  "string \<Rightarrow> string \<Rightarrow> string \<Rightarrow> string list \<Rightarrow> string list \<Rightarrow> permission list \<Rightarrow>
   (mock, error + bool) state" where
  "Mock_CheckResourcePermissions topicId rid userId roleIds groupIds permissions = do {
     r \<leftarrow> Mock_GetResource topicId rid (check_options userId roleIds groupIds permissions);
     case r of
       Inl err \<Rightarrow>
         ret (if errors_is err ErrNotFound \<or> errors_is err PermissionCheckFailed
              then Inr False else Inl err)
     | Inr _ \<Rightarrow> ret (Inr True) }"

section \<open>Topics\<close>

definition Mock_SetTopic :: "topic \<Rightarrow> (mock, error option) state" where
  "Mock_SetTopic topic = State (\<lambda>s.
     (None, s\<lparr>mk_topics := upsert (\<lambda>e. t_id e = t_id topic) topic (mk_topics s)\<rparr>))"

definition Mock_GetTopic :: "string \<Rightarrow> (mock, error + topic option) state" where
  "Mock_GetTopic tid = State (\<lambda>s. (Inr (find (\<lambda>e. t_id e = tid) (mk_topics s)), s))"

definition Mock_ListTopics :: "list_options \<Rightarrow> (mock, error + topic list) state" where
  "Mock_ListTopics options = State (\<lambda>s.
     (Inr (limitOffset (mk_topics s) (lo_limit options) (lo_offset options)), s))"

definition Mock_DeleteTopic :: "string \<Rightarrow> (mock, error option) state" where
  "Mock_DeleteTopic tid = State (\<lambda>s.
     (None, s\<lparr>mk_topics := filter (\<lambda>t. \<not> t_id t = tid) (mk_topics s),
              mk_resources := filter (\<lambda>e. \<not> r_topic_id (rt_resource e) = tid) (mk_resources s)\<rparr>))"

definition mock_db :: "mock database" where
  "mock_db =
     \<lparr>MarkResourceAsSynced = Mock_MarkResourceAsSynced,
      SetResource = Mock_SetResource,
      GetResource = Mock_GetResource,
      DeleteResource = Mock_DeleteResource,
      ListUnsyncedResources = Mock_ListUnsyncedResources,
      AdminListResourceIds = Mock_AdminListResourceIds,
      AdminListResources = Mock_AdminListResources,
      ListResourcesByPermissions = Mock_ListResourcesByPermissions,
      ListResourceIdsByPermissions = Mock_ListResourceIdsByPermissions,
      CheckMultipleResourcePermissions = Mock_CheckMultipleResourcePermissions,
      CheckResourcePermissions = Mock_CheckResourcePermissions,
      SetTopic = Mock_SetTopic,
      GetTopic = Mock_GetTopic,
      ListTopics = Mock_ListTopics,
      DeleteTopic = Mock_DeleteTopic\<rparr>"

lemmas mock_read_defs = Mock_MarkResourceAsSynced_def Mock_GetResource_def
  Mock_ListUnsyncedResources_def Mock_AdminListResourceIds_def Mock_AdminListResources_def
  Mock_ListResourcesByPermissions_def Mock_GetTopic_def Mock_ListTopics_def

lemmas mock_write_defs = Mock_SetResource_def Mock_DeleteResource_def Mock_SetTopic_def
  Mock_DeleteTopic_def

section \<open>Abstraction and invariant\<close>

definition mock_store :: "mock \<Rightarrow> store" where
  "mock_store s =
     \<lparr>st_topics = (\<lambda>i. map_option topic_core (find (\<lambda>t. t_id t = i) (mk_topics s))),
      st_resources = (\<lambda>t i. map_option (\<lambda>e. acl_of (r_permissions (rt_resource e)))
         (find (\<lambda>e. rt_key e = (t, i)) (mk_resources s)))\<rparr>"

definition mock_invar :: "mock \<Rightarrow> bool" where
  "mock_invar s \<longleftrightarrow> distinct (map rt_key (mk_resources s)) \<and> distinct (map t_id (mk_topics s))"

lemma mock_invar_New: "mock_invar Mock_New"
  by (simp add: mock_invar_def Mock_New_def)

lemma limitOffset_page: "limitOffset xs l n = page l n xs"
  by (auto simp: limitOffset_def page_def Let_def)

lemma checkPerm_grants:
  "checkPerm e u rs gs p \<longleftrightarrow> acl_grants (acl_of (r_permissions (rt_resource e))) u rs gs p"
  by (auto simp: checkPerm_def checkPerm_field_def acl_grants_def acl_of_def pm_has_def list_ex_iff
      Let_def)

lemma checkPerms_grants:
  "checkPerms e u rs gs ps \<longleftrightarrow> acl_grants_all (acl_of (r_permissions (rt_resource e))) u rs gs ps"
  by (induction ps) (auto simp: acl_grants_all_def checkPerm_grants)

text \<open>The resources of a topic that satisfy a condition, as the list methods collect them.\<close>

lemma mock_lists_resources:
  assumes inv: "mock_invar s"
    and P: "\<And>e. e \<in> set (mk_resources s) \<Longrightarrow>
      Q e = P (r_id (rt_resource e)) (acl_of (r_permissions (rt_resource e)))"
  shows "lists_resources (mock_store s) t P
    (sort_key r_id (map rt_resource
       (filter (\<lambda>e. r_topic_id (rt_resource e) = t \<and> Q e) (mk_resources s))))"
proof -
  let ?l = "map rt_resource (filter (\<lambda>e. r_topic_id (rt_resource e) = t \<and> Q e) (mk_resources s))"
  have "distinct (map (\<lambda>e. r_id (rt_resource e))
      (filter (\<lambda>e. r_topic_id (rt_resource e) = t \<and> Q e) (mk_resources s)))"
    using inv by (intro distinct_second_key) (simp add: mock_invar_def rt_key_def [abs_def])
  then have "distinct (map r_id ?l)" by (simp add: o_def)
  moreover have "(\<lambda>r. (r_id r, acl_of (r_permissions r))) ` set ?l =
      {(i, a). st_resources (mock_store s) t i = Some a \<and> P i a}"
  proof -
    have found: "find (\<lambda>e. rt_key e = (t, i)) (mk_resources s) = Some e \<longleftrightarrow>
        e \<in> set (mk_resources s) \<and> rt_key e = (t, i)" for e i
      using inv find_distinct_key [of rt_key "mk_resources s" "(t, i)" e]
      by (simp add: mock_invar_def)
    show ?thesis
    proof (intro set_eqI iffI)
      fix x assume "x \<in> (\<lambda>r. (r_id r, acl_of (r_permissions r))) ` set ?l"
      then obtain e where e: "e \<in> set (mk_resources s)" "r_topic_id (rt_resource e) = t" "Q e"
        "x = (r_id (rt_resource e), acl_of (r_permissions (rt_resource e)))"
        by auto
      then have "find (\<lambda>d. rt_key d = (t, r_id (rt_resource e))) (mk_resources s) = Some e"
        by (simp add: found) (simp add: rt_key_def)
      with e show "x \<in> {(i, a). st_resources (mock_store s) t i = Some a \<and> P i a}"
        by (simp add: mock_store_def P)
    next
      fix x assume "x \<in> {(i, a). st_resources (mock_store s) t i = Some a \<and> P i a}"
      then obtain i e where "find (\<lambda>d. rt_key d = (t, i)) (mk_resources s) = Some e"
        "x = (i, acl_of (r_permissions (rt_resource e)))" "P i (acl_of (r_permissions (rt_resource e)))"
        by (auto simp: mock_store_def)
      moreover from this have "e \<in> set (mk_resources s)" "rt_key e = (t, i)"
        by (simp_all add: found)
      ultimately show "x \<in> (\<lambda>r. (r_id r, acl_of (r_permissions r))) ` set ?l"
        by (auto simp: rt_key_def P image_iff)
    qed
  qed
  ultimately show ?thesis
    by (auto simp: lists_resources_def)
qed

section \<open>The contract holds\<close>

lemma preserves_reading: "(\<And>s. snd (run_state m s) = s) \<Longrightarrow> preserves I f m"
  by (simp add: preserves_def)

lemma Mock_check_loop_state [simp]:
  "snd (run_state (Mock_check_loop t opts ids m) s) = s"
  by (induction ids arbitrary: m)
    (auto simp: Mock_GetResource_def split: sum.split prod.split option.split)

lemma Mock_check_loop_result:
  assumes "go_check_permission opts"
  shows "fst (run_state (Mock_check_loop t opts ids m) s) = Inr m' \<Longrightarrow>
    DAList.lookup m' i =
      (if i \<in> set ids
       then (case st_resources (mock_store s) t i of None \<Rightarrow> DAList.lookup m i
             | Some a \<Rightarrow> Some (acl_grants_all a (go_user_id opts) (go_role_ids opts)
                 (go_group_ids opts) (go_permissions opts)))
       else DAList.lookup m i)"
proof (induction ids arbitrary: m)
  case (Cons j ids)
  show ?case
  proof (cases "find (\<lambda>e. rt_key e = (t, j)) (mk_resources s)")
    case None
    with Cons show ?thesis
      by (auto simp: Mock_GetResource_def mock_store_def split: option.splits)
  next
    case (Some e)
    with Cons assms show ?thesis
      by (auto simp: Mock_GetResource_def mock_store_def checkPerms_grants lookup_update
          split: option.splits if_splits)
  qed
qed simp

text \<open>The writes on the abstract store.\<close>

lemma mock_store_put_resource:
  assumes "mock_invar s"
  shows "mock_store (s\<lparr>mk_resources := upsert (\<lambda>e. rt_key e = (r_topic_id r, r_id r))
     \<lparr>rt_resource = r, rt_time = time\<rparr> (mk_resources s)\<rparr>) = put_resource r (mock_store s)"
proof -
  let ?y = "\<lparr>rt_resource = r, rt_time = time\<rparr>"
  have y: "rt_key ?y = (r_topic_id r, r_id r)" by (simp add: rt_key_def)
  have "distinct (map rt_key (mk_resources s))" using assms by (simp add: mock_invar_def)
  from find_upsert [OF this, of _ ?y] y show ?thesis
    by (intro store_eqI) (simp_all add: mock_store_def)
qed

lemma mock_store_drop_resource:
  "mock_store (s\<lparr>mk_resources := filter (\<lambda>e. rt_key e \<noteq> (t, i)) (mk_resources s)\<rparr>) =
   drop_resource t i (mock_store s)"
  using find_filter_key [of rt_key _ "\<lambda>k. k = (t, i)" "mk_resources s"]
  by (intro store_eqI) (simp_all add: mock_store_def)

lemma mock_store_put_topic:
  assumes "mock_invar s"
  shows "mock_store (s\<lparr>mk_topics := upsert (\<lambda>e. t_id e = t_id t) t (mk_topics s)\<rparr>) =
    put_topic t (mock_store s)"
  using assms find_upsert [of t_id "mk_topics s" _ t]
  by (intro store_eqI) (simp_all add: mock_store_def mock_invar_def fun_eq_iff)

lemma mock_store_drop_topic:
  "mock_store (s\<lparr>mk_topics := filter (\<lambda>t. t_id t \<noteq> i) (mk_topics s),
      mk_resources := filter (\<lambda>e. r_topic_id (rt_resource e) \<noteq> i) (mk_resources s)\<rparr>) =
   drop_topic i (mock_store s)"
proof -
  have "find (\<lambda>e. rt_key e = k) (filter (\<lambda>e. r_topic_id (rt_resource e) \<noteq> i) (mk_resources s)) =
      (if fst k = i then None else find (\<lambda>e. rt_key e = k) (mk_resources s))" for k
    using find_filter_key [of rt_key k "\<lambda>k. fst k = i" "mk_resources s"]
    by (simp add: rt_key_def [abs_def])
  then show ?thesis
    using find_filter_key [of t_id _ "\<lambda>k. k = i" "mk_topics s"]
    by (intro store_eqI) (simp_all add: mock_store_def fun_eq_iff)
qed

lemmas mock_store_writes = mock_store_put_resource mock_store_drop_resource mock_store_put_topic
  mock_store_drop_topic

interpretation mock: database mock_db mock_store mock_invar
proof (unfold_locales, goal_cases)
  case 1 show ?case by (rule preserves_reading) (simp add: mock_db_def mock_read_defs)
next
  case 2 show ?case by (rule preserves_reading) (simp add: mock_db_def mock_read_defs)
next
  case 3 show ?case by (rule preserves_reading) (simp add: mock_db_def mock_read_defs)
next
  case 4 show ?case by (rule preserves_reading) (simp add: mock_db_def mock_read_defs)
next
  case 5 show ?case by (rule preserves_reading) (simp add: mock_db_def mock_read_defs)
next
  case 6 show ?case by (rule preserves_reading) (simp add: mock_db_def mock_read_defs)
next
  case 7 show ?case
    by (rule preserves_reading)
      (simp add: mock_db_def Mock_ListResourceIdsByPermissions_def mock_read_defs split: sum.split)
next
  case 8 show ?case
    by (rule preserves_reading) (simp add: mock_db_def Mock_CheckMultipleResourcePermissions_def)
next
  case 9 show ?case
    by (rule preserves_reading)
      (simp add: mock_db_def Mock_CheckResourcePermissions_def Mock_GetResource_def split: sum.split)
next
  case 10 show ?case by (rule preserves_reading) (simp add: mock_db_def mock_read_defs)
next
  case 11 show ?case by (rule preserves_reading) (simp add: mock_db_def mock_read_defs)
next
  case (12 r time synced)
  let ?y = "\<lparr>rt_resource = r, rt_time = time\<rparr>"
  have "(r_topic_id r, r_id r) = rt_key ?y" by (simp add: rt_key_def)
  then show ?case
    by (simp add: preserves_def mock_db_def mock_write_defs mock_invar_def distinct_upsert)
next
  case 13 show ?case
    by (auto simp: preserves_def mock_db_def mock_write_defs mock_invar_def distinct_map_filter)
next
  case 14 show ?case
    by (auto simp: preserves_def mock_db_def mock_write_defs mock_invar_def distinct_upsert)
next
  case 15 show ?case
    by (auto simp: preserves_def mock_db_def mock_write_defs mock_invar_def distinct_map_filter)
next
  case 16 then show ?case by (auto simp: mock_db_def mock_read_defs mock_store_def dest!: find_keyD)
next
  case (17 s t i) then show ?case
    by (auto simp: mock_db_def mock_read_defs mock_store_def checkPerms_grants
        split: option.splits if_splits dest!: find_keyD) (auto simp: rt_key_def)
next
  case 18 then show ?case
    by (auto simp: mock_db_def mock_read_defs mock_store_def split: option.splits if_splits)
next
  case 19 then show ?case
    by (auto simp: mock_db_def mock_read_defs mock_store_def checkPerms_grants
        split: option.splits if_splits)
next
  case 20 then show ?case
    by (auto simp: mock_db_def Mock_CheckResourcePermissions_def Mock_GetResource_def mock_store_def
        checkPerms_grants check_options_def split: option.splits if_splits)
next
  case (21 s t "is" u rs gs ps m s' i)
  then have "fst (run_state (Mock_check_loop t (check_options u rs gs ps) is DAList.empty) s) = Inr m"
    by (simp add: mock_db_def Mock_CheckMultipleResourcePermissions_def)
  then show ?case
    by (subst Mock_check_loop_result) (auto simp: check_options_def split: option.split)
next
  case (22 s t opt l s')
  let ?Q = "\<lambda>e. case lo_ids opt of None \<Rightarrow> True | Some ids \<Rightarrow> List.member ids (r_id (rt_resource e))"
  have "lists_resources (mock_store s) t (\<lambda>i a. in_ids opt i)
      (sort_key r_id (map rt_resource
         (filter (\<lambda>e. r_topic_id (rt_resource e) = t \<and> ?Q e) (mk_resources s))))"
    using 22 by (intro mock_lists_resources) (auto simp: in_ids_def split: option.split)
  with 22 show ?case
    by (auto simp: mock_db_def mock_read_defs limitOffset_page)
next
  case (23 s t opt l s')
  let ?l = "sort_key r_id (map rt_resource
    (filter (\<lambda>e. r_topic_id (rt_resource e) = t \<and> True) (mk_resources s)))"
  have "lists_resources (mock_store s) t (\<lambda>i a. True) ?l"
    using 23 by (intro mock_lists_resources) simp_all
  moreover have "l = page (lo_limit opt) (lo_offset opt) (map r_id ?l)"
    using 23 by (auto simp: mock_db_def mock_read_defs limitOffset_page map_sort_key o_def)
  ultimately show ?case by blast
next
  case (24 s t u rs gs opt ps l s')
  let ?l = "sort_key r_id (map rt_resource
    (filter (\<lambda>e. r_topic_id (rt_resource e) = t \<and> checkPerms e u rs gs ps) (mk_resources s)))"
  have "lists_resources (mock_store s) t (\<lambda>i a. acl_grants_all a u rs gs ps) ?l"
    using 24 by (intro mock_lists_resources) (simp_all add: checkPerms_grants)
  with 24 show ?case
    by (auto simp: mock_db_def mock_read_defs limitOffset_page)
next
  case (25 s t u rs gs opt ps l s')
  let ?l = "sort_key r_id (map rt_resource
    (filter (\<lambda>e. r_topic_id (rt_resource e) = t \<and> checkPerms e u rs gs ps) (mk_resources s)))"
  have "lists_resources (mock_store s) t (\<lambda>i a. acl_grants_all a u rs gs ps) ?l"
    using 25 by (intro mock_lists_resources) (simp_all add: checkPerms_grants)
  with 25 show ?case
    by (auto simp: mock_db_def Mock_ListResourceIdsByPermissions_def mock_read_defs limitOffset_page
        map_page)
next
  case (26 s ts s')
  then show ?case
    by (auto simp: mock_db_def mock_read_defs mock_invar_def mock_store_def limitOffset_page
        default_list_options_def find_distinct_key)
next
  case 27 then show ?case by (auto simp: mock_db_def mock_write_defs mock_store_writes)
next
  case 28 then show ?case by (auto simp: mock_db_def mock_write_defs mock_store_writes)
next
  case 29 then show ?case by (auto simp: mock_db_def mock_write_defs mock_store_writes)
next
  case 30 then show ?case by (auto simp: mock_db_def mock_write_defs mock_store_writes)
qed (simp_all add: mock_db_def mock_write_defs)

end
