(* ===== verification/Samples.thy ===== *)
theory Samples
  imports Controller MockDb
begin

text \<open>
  A small service to run the theorems on: the mock database with two topics and two resources,
  three users, and a Kafka that records what is published.
\<close>

definition alice :: token where
  "alice = \<lparr>GetUserId = ''alice'', GetRoles = [''user''], GetGroups = [''/team''], IsAdmin = False,
     HasGroup = (\<lambda>g. g = ''/team''), Jwt = ''Bearer alice''\<rparr>"

definition bob :: token where
  "bob = \<lparr>GetUserId = ''bob'', GetRoles = [''user''], GetGroups = [], IsAdmin = False,
     HasGroup = (\<lambda>g. False), Jwt = ''Bearer bob''\<rparr>"

definition root :: token where
  "root = \<lparr>GetUserId = ''root'', GetRoles = [''admin''], GetGroups = [], IsAdmin = True,
     HasGroup = (\<lambda>g. False), Jwt = ''Bearer root''\<rparr>"

definition sample_parse :: "string \<Rightarrow> error + token" where
  "sample_parse s =
     (if s = ''Bearer alice'' then Inr alice else if s = ''Bearer bob'' then Inr bob
      else if s = ''Bearer root'' then Inr root else Inl (ErrLib ''invalid token''))"

text \<open>The outside: what was published, as topic and key, and whether Kafka can be reached.\<close>

record sample_ext =
  se_published :: "(string \<times> string \<times> resource_permissions) list"
  se_kafka_up :: bool

definition sample_config :: config where
  "sample_config = empty_config\<lparr>cfg_OnlyAdminsMayEditRolePermissions := True\<rparr>"

definition sample_controller :: "(mock, sample_ext, string) controller" where
  "sample_controller =
     \<lparr>ctl_config = sample_config,
      ctl_db = mock_db,
      SendMessage = LogNotifier_SendMessage,
      GetProducer = (\<lambda>_ topic. ret (Inr (t_publish_to_kafka_topic topic))),
      SendPermissions = (\<lambda>p _ i permissions. State (\<lambda>e.
        if se_kafka_up e then (None, e\<lparr>se_published := se_published e @ [(p, i, permissions)]\<rparr>)
        else (Some (ErrLib ''no broker''), e))),
      jwt_Parse = sample_parse,
      time_Now = ret 1000,
      http_do = (\<lambda>_. ret (Inl (ErrLib ''no route''))),
      decode_users = (\<lambda>_. Inl (ErrLib ''no json'')),
      decode_search = (\<lambda>_. Inl (ErrLib ''no json''))\<rparr>"

definition read_only :: permissions_map where
  "read_only = no_permissions\<lparr>pm_read := True\<rparr>"

definition devices :: topic where
  "devices = \<lparr>t_id = ''devices'', t_publish_to_kafka_topic = ''devices'',
     t_ensure_kafka_topic_init = False, t_ensure_kafka_topic_init_partition_number = 0,
     t_last_update_unix_timestamp = 0, t_default_permissions = nil_permissions\<rparr>"

definition device_types :: topic where
  "device_types = devices\<lparr>t_id := ''device-types'', t_publish_to_kafka_topic := [],
     t_default_permissions := nil_permissions\<lparr>rp_role := m_put ''user'' read_only m_empty\<rparr>\<rparr>"

text \<open>Alice owns the device, the role \<open>user\<close> may read it.\<close>

definition device :: resource where
  "device = \<lparr>r_id = ''d'', r_topic_id = ''devices'', r_permissions =
     \<lparr>rp_user = m_put ''alice'' all_permissions m_empty, rp_group = None,
      rp_role = m_put ''user'' read_only m_empty\<rparr>\<rparr>"

definition device_type :: resource where
  "device_type = \<lparr>r_id = ''dt'', r_topic_id = ''device-types'', r_permissions =
     \<lparr>rp_user = m_put ''root'' all_permissions m_empty, rp_group = None, rp_role = None\<rparr>\<rparr>"

definition sample_world :: "(mock, sample_ext, string) world" where
  "sample_world =
     \<lparr>w_db = \<lparr>mk_resources =
          [\<lparr>rt_resource = device, rt_time = 1\<rparr>, \<lparr>rt_resource = device_type, rt_time = 2\<rparr>],
        mk_topics = [devices, device_types]\<rparr>,
      w_ext = \<lparr>se_published = [], se_kafka_up = True\<rparr>, w_producer = m_empty\<rparr>"

lemma sample_invar: "mock_invar (w_db sample_world)"
  by (simp add: mock_invar_def sample_world_def device_def device_type_def devices_def
      device_types_def rt_key_def)

lemma sample_db [simp]: "ctl_db sample_controller = mock_db"
  by (simp add: sample_controller_def)

lemma sample_parse [simp]:
  "jwt_Parse sample_controller ''Bearer alice'' = Inr alice"
  "jwt_Parse sample_controller ''Bearer bob'' = Inr bob"
  "jwt_Parse sample_controller ''Bearer root'' = Inr root"
  by (simp_all add: sample_controller_def sample_parse_def)

end
