(* ===== verification/SyncContract.thy ===== *)
theory SyncContract
  imports MongoContract Samples
begin

text \<open>
  Two more interfaces, for the question whether what is published agrees with what is stored.
  \<open>synced_database\<close> adds to the contract of the database which entries are marked as published;
  \<open>publisher\<close> says what the producers and the notifier of a controller do to the outside. Both are
  interpreted: the first for the production database over every driver with the documented behaviour
  and for the mock, the second for the Kafka producer over every client library that appends the
  messages it is given.
\<close>

section \<open>Entries marked as published\<close>

text \<open>
  \<open>synced s\<close> holds topic and id of the entries marked as published. \<open>SetResource\<close> sets the mark as it
  is told, \<open>MarkResourceAsSynced\<close> sets it for one entry, no read sets it.
\<close>

locale synced_database = database +
  fixes synced :: "'a \<Rightarrow> (string \<times> string) set"
  assumes synced_stored:
    "invar s \<Longrightarrow> (t, i) \<in> synced s \<Longrightarrow> st_resources (store_of s) t i \<noteq> None"
    and GetTopic_synced: "preserves invar synced (GetTopic db i)"
    and GetResource_synced: "preserves invar synced (GetResource db t i opts)"
    and CheckResourcePermissions_synced:
      "preserves invar synced (CheckResourcePermissions db t i u rs gs ps)"
    and ListUnsyncedResources_synced: "preserves invar synced (ListUnsyncedResources db)"
    and MarkResourceAsSynced_synced:
      "invar s \<Longrightarrow> run_state (MarkResourceAsSynced db t i) s = (e, s') \<Longrightarrow>
       synced s' \<subseteq> insert (t, i) (synced s)"
    and SetResource_synced:
      "invar s \<Longrightarrow> run_state (SetResource db r time b) s = (e, s') \<Longrightarrow>
       (e \<noteq> None \<and> store_of s' = store_of s \<and> synced s' = synced s) \<or>
       (store_of s' = put_resource r (store_of s) \<and>
        synced s' \<subseteq> (if b then insert (r_topic_id r, r_id r) (synced s)
                     else synced s - {(r_topic_id r, r_id r)}))"
    and DeleteResource_synced:
      "invar s \<Longrightarrow> run_state (DeleteResource db t i) s = (e, s') \<Longrightarrow> synced s' \<subseteq> synced s"
    and ListUnsyncedResources_stored:
      "invar s \<Longrightarrow> run_state (ListUnsyncedResources db) s = (Inr l, s') \<Longrightarrow> r \<in> set l \<Longrightarrow>
       st_resources (store_of s) (r_topic_id r) (r_id r) = Some (acl_of (r_permissions r))"

definition mongo_synced :: "('m \<Rightarrow> permissions_entry list) \<Rightarrow> 'm \<Rightarrow> (string \<times> string) set" where
  "mongo_synced perms s = pe_key ` {e \<in> set (perms s). pe_synced e}"

lemma mongo_synced_cong: "P s' = P s \<Longrightarrow> mongo_synced P s' = mongo_synced P s"
  by (simp add: mongo_synced_def)

lemma mongo_reads_synced:
  assumes laws: "driver_laws D P T"
  shows "run_state (Mongo_GetTopic D i) s = (q1, s') \<Longrightarrow> P s' = P s"
    and "run_state (Mongo_GetResource D t i opts) s = (q2, s') \<Longrightarrow> P s' = P s"
    and "run_state (Mongo_CheckResourcePermissions D t i u rs gs ps) s = (q3, s') \<Longrightarrow> P s' = P s"
    and "run_state (Mongo_ListUnsyncedResources D) s = (q4, s') \<Longrightarrow> P s' = P s"
proof -
  show "run_state (Mongo_GetTopic D i) s = (q1, s') \<Longrightarrow> P s' = P s"
    using coll_FindOne_law(2) [OF topics_laws(2) [OF laws]]
    by (auto simp: Mongo_GetTopic_def split: prod.splits sum.splits)
  show "run_state (Mongo_GetResource D t i opts) s = (q2, s') \<Longrightarrow> P s' = P s"
    using coll_FindOne_law(1) [OF perms_laws(2) [OF laws]]
    by (auto simp: Mongo_GetResource_def split: prod.splits sum.splits if_splits)
  show "run_state (Mongo_CheckResourcePermissions D t i u rs gs ps) s = (q3, s') \<Longrightarrow> P s' = P s"
    using find_all_state [OF perms_laws(1) [OF laws]]
    by (fastforce simp: Mongo_CheckResourcePermissions_def Mongo_CheckMultipleResourcePermissions_def
        split: prod.splits sum.splits)
  obtain now s1 where now: "run_state (mongo_now D) s = (now, s1)" by fastforce
  have "P s1 = P s" using laws preservesD [OF _ now] by (auto simp: driver_laws_def)
  then show "run_state (Mongo_ListUnsyncedResources D) s = (q4, s') \<Longrightarrow> P s' = P s"
    using find_all_state [OF perms_laws(1) [OF laws]] now
    by (simp add: Mongo_ListUnsyncedResources_def) (drule find_all_state [OF perms_laws(1) [OF laws]], simp)
qed

lemma preserves_same: "(\<And>s r s'. run_state m s = (r, s') \<Longrightarrow> f s' = f s) \<Longrightarrow> maintains I m \<Longrightarrow> preserves I f m"
  by (metis preserves_def surjective_pairing)

lemma mongo_Mark_synced:
  assumes laws: "driver_laws D P T" and run: "run_state (Mongo_MarkResourceAsSynced D t i) s = (e, s')"
  shows "mongo_synced P s' \<subseteq> insert (t, i) (mongo_synced P s)"
proof -
  let ?f = "\<lambda>sel d. if sel d \<and> sat entry_field (key_filter t i) d
    then entry_set (PermissionsEntrySyncedBson, BBool True) d else d"
  from coll_UpdateMany_law(2) [OF perms_laws(4) [OF laws] run [unfolded Mongo_MarkResourceAsSynced_def]]
  obtain sel where "P s' = map (?f sel) (P s) \<and> (e = None \<longrightarrow> sel = (\<lambda>_. True))" ..
  then have P: "P s' = map (?f sel) (P s)" by simp
  have "pe_key (?f sel d) \<in> insert (t, i) (mongo_synced P s)" if "d \<in> set (P s)" "pe_synced (?f sel d)" for d
    using that by (cases "sel d \<and> pe_key d = (t, i)") (auto simp: mongo_synced_def)
  then show ?thesis unfolding mongo_synced_def P by (simp only: set_map) blast
qed

lemma mongo_Set_synced:
  assumes laws: "driver_laws D P T" and inv: "mongo_invar P T s"
    and run: "run_state (Mongo_SetPermissions D t i p time b) s = (e, s')"
  shows "(e \<noteq> None \<and> P s' = P s \<and> T s' = T s) \<or>
    (mongo_store P T s' = put_resource \<lparr>r_id = i, r_topic_id = t, r_permissions = p\<rparr> (mongo_store P T s) \<and>
     mongo_synced P s' \<subseteq> (if b then insert (t, i) (mongo_synced P s) else mongo_synced P s - {(t, i)}))"
proof -
  let ?doc = "setResourcePermissions p (empty_entry t i time b)"
  have key: "pe_key ?doc = (t, i)" by (simp add: pe_key_def empty_entry_def)
  have sync: "pe_synced ?doc = b" by (simp add: empty_entry_def)
  have "run_state (coll_ReplaceOne (permissionsCollection D) (key_filter t i) ?doc True) s = (e, s')"
    using run by (simp add: Mongo_SetPermissions_def Let_def empty_entry_def)
  note written = coll_ReplaceOne_law [OF perms_laws(3) [OF laws] this]
  consider "replaced (\<lambda>d. pe_key d = pe_key ?doc) ?doc True (mset (P s)) (mset (P s'))"
    | "e \<noteq> None" "P s' = P s"
    using written(2) by (auto simp: key sat_key_filter_eq)
  then show ?thesis
  proof cases
    case 1
    have dist: "distinct (map pe_key (P s))" using inv by (simp add: mongo_invar_def)
    note repl = replaced_key [OF dist 1]
    have find: "x \<in> set (P s') \<longleftrightarrow> find (\<lambda>d. pe_key d = pe_key x) (P s') = Some x" for x
      using find_distinct_key [OF repl(1)] by auto
    have "x \<in> set (P s') \<Longrightarrow> x = ?doc \<or> (x \<in> set (P s) \<and> pe_key x \<noteq> (t, i))" for x
      unfolding find repl(2) key by (auto split: if_splits dest: find_keyD)
    then have "mongo_synced P s' \<subseteq> (if b then insert (t, i) (mongo_synced P s) else mongo_synced P s - {(t, i)})"
      using key sync by (fastforce simp: mongo_synced_def)
    moreover have "st_resources (mongo_store P T s') u j =
        (if (u, j) = (t, i) then Some (entry_acl ?doc) else st_resources (mongo_store P T s) u j)" for u j
      using repl(2) [of "(u, j)"] by (simp add: mongo_store_def key)
    then have "mongo_store P T s' =
        put_resource \<lparr>r_id = i, r_topic_id = t, r_permissions = p\<rparr> (mongo_store P T s)"
      by (intro store_eqI) (simp_all add: mongo_store_def written(1) entry_acl_setResourcePermissions)
    ultimately show ?thesis by simp
  next
    case 2
    then show ?thesis using written(1) by simp
  qed
qed

lemma mongo_Delete_synced:
  assumes laws: "driver_laws D P T" and run: "run_state (Mongo_DeleteResource D t i) s = (e, s')"
  shows "mongo_synced P s' \<subseteq> mongo_synced P s"
proof -
  from coll_DeleteMany_law(2) [OF perms_laws(5) [OF laws] run [unfolded Mongo_DeleteResource_def]]
  obtain sel where "P s' = filter (\<lambda>d. \<not> (sel d \<and> sat entry_field (key_filter t i) d)) (P s) \<and>
      (e = None \<longrightarrow> sel = (\<lambda>_. True))" ..
  then have "P s' = filter (\<lambda>d. \<not> (sel d \<and> sat entry_field (key_filter t i) d)) (P s)" by simp
  then show ?thesis by (auto simp: mongo_synced_def)
qed

lemma mongo_unsynced_stored:
  assumes laws: "driver_laws D P T" and inv: "mongo_invar P T s"
    and run: "run_state (Mongo_ListUnsyncedResources D) s = (Inr l, s')" and r: "r \<in> set l"
  shows "st_resources (mongo_store P T s) (r_topic_id r) (r_id r) = Some (acl_of (r_permissions r))"
proof -
  obtain now s1 where now: "run_state (mongo_now D) s = (now, s1)" by fastforce
  have P: "P s1 = P s" using laws preservesD [OF _ now] by (auto simp: driver_laws_def)
  from run now have "run_state (find_all (permissionsCollection D)
       (FDoc [FEq PermissionsEntrySyncedBson (BBool False),
              FLt PermissionsEntryTimestampBson (now - SyncAgeLimit D)])
       \<lparr>fo_limit = 0, fo_skip = 0, fo_sort = Some (PermissionsEntryBson ''Id'')\<rparr> ToResource) s1 = (Inr l, s')"
    by (simp add: Mongo_ListUnsyncedResources_def)
  from find_all_result [OF perms_laws(1) [OF laws] this] obtain full where
    full: "mset full = mset (filter (sat entry_field (FDoc [FEq PermissionsEntrySyncedBson (BBool False),
      FLt PermissionsEntryTimestampBson (now - SyncAgeLimit D)])) (P s))" and l: "l = map ToResource full"
    by (simp add: P) blast
  have "set full \<subseteq> set (P s)" using mset_eq_setD [OF full] by auto
  with r l obtain e where "e \<in> set (P s)" "r = ToResource e" by auto
  then show ?thesis
    using mongo_store_Some [OF inv] by (auto simp: pe_key_def acl_of_ToResource)
qed

lemma mongo_synced_database:
  assumes laws: "driver_laws D P T"
  shows "synced_database (mongo_db D) (mongo_store P T) (mongo_invar P T) (mongo_synced P)"
proof (intro synced_database.intro [OF mongo_database [OF laws]] synced_database_axioms.intro, goal_cases)
  case (1 s t i)
  then show ?case by (auto simp: mongo_synced_def mongo_store_None)
next
  case (2 i)
  show ?case by (simp add: mongo_db_def) (rule preserves_same [OF mongo_synced_cong [of P,
    OF mongo_reads_synced(1) [OF laws]] preserves_maintains [OF preserves_mongo_reads(9) [OF laws]]])
next
  case (3 t i opts)
  show ?case by (simp add: mongo_db_def) (rule preserves_same [OF mongo_synced_cong [of P,
    OF mongo_reads_synced(2) [OF laws]] preserves_maintains [OF preserves_mongo_reads(1) [OF laws]]])
next
  case (4 t i u rs gs ps)
  show ?case by (simp add: mongo_db_def) (rule preserves_same [OF mongo_synced_cong [of P,
    OF mongo_reads_synced(3) [OF laws]] preserves_maintains [OF preserves_mongo_reads(8) [OF laws]]])
next
  case 5
  show ?case by (simp add: mongo_db_def) (rule preserves_same [OF mongo_synced_cong [of P,
    OF mongo_reads_synced(4) [OF laws]] preserves_maintains [OF preserves_mongo_reads(2) [OF laws]]])
next
  case (6 s t i e s')
  then show ?case using mongo_Mark_synced [OF laws] by (simp add: mongo_db_def)
next
  case (7 s r time b e s')
  then have "run_state (Mongo_SetPermissions D (r_topic_id r) (r_id r) (r_permissions r) time b) s = (e, s')"
    by (simp add: mongo_db_def Mongo_SetResource_def)
  from mongo_Set_synced [OF laws 7(1) this] show ?case
    using mongo_frame [of P s' s T] mongo_synced_cong [of P s' s] 7(1) by (auto simp: put_resource_def)
next
  case (8 s t i e s')
  then show ?case using mongo_Delete_synced [OF laws] by (simp add: mongo_db_def)
next
  case (9 s l s' r)
  then show ?case using mongo_unsynced_stored [OF laws] by (simp add: mongo_db_def)
qed

text \<open>The mock database knows no mark: it lists nothing as unpublished.\<close>

lemma mock_synced_database: "synced_database mock_db mock_store mock_invar (\<lambda>_. {})"
proof (intro synced_database.intro [OF mock.database_axioms] synced_database_axioms.intro, goal_cases)
  case (2 i) show ?case by (rule preserves_same) (simp_all add: preserves_maintains [OF mock.reads_GetTopic])
next
  case (3 t i opts)
  show ?case by (rule preserves_same) (simp_all add: preserves_maintains [OF mock.reads_GetResource])
next
  case (4 t i u rs gs ps)
  show ?case by (rule preserves_same)
    (simp_all add: preserves_maintains [OF mock.reads_CheckResourcePermissions])
next
  case 5
  show ?case by (rule preserves_same)
    (simp_all add: preserves_maintains [OF mock.reads_ListUnsyncedResources])
next
  case (7 s r time b e s')
  with mock.SetResource_law [OF 7(1) 7(2)] show ?case by (auto split: if_splits)
next
  case (9 s l s' r)
  then show ?case by (simp add: mock_db_def Mock_ListUnsyncedResources_def)
qed simp_all

interpretation synced_mock: synced_database mock_db mock_store mock_invar "\<lambda>_. {}"
  by (rule mock_synced_database)

interpretation synced_mem: synced_database "mongo_db (mem_mongo 300000)" "mongo_store mem_perms mem_topics"
  "mongo_invar mem_perms mem_topics" "mongo_synced mem_perms"
  by (rule mongo_synced_database [OF mem_driver_laws])

section \<open>What reaches the outside\<close>

text \<open>
  \<open>published e\<close> finds, for the name of a Kafka topic and an id, what the last message published there
  for the id grants. \<open>writes_to\<close> is the Kafka topic a producer writes to.
\<close>

locale publisher =
  fixes C :: "('s, 'e, 'p) controller"
    and published :: "'e \<Rightarrow> string \<times> string \<Rightarrow> acl option"
    and writes_to :: "'p \<Rightarrow> string option"
  assumes time_Now_published: "preserves (\<lambda>_. True) published (time_Now C)"
    and SendMessage_published: "preserves (\<lambda>_. True) published (SendMessage C m)"
    and http_do_published: "preserves (\<lambda>_. True) published (http_do C req)"
    and GetProducer_published: "preserves (\<lambda>_. True) published (GetProducer C (ctl_config C) topic)"
    and GetProducer_writes_to:
      "run_state (GetProducer C (ctl_config C) topic) e = (Inr p, e') \<Longrightarrow>
       writes_to p = Some (t_publish_to_kafka_topic topic)"
    and SendPermissions_published:
      "writes_to p = Some k \<Longrightarrow> run_state (SendPermissions C p topic i permissions) e = (r, e') \<Longrightarrow>
       (r \<noteq> None \<and> published e' = published e) \<or>
       published e' = (published e)((k, i) := Some (acl_of permissions))"

text \<open>What a published command grants, by the fields the permissions are written to.\<close>

definition rights_acl :: "kafka_rights \<Rightarrow> acl" where
  "rights_acl r = acl_of \<lparr>rp_user = m_range_put permissions_map_of (kr_user_rights r) m_empty,
     rp_group = m_range_put permissions_map_of (kr_keycloak_groups_rights r) m_empty,
     rp_role = m_range_put permissions_map_of (kr_group_rights r) m_empty\<rparr>"

lemma rights_acl_permissionsToRights [simp]: "rights_acl (permissionsToRights p) = acl_of p"
  unfolding rights_acl_def
  by (rule acl_of_m_get; intro ext) (simp_all add: option.map_comp o_def option.map_ident split: option.split)

text \<open>
  The last message of a list with the key of an id. \<open>dec\<close> reads the text of a message as a command.
\<close>

definition last_rights :: "(string \<Rightarrow> command) \<Rightarrow> kafka_message list \<Rightarrow> string \<Rightarrow> acl option" where
  "last_rights dec ms i =
     (case find (\<lambda>m. km_key m = i @ ''/rights'') (rev ms) of
        None \<Rightarrow> None | Some m \<Rightarrow> map_option rights_acl (cmd_rights (dec (km_value m))))"

lemma last_rights_append:
  "last_rights dec (ms @ replicate n \<lparr>km_key = i @ ''/rights'', km_value = text, km_time = now\<rparr>) j =
     (if n > 0 \<and> j = i then map_option rights_acl (cmd_rights (dec text)) else last_rights dec ms j)"
  by (induction n) (simp_all add: last_rights_def replicate_app_Cons_same)

text \<open>
  The documented behaviour of the client library: only \<open>WriteMessages\<close> changes what the topics hold;
  it appends the message to the topic of the writer, more than once when it tried again, and at
  least once when it reports success. \<open>dec\<close> reads what the encoder writes.
\<close>

definition kafka_laws ::
  "('e, 'c) kafka_lib \<Rightarrow> ('e \<Rightarrow> string \<Rightarrow> kafka_message list) \<Rightarrow> (string \<Rightarrow> command) \<Rightarrow> bool" where
  "kafka_laws L content dec \<longleftrightarrow>
     (\<forall>a. preserves (\<lambda>_. True) content (kl_dial L a)) \<and>
     (\<forall>c. preserves (\<lambda>_. True) content (kl_controller L c)) \<and>
     (\<forall>c ts. preserves (\<lambda>_. True) content (kl_create_topics L c ts)) \<and>
     (\<forall>c. preserves (\<lambda>_. True) content (kl_close_conn L c)) \<and>
     preserves (\<lambda>_. True) content (kl_now L) \<and>
     (\<forall>c text. kl_marshal L c = Inr text \<longrightarrow> dec text = c) \<and>
     (\<forall>w m e r e'. run_state (kl_write_messages L w m) e = (r, e') \<longrightarrow>
        (\<exists>n. content e' = (content e)(kw_topic w := content e (kw_topic w) @ replicate n m) \<and>
           (r = None \<longrightarrow> n > 0)))"

definition kafka_published ::
  "('e \<Rightarrow> string \<Rightarrow> kafka_message list) \<Rightarrow> (string \<Rightarrow> command) \<Rightarrow> 'e \<Rightarrow> string \<times> string \<Rightarrow> acl option" where
  "kafka_published content dec e = (\<lambda>(k, i). last_rights dec (content e k) i)"

fun producer_topic :: "producer \<Rightarrow> string option" where
  "producer_topic (KafkaProducer (Some w)) = Some (kw_topic w)"
| "producer_topic _ = None"

lemma preserves_content:
  "preserves I content m \<Longrightarrow> preserves I (kafka_published content dec) m"
  by (auto simp: preserves_def kafka_published_def)

text \<open>The producers of \<open>kafka.go\<close> are a publisher over every such library.\<close>

lemma kafka_publisher:
  assumes laws: "kafka_laws L content dec"
    and C: "GetProducer C = KafkaProducerProvider_GetProducer L" "SendPermissions C = Producer_SendPermissions L"
    and others: "preserves (\<lambda>_. True) content (time_Now C)" "\<And>m. preserves (\<lambda>_. True) content (SendMessage C m)"
      "\<And>req. preserves (\<lambda>_. True) content (http_do C req)"
  shows "publisher C (kafka_published content dec) producer_topic"
proof (unfold_locales, goal_cases)
  case (4 topic)
  have "preserves (\<lambda>_. True) content (InitKafkaTopic L url n ts)" for url n ts
    using laws unfolding InitKafkaTopic_def kafka_laws_def by (auto intro!: preserves_rules)
  then show ?case
    unfolding C KafkaProducerProvider_GetProducer_def by (auto intro!: preserves_content preserves_rules)
next
  case (5 topic e p e')
  then show ?case
    by (auto simp: C KafkaProducerProvider_GetProducer_def NewKafkaWriter_def split: prod.splits)
next
  case (6 p k topic i permissions e r e')
  then obtain w where p: "p = KafkaProducer (Some w)" "kw_topic w = k"
    by (cases p rule: producer_topic.cases) auto
  let ?cmd = "\<lparr>cmd_command = ''RIGHTS'', cmd_id = i, cmd_rights = Some (permissionsToRights permissions),
    cmd_owner = []\<rparr>"
  show ?case
  proof (cases "kl_marshal L ?cmd")
    case (Inl err)
    with 6(2) show ?thesis by (auto simp: C p Producer_SendPermissions_def KafkaProducer_SendPermissions_def)
  next
    case (Inr body)
    obtain now e1 where now: "run_state (kl_now L) e = (now, e1)" by fastforce
    let ?m = "\<lparr>km_key = i @ ''/rights'', km_value = body, km_time = now\<rparr>"
    have same: "content e1 = content e" and dec: "dec body = ?cmd"
      using laws Inr preservesD [OF _ now] by (auto simp: kafka_laws_def)
    have "run_state (kl_write_messages L w ?m) e1 = (r, e')"
      using 6(2) Inr now by (simp add: C p Producer_SendPermissions_def KafkaProducer_SendPermissions_def)
    then obtain n where n: "content e' = (content e)(k := content e k @ replicate n ?m)" "r = None \<longrightarrow> n > 0"
      using laws same p(2) unfolding kafka_laws_def by metis
    have "kafka_published content dec e' = (if n > 0
        then (kafka_published content dec e)((k, i) := Some (acl_of permissions))
        else kafka_published content dec e)"
      by (intro ext) (auto simp: kafka_published_def n(1) last_rights_append dec split: if_splits)
    then show ?thesis using n(2) by (cases "n > 0") auto
  qed
qed (simp_all add: others preserves_content)

text \<open>The outside of the samples.\<close>

definition sample_published :: "sample_ext \<Rightarrow> string \<times> string \<Rightarrow> acl option" where
  "sample_published e = (\<lambda>(k, i). map_option (\<lambda>(_, _, permissions). acl_of permissions)
     (find (\<lambda>(p, j, _). p = k \<and> j = i) (rev (se_published e))))"

interpretation sample_publisher: publisher sample_controller sample_published Some
proof (unfold_locales, goal_cases)
  case (6 p k topic i permissions e r e')
  then show ?case
    by (auto simp: sample_controller_def sample_published_def fun_eq_iff split: if_splits)
qed (auto simp: sample_controller_def preserves_def LogNotifier_SendMessage_def)

section \<open>The samples on the production database\<close>

text \<open>The sample service over the production database on collections in memory.\<close>

definition mem_controller :: "(mem, sample_ext, string) controller" where
  "mem_controller =
     \<lparr>ctl_config = sample_config, ctl_db = mongo_db (mem_mongo 300000),
      SendMessage = SendMessage sample_controller, GetProducer = GetProducer sample_controller,
      SendPermissions = SendPermissions sample_controller, jwt_Parse = jwt_Parse sample_controller,
      time_Now = time_Now sample_controller, http_do = http_do sample_controller,
      decode_users = decode_users sample_controller, decode_search = decode_search sample_controller\<rparr>"

definition mem_world :: "(mem, sample_ext, string) world" where
  "mem_world =
     \<lparr>w_db = \<lparr>mem_perms = [setResourcePermissions (r_permissions device) (empty_entry ''devices'' ''d'' 1 True),
          setResourcePermissions (r_permissions device_type) (empty_entry ''device-types'' ''dt'' 2 True)],
        mem_topics = [devices, device_types], mem_clock = 10\<rparr>,
      w_ext = w_ext sample_world, w_producer = m_empty\<rparr>"

lemma mem_world_store:
  "mongo_store mem_perms mem_topics (w_db mem_world) = mock_store (w_db sample_world)"
  by (intro store_eqI)
    (auto simp: mem_world_def sample_world_def mongo_store_def mock_store_def pe_key_def rt_key_def
      entry_acl_setResourcePermissions device_def device_type_def)

lemma mem_world_invar: "mongo_invar mem_perms mem_topics (w_db mem_world)"
  by (simp add: mongo_invar_def mem_world_def pe_key_def devices_def device_types_def)

lemma mem_controller_db [simp]: "ctl_db mem_controller = mongo_db (mem_mongo 300000)"
  by (simp add: mem_controller_def)

lemma mem_parse [simp]: "jwt_Parse mem_controller = jwt_Parse sample_controller"
  by (simp add: mem_controller_def)

interpretation mem_publisher: publisher mem_controller sample_published Some
  using sample_publisher.publisher_axioms
  by (simp add: publisher_def mem_controller_def sample_controller_def)

end
