(* ===== verification/CtlCheck.thy ===== *)
theory CtlCheck
  imports Samples
begin

text \<open>
  Permission checks, \<open>pkg/controller/check.go\<close>: the checks of one and of many resources, the
  computed permissions, and the default permissions of a topic. The theorems say what a check
  decides in terms of what is stored, and that the three ways to ask agree.
\<close>

section \<open>Operations\<close>

text \<open>
  The four branches of the switch in \<open>checkTopicDefaultPermission\<close> differ in the field they read;
  \<open>sel\<close> is that field. A rune that is no permission passes the switch.
\<close>

definition default_grants :: "(permissions_map \<Rightarrow> bool) \<Rightarrow> token \<Rightarrow> topic \<Rightarrow> bool" where
  "default_grants sel token topic \<longleftrightarrow>
     sel (m_index (rp_user (t_default_permissions topic)) (GetUserId token)) \<or>
     list_ex (\<lambda>role. sel (m_index (rp_role (t_default_permissions topic)) role)) (GetRoles token) \<or>
     list_ex (\<lambda>group. sel (m_index (rp_group (t_default_permissions topic)) group)) (GetGroups token)"

fun default_loop :: "token \<Rightarrow> topic \<Rightarrow> permission list \<Rightarrow> bool" where
  "default_loop token topic [] = True"
| "default_loop token topic (p # ps) =
     (if p = Read then
        (if default_grants pm_read token topic then default_loop token topic ps else False)
      else if p = Administrate then
        (if default_grants pm_administrate token topic then default_loop token topic ps else False)
      else if p = Write then
        (if default_grants pm_write token topic then default_loop token topic ps else False)
      else if p = Execute then
        (if default_grants pm_execute token topic then default_loop token topic ps else False)
      else default_loop token topic ps)"

text \<open>The error of the Go function is always nil.\<close>

definition checkTopicDefaultPermission :: "token \<Rightarrow> topic \<Rightarrow> permission list \<Rightarrow> bool" where
  "checkTopicDefaultPermission token topic permissions =
     (if IsAdmin token then True else default_loop token topic permissions)"

definition CheckTopicDefaultPermission ::
  "('s, 'e, 'p) controller \<Rightarrow> token \<Rightarrow> string \<Rightarrow> permission list \<Rightarrow>
   (('s, 'e, 'p) world, bool reply) state" where
  "CheckTopicDefaultPermission C token topicId permissions =
     (if IsAdmin token then ret (Inr (True, StatusOK))
      else do {
        t \<leftarrow> on_db (GetTopic (ctl_db C) topicId);
        case t of
          Inl err \<Rightarrow> ret (Inl (err, StatusInternalServerError))
        | Inr None \<Rightarrow> ret (Inl (Err ''unknown topic'', StatusNotFound))
        | Inr (Some topic) \<Rightarrow>
            ret (Inr (checkTopicDefaultPermission token topic permissions, StatusOK)) })"

text \<open>An error below 500 is answered with ``no access'': the answer must not tell what exists.\<close>

definition checkPermission ::
  "('s, 'e, 'p) controller \<Rightarrow> token \<Rightarrow> string \<Rightarrow> string \<Rightarrow> permission list \<Rightarrow>
   (('s, 'e, 'p) world, bool reply) state" where
  "checkPermission C token topicId rid permissions = do {
     r \<leftarrow> CheckTopicDefaultPermission C token topicId permissions;
     case r of
       Inl (err, code) \<Rightarrow>
         if code \<ge> 500 then ret (Inl (err, code)) else ret (Inr (False, StatusOK))
     | Inr (access, code) \<Rightarrow>
         if access then ret (Inr (True, StatusOK))
         else do {
           let pureId = pure_id rid;
           a \<leftarrow> on_db (CheckResourcePermissions (ctl_db C) topicId pureId (GetUserId token)
             (GetRoles token) (GetGroups token) permissions);
           case a of
             Inl err \<Rightarrow> ret (Inl (err, StatusInternalServerError))
           | Inr access \<Rightarrow> ret (Inr (access, StatusOK)) } }"

definition CheckPermission ::
  "('s, 'e, 'p) controller \<Rightarrow> string \<Rightarrow> string \<Rightarrow> string \<Rightarrow> permission list \<Rightarrow>
   (('s, 'e, 'p) world, bool reply) state" where
  "CheckPermission C tokenStr topicId rid permissions =
     (case jwt_Parse C tokenStr of
        Inl err \<Rightarrow> ret (Inl (err, StatusUnauthorized))
      | Inr token \<Rightarrow> checkPermission C token topicId rid permissions)"

text \<open>\<open>pureIdToIds\<close> maps a pure id to the ids it came from.\<close>

definition index_list :: "(string, 'a list) alist \<Rightarrow> string \<Rightarrow> 'a list" where
  "index_list m k = (case DAList.lookup m k of None \<Rightarrow> [] | Some l \<Rightarrow> l)"

definition pureIdToIds :: "string list \<Rightarrow> (string, string list) alist" where
  "pureIdToIds ids =
     fold (\<lambda>i m. DAList.update (pure_id i) (index_list m (pure_id i) @ [i]) m) ids DAList.empty"

definition access_map :: "string list \<Rightarrow> (string, bool) alist \<Rightarrow> (string, bool) alist" where
  "access_map ids pureAccess =
     fold (\<lambda>(key, v) m. fold (\<lambda>i m. DAList.update i v m) (index_list (pureIdToIds ids) key) m)
       (DAList.impl_of pureAccess) DAList.empty"

definition CheckMultiplePermissions ::
  "('s, 'e, 'p) controller \<Rightarrow> string \<Rightarrow> string \<Rightarrow> string list \<Rightarrow> permission list \<Rightarrow>
   (('s, 'e, 'p) world, (string, bool) alist reply) state" where
  "CheckMultiplePermissions C tokenStr topicId ids permissions =
     (case jwt_Parse C tokenStr of
        Inl err \<Rightarrow> ret (Inl (err, StatusUnauthorized))
      | Inr token \<Rightarrow> do {
          let pureIdList = map pure_id ids;
          r \<leftarrow> CheckTopicDefaultPermission C token topicId permissions;
          case r of
            Inl (err, code) \<Rightarrow> ret (Inl (err, code))
          | Inr (access, code) \<Rightarrow> do {
              a \<leftarrow> on_db (CheckMultipleResourcePermissions (ctl_db C) topicId pureIdList
                (GetUserId token) (GetRoles token) (GetGroups token)
                (if access then [] else permissions));
              case a of
                Inl err \<Rightarrow> ret (Inl (err, StatusInternalServerError))
              | Inr pureAccess \<Rightarrow> ret (Inr (access_map ids pureAccess, StatusOK)) } })"

text \<open>The four \<open>if\<close> statements that raise the fields of \<open>result\<close> set in \<open>m\<close>.\<close>

definition raise_permissions :: "permissions_map \<Rightarrow> permissions_map \<Rightarrow> permissions_map" where
  "raise_permissions m result =
     (let result = (if pm_read m then result\<lparr>pm_read := True\<rparr> else result);
          result = (if pm_write m then result\<lparr>pm_write := True\<rparr> else result);
          result = (if pm_execute m then result\<lparr>pm_execute := True\<rparr> else result)
      in if pm_administrate m then result\<lparr>pm_administrate := True\<rparr> else result)"

definition raise_from_default ::
  "permissions_map gomap \<Rightarrow> string \<Rightarrow> permissions_map \<Rightarrow> permissions_map" where
  "raise_from_default m k result =
     (case m_get m k of None \<Rightarrow> result | Some d \<Rightarrow> raise_permissions d result)"

definition ComputePermissionsMap ::
  "token \<Rightarrow> resource \<Rightarrow> resource_permissions \<Rightarrow> permissions_map" where
  "ComputePermissionsMap token resource defaultPerm =
     (let result = m_index (rp_user (r_permissions resource)) (GetUserId token);
          result = raise_from_default (rp_user defaultPerm) (GetUserId token) result;
          result = fold (\<lambda>role result.
            raise_permissions (m_index (rp_role (r_permissions resource)) role)
              (raise_from_default (rp_role defaultPerm) role result)) (GetRoles token) result
      in fold (\<lambda>group result.
            raise_permissions (m_index (rp_group (r_permissions resource)) group)
              (raise_from_default (rp_group defaultPerm) group result)) (GetGroups token) result)"

text \<open>Found resources first, then the ids that were not found, with nothing granted.\<close>

definition ListComputedPermissions ::
  "('s, 'e, 'p) controller \<Rightarrow> string \<Rightarrow> string \<Rightarrow> string list option \<Rightarrow>
   (('s, 'e, 'p) world, computed_permissions list reply) state" where
  "ListComputedPermissions C tokenStr topicId ids =
     (case jwt_Parse C tokenStr of
        Inl err \<Rightarrow> ret (Inl (err, StatusUnauthorized))
      | Inr token \<Rightarrow> do {
          let isAdmin = IsAdmin token;
          let ids = (case ids of None \<Rightarrow> [] | Some l \<Rightarrow> l);
          t \<leftarrow> on_db (GetTopic (ctl_db C) topicId);
          case t of
            Inl err \<Rightarrow> ret (Inl (err, StatusInternalServerError))
          | Inr None \<Rightarrow> ret (Inl (Err ''unknown topic'', StatusNotFound))
          | Inr (Some topic) \<Rightarrow> do {
              l \<leftarrow> on_db (AdminListResources (ctl_db C) topicId
                (default_list_options\<lparr>lo_ids := Some ids\<rparr>));
              case l of
                Inl err \<Rightarrow> ret (Inl (err, StatusInternalServerError))
              | Inr resources \<Rightarrow> ret (Inr (
                  map (\<lambda>r. \<lparr>cp_id = r_id r, cp_permissions =
                    (if isAdmin then all_permissions
                     else ComputePermissionsMap token r (t_default_permissions topic))\<rparr>) resources @
                  map (\<lambda>i. \<lparr>cp_id = i, cp_permissions = no_permissions\<rparr>)
                    (filter (\<lambda>i. i \<notin> set (map r_id resources)) ids), StatusOK)) } })"

section \<open>Specification\<close>

text \<open>What a topic grants by default, and what a stored resource grants, to the holder of a token.\<close>

definition token_holds :: "acl \<Rightarrow> token \<Rightarrow> permission list \<Rightarrow> bool" where
  "token_holds a token ps \<longleftrightarrow>
     acl_grants_all a (GetUserId token) (GetRoles token) (GetGroups token) ps"

definition topic_grants :: "store \<Rightarrow> string \<Rightarrow> token \<Rightarrow> permission list \<Rightarrow> bool" where
  "topic_grants st t token ps \<longleftrightarrow>
     (\<exists>topic. st_topics st t = Some topic \<and> token_holds (acl_of (t_default_permissions topic)) token ps)"

definition resource_grants :: "store \<Rightarrow> string \<Rightarrow> string \<Rightarrow> token \<Rightarrow> permission list \<Rightarrow> bool" where
  "resource_grants st t i token ps \<longleftrightarrow>
     (\<exists>a. st_resources st t i = Some a \<and> token_holds a token ps)"

text \<open>
  The decision: an admin may do everything; everyone else needs the topic, and all the
  permissions either from its defaults or from the resource.
\<close>

definition access_decision :: "store \<Rightarrow> token \<Rightarrow> string \<Rightarrow> string \<Rightarrow> permission list \<Rightarrow> bool" where
  "access_decision st token t i ps \<longleftrightarrow>
     IsAdmin token \<or>
     (st_topics st t \<noteq> None \<and> (topic_grants st t token ps \<or> resource_grants st t i token ps))"

section \<open>Lemmas\<close>

lemma default_grants_acl:
  "default_grants pm_read token topic \<longleftrightarrow>
     token_holds (acl_of (t_default_permissions topic)) token [Read]"
  "default_grants pm_write token topic \<longleftrightarrow>
     token_holds (acl_of (t_default_permissions topic)) token [Write]"
  "default_grants pm_execute token topic \<longleftrightarrow>
     token_holds (acl_of (t_default_permissions topic)) token [Execute]"
  "default_grants pm_administrate token topic \<longleftrightarrow>
     token_holds (acl_of (t_default_permissions topic)) token [Administrate]"
  by (auto simp: default_grants_def token_holds_def acl_grants_all_def acl_grants_def acl_of_def
      list_ex_iff)

lemma token_holds_simps [simp]:
  "token_holds a token []"
  "token_holds a token (p # ps) \<longleftrightarrow>
     acl_grants a (GetUserId token) (GetRoles token) (GetGroups token) p \<and> token_holds a token ps"
  by (simp_all add: token_holds_def acl_grants_all_def)

lemma default_loop_acl:
  "all_known ps \<Longrightarrow>
   default_loop token topic ps \<longleftrightarrow> token_holds (acl_of (t_default_permissions topic)) token ps"
  by (induction ps) (auto elim!: known_permissionE simp: default_grants_acl)

lemma checkTopicDefaultPermission_acl:
  "all_known ps \<Longrightarrow> checkTopicDefaultPermission token topic ps \<longleftrightarrow>
   IsAdmin token \<or> token_holds (acl_of (t_default_permissions topic)) token ps"
  by (simp add: checkTopicDefaultPermission_def default_loop_acl)

lemma topic_grants_Some:
  "st_topics st t = Some (topic_core topic) \<Longrightarrow>
   topic_grants st t token ps \<longleftrightarrow> token_holds (acl_of (t_default_permissions topic)) token ps"
  by (simp add: topic_grants_def)

lemma raise_permissions_has [simp]:
  "pm_has (raise_permissions m result) p \<longleftrightarrow> pm_has m p \<or> pm_has result p"
  by (auto simp: raise_permissions_def pm_has_def Let_def)

lemma raise_from_default_has [simp]:
  "pm_has (raise_from_default m k result) p \<longleftrightarrow> pm_has (m_index m k) p \<or> pm_has result p"
  by (auto simp: raise_from_default_def m_index_def split: option.split)

lemma fold_raise_has:
  "pm_has (fold (\<lambda>k result. raise_permissions (m_index m k) (raise_from_default d k result)) ks result) p \<longleftrightarrow>
   pm_has result p \<or> (\<exists>k \<in> set ks. pm_has (m_index m k) p \<or> pm_has (m_index d k) p)"
  by (induction ks arbitrary: result) auto

text \<open>The computed permissions are those of the resource and those of the topic together.\<close>

lemma ComputePermissionsMap_has:
  "pm_has (ComputePermissionsMap token resource d) p \<longleftrightarrow>
   token_holds (acl_of (r_permissions resource)) token [p] \<or> token_holds (acl_of d) token [p]"
  unfolding ComputePermissionsMap_def Let_def fold_raise_has
  by (auto simp: acl_grants_def acl_of_def)

lemma fold_update_const:
  "DAList.lookup (fold (\<lambda>i m. DAList.update i v m) l m) k =
   (if k \<in> set l then Some v else DAList.lookup m k)"
  by (induction l arbitrary: m) (auto simp: lookup_update)

lemma index_pureIdToIds_loop:
  "index_list (fold (\<lambda>i m. DAList.update (pure_id i) (index_list m (pure_id i) @ [i]) m) ids m) k =
   index_list m k @ filter (\<lambda>i. pure_id i = k) ids"
  by (induction ids arbitrary: m) (auto simp: index_list_def lookup_update)

lemma index_pureIdToIds [simp]: "index_list (pureIdToIds ids) k = filter (\<lambda>i. pure_id i = k) ids"
  unfolding pureIdToIds_def index_pureIdToIds_loop by (simp add: index_list_def)

lemma access_map_loop:
  "distinct (map fst l) \<Longrightarrow>
   DAList.lookup (fold (\<lambda>(key, v) m. fold (\<lambda>i m. DAList.update i v m)
     (index_list (pureIdToIds ids) key) m) l m) i =
   (if i \<in> set ids
    then (case map_of l (pure_id i) of None \<Rightarrow> DAList.lookup m i | Some v \<Rightarrow> Some v)
    else DAList.lookup m i)"
proof (induction l arbitrary: m)
  case (Cons x l)
  obtain a b where x: "x = (a, b)" by (cases x)
  from Cons have "map_of l a = None" by (simp add: x map_of_eq_None_iff)
  with Cons show ?case
    by (auto simp: x fold_update_const split: option.split)
qed simp

lemma access_map_lookup:
  "DAList.lookup (access_map ids m) i = (if i \<in> set ids then DAList.lookup m (pure_id i) else None)"
  using access_map_loop [of "DAList.impl_of m" ids DAList.empty i]
  by (auto simp: access_map_def lookup_impl_of [of m] simp del: index_pureIdToIds split: option.split)

context database
begin

lemma CheckTopicDefaultPermission_wpreserves:
  "ctl_db C = db \<Longrightarrow> wpreserves (CheckTopicDefaultPermission C token t ps)"
  unfolding CheckTopicDefaultPermission_def
  by (intro preserves_rules) (auto intro!: reads)

lemma CheckTopicDefaultPermission_result:
  assumes C: "ctl_db C = db" and inv: "invar (w_db w)" and known: "all_known ps"
    and run: "run_state (CheckTopicDefaultPermission C token t ps) w = (r, w')"
  shows "r = Inr (b, code) \<Longrightarrow> code = StatusOK \<and>
      (b \<longleftrightarrow> IsAdmin token \<or> topic_grants (store_of (w_db w)) t token ps) \<and>
      (IsAdmin token \<or> st_topics (store_of (w_db w)) t \<noteq> None)"
    and "r = Inl (e, code) \<Longrightarrow> \<not> IsAdmin token \<and>
      ((code = StatusNotFound \<and> st_topics (store_of (w_db w)) t = None) \<or>
       code = StatusInternalServerError)"
proof -
  have "(\<forall>b code. r = Inr (b, code) \<longrightarrow> code = StatusOK \<and>
      (b \<longleftrightarrow> IsAdmin token \<or> topic_grants (store_of (w_db w)) t token ps) \<and>
      (IsAdmin token \<or> st_topics (store_of (w_db w)) t \<noteq> None)) \<and>
    (\<forall>e code. r = Inl (e, code) \<longrightarrow> \<not> IsAdmin token \<and>
      ((code = StatusNotFound \<and> st_topics (store_of (w_db w)) t = None) \<or>
       code = StatusInternalServerError))"
  proof (cases "IsAdmin token")
    case True
    with run show ?thesis by (auto simp: CheckTopicDefaultPermission_def)
  next
    case False
    obtain q d where get: "run_state (GetTopic db t) (w_db w) = (q, d)" by fastforce
    then have on: "run_state (on_db (GetTopic db t)) w = (q, w\<lparr>w_db := d\<rparr>)"
      by (auto simp: run_on_db)
    show ?thesis
    proof (cases q)
      case (Inl e)
      with run on False C show ?thesis by (auto simp: CheckTopicDefaultPermission_def)
    next
      case (Inr found)
      note law = GetTopic_law [OF inv get [unfolded Inr]]
      show ?thesis
      proof (cases found)
        case None
        with run on False C Inr law show ?thesis by (auto simp: CheckTopicDefaultPermission_def)
      next
        case (Some topic)
        then have "st_topics (store_of (w_db w)) t = Some (topic_core topic)" using law by simp
        with run on False C Inr Some show ?thesis
          by (auto simp: CheckTopicDefaultPermission_def checkTopicDefaultPermission_acl [OF known]
              topic_grants_Some)
      qed
    qed
  qed
  then show "r = Inr (b, code) \<Longrightarrow> code = StatusOK \<and>
      (b \<longleftrightarrow> IsAdmin token \<or> topic_grants (store_of (w_db w)) t token ps) \<and>
      (IsAdmin token \<or> st_topics (store_of (w_db w)) t \<noteq> None)"
    and "r = Inl (e, code) \<Longrightarrow> \<not> IsAdmin token \<and>
      ((code = StatusNotFound \<and> st_topics (store_of (w_db w)) t = None) \<or>
       code = StatusInternalServerError)"
    by blast+
qed

lemma checkPermission_wpreserves:
  "ctl_db C = db \<Longrightarrow> wpreserves (checkPermission C token t i ps)"
  unfolding checkPermission_def
  by (intro preserves_rules CheckTopicDefaultPermission_wpreserves) (simp_all add: reads)

lemma CheckPermission_wpreserves:
  "ctl_db C = db \<Longrightarrow> wpreserves (CheckPermission C s t i ps)"
  unfolding CheckPermission_def by (intro preserves_rules checkPermission_wpreserves)

lemma checkPermission_result:
  assumes C: "ctl_db C = db" and inv: "invar (w_db w)" and known: "all_known ps"
    and run: "run_state (checkPermission C token t i ps) w = (r, w')"
  shows "r = Inr (access_decision (store_of (w_db w)) token t (pure_id i) ps, StatusOK) \<or>
    (\<exists>e. r = Inl (e, StatusInternalServerError) \<and> \<not> IsAdmin token)"
proof -
  obtain q w1 where default: "run_state (CheckTopicDefaultPermission C token t ps) w = (q, w1)"
    by fastforce
  note result = CheckTopicDefaultPermission_result [OF C inv known default]
  have keep: "invar (w_db w1)" "store_of (w_db w1) = store_of (w_db w)"
    using preservesD [OF CheckTopicDefaultPermission_wpreserves [OF C] default] inv by simp_all
  show ?thesis
  proof (cases q)
    case (Inl x)
    then obtain e code where "q = Inl (e, code)" by (cases x) auto
    with run default result(2) show ?thesis
      by (auto simp: checkPermission_def access_decision_def split: if_splits)
  next
    case (Inr x)
    then obtain b code where q: "q = Inr (b, code)" by (cases x) auto
    show ?thesis
    proof (cases b)
      case True
      with run default q result(1) show ?thesis
        by (auto simp: checkPermission_def access_decision_def)
    next
      case False
      obtain a d where check: "run_state (CheckResourcePermissions db t (pure_id i) (GetUserId token)
          (GetRoles token) (GetGroups token) ps) (w_db w1) = (a, d)" by fastforce
      then have on: "run_state (on_db (CheckResourcePermissions db t (pure_id i) (GetUserId token)
          (GetRoles token) (GetGroups token) ps)) w1 = (a, w1\<lparr>w_db := d\<rparr>)"
        by (auto simp: run_on_db)
      show ?thesis
      proof (cases a)
        case (Inl e)
        with run default q False on C result(1) show ?thesis by (auto simp: checkPermission_def)
      next
        case (Inr found)
        note law = CheckResourcePermissions_law [OF keep(1) check [unfolded Inr] known]
        from run default q False on C result(1) show ?thesis
          by (auto simp: checkPermission_def Inr law keep(2) access_decision_def resource_grants_def
              token_holds_def)
      qed
    qed
  qed
qed

lemma CheckPermission_result:
  assumes "ctl_db C = db" "invar (w_db w)" "all_known ps" "jwt_Parse C s = Inr token"
    and "run_state (CheckPermission C s t i ps) w = (r, w')"
  shows "r = Inr (access_decision (store_of (w_db w)) token t (pure_id i) ps, StatusOK) \<or>
    (\<exists>e. r = Inl (e, StatusInternalServerError) \<and> \<not> IsAdmin token)"
  using checkPermission_result [OF assms(1-3)] assms(4,5) by (simp add: CheckPermission_def)

lemma CheckMultiplePermissions_wpreserves:
  "ctl_db C = db \<Longrightarrow> wpreserves (CheckMultiplePermissions C s t ids ps)"
  unfolding CheckMultiplePermissions_def
  by (intro preserves_rules CheckTopicDefaultPermission_wpreserves) (simp_all add: reads)

text \<open>
  The check of many ids answers for those whose pure id is stored, with the decision of the check
  of one.
\<close>

lemma CheckMultiplePermissions_result:
  assumes C: "ctl_db C = db" and inv: "invar (w_db w)" and known: "all_known ps"
    and parse: "jwt_Parse C s = Inr token"
    and run: "run_state (CheckMultiplePermissions C s t ids ps) w = (Inr (m, code), w')"
  shows "code = StatusOK \<and> DAList.lookup m i =
    (if i \<in> set ids \<and> st_resources (store_of (w_db w)) t (pure_id i) \<noteq> None
     then Some (access_decision (store_of (w_db w)) token t (pure_id i) ps) else None)"
proof -
  obtain q w1 where default: "run_state (CheckTopicDefaultPermission C token t ps) w = (q, w1)"
    by fastforce
  note result = CheckTopicDefaultPermission_result [OF C inv known default]
  have keep: "invar (w_db w1)" "store_of (w_db w1) = store_of (w_db w)"
    using preservesD [OF CheckTopicDefaultPermission_wpreserves [OF C] default] inv by simp_all
  obtain b code' where q: "q = Inr (b, code')"
    using run parse default
    by (cases q) (auto simp: CheckMultiplePermissions_def split: prod.splits)
  note decided = result(1) [OF q]
  let ?ps = "if b then [] else ps"
  obtain pure d where check: "run_state (CheckMultipleResourcePermissions db t (map pure_id ids)
      (GetUserId token) (GetRoles token) (GetGroups token) ?ps) (w_db w1) = (Inr pure, d)"
    and m: "m = access_map ids pure" "code = StatusOK"
    using run parse default q C
    by (auto simp: CheckMultiplePermissions_def on_db_def split: prod.splits sum.splits)
  have "all_known ?ps" using known by simp
  from CheckMultipleResourcePermissions_law [OF keep(1) check this, of "pure_id i"]
  show ?thesis
    using decided
    by (auto simp: m access_map_lookup keep(2) access_decision_def resource_grants_def
        token_holds_def acl_grants_all_def)
qed

lemma ListComputedPermissions_wpreserves:
  "ctl_db C = db \<Longrightarrow> wpreserves (ListComputedPermissions C s t ids)"
  unfolding ListComputedPermissions_def
  by (intro preserves_rules) (auto intro!: reads)

text \<open>
  The computed permissions of an id: those the decision gives when the resource is stored, none
  otherwise. Each id that was asked for is answered.
\<close>

lemma ListComputedPermissions_result:
  assumes C: "ctl_db C = db" and inv: "invar (w_db w)"
    and parse: "jwt_Parse C s = Inr token"
    and run: "run_state (ListComputedPermissions C s t (Some ids)) w = (Inr (l, code), w')"
  shows "code = StatusOK" "set (map cp_id l) = set ids"
    and "cp \<in> set l \<Longrightarrow> known_permission p \<Longrightarrow>
      pm_has (cp_permissions cp) p \<longleftrightarrow>
      st_resources (store_of (w_db w)) t (cp_id cp) \<noteq> None \<and>
      access_decision (store_of (w_db w)) token t (cp_id cp) [p]"
proof -
  let ?st = "store_of (w_db w)"
  let ?opt = "default_list_options\<lparr>lo_ids := Some ids\<rparr>"
  obtain topic d1 resources d2 where
    get: "run_state (GetTopic db t) (w_db w) = (Inr (Some topic), d1)"
    and list: "run_state (AdminListResources db t ?opt) d1 = (Inr resources, d2)"
    and l: "l = map (\<lambda>r. \<lparr>cp_id = r_id r, cp_permissions = (if IsAdmin token then all_permissions
          else ComputePermissionsMap token r (t_default_permissions topic))\<rparr>) resources @
        map (\<lambda>i. \<lparr>cp_id = i, cp_permissions = no_permissions\<rparr>)
          (filter (\<lambda>i. i \<notin> set (map r_id resources)) ids)" and code: "code = StatusOK"
    using run parse C
    by (auto simp: ListComputedPermissions_def on_db_def Let_def
        split: prod.splits sum.splits option.splits)
  have keep: "invar d1" "store_of d1 = ?st"
    using preservesD [OF reads_GetTopic get inv] by simp_all
  have topic: "st_topics ?st t = Some (topic_core topic)" using GetTopic_law [OF inv get] by simp
  from AdminListResources_law [OF keep(1) list]
  have resources: "lists_resources ?st t (\<lambda>i a. in_ids ?opt i) resources"
    by (auto simp: keep(2) default_list_options_def)
  have ids: "set (map r_id resources) = {i. \<exists>a. st_resources ?st t i = Some a \<and> i \<in> set ids}"
    using lists_resources_ids [OF resources] by (simp add: in_ids_def)
  show "code = StatusOK" by (rule code)
  show "set (map cp_id l) = set ids"
    using ids by (auto simp: l)
  assume cp: "cp \<in> set l" and p: "known_permission p"
  show "pm_has (cp_permissions cp) p \<longleftrightarrow>
      st_resources ?st t (cp_id cp) \<noteq> None \<and> access_decision ?st token t (cp_id cp) [p]"
  proof (cases "cp_id cp \<in> set (map r_id resources)")
    case True
    with cp obtain r where r: "r \<in> set resources" "cp_id cp = r_id r"
      "cp_permissions cp = (if IsAdmin token then all_permissions
        else ComputePermissionsMap token r (t_default_permissions topic))"
      by (auto simp: l)
    from lists_resourcesD [OF resources r(1)]
    have stored: "st_resources ?st t (r_id r) = Some (acl_of (r_permissions r))" by simp
    have "pm_has all_permissions p" using p by (auto simp: all_permissions_def elim!: known_permissionE)
    then show ?thesis
      using r stored topic
      by (simp add: ComputePermissionsMap_has access_decision_def topic_grants_Some resource_grants_def
          del: token_holds_simps) blast
  next
    case False
    with cp have "cp_permissions cp = no_permissions" "cp_id cp \<in> set ids" by (auto simp: l)
    with False ids show ?thesis by auto
  qed
qed

end

section \<open>Properties\<close>

text \<open>
  C4. Over every database that keeps its contract, a check of known permissions either fails with
  500, and then not for an admin, or answers 200 with the decision: an admin may do everything;
  anyone else needs the topic to exist, and all the permissions from the topic's defaults or all
  of them from what is stored under the pure id. The check changes nothing.
\<close>

theorem check_permission_decision:
  assumes "database db store_of invar" "ctl_db C = db" "invar (w_db w)" "all_known ps"
    and "jwt_Parse C s = Inr token"
    and "run_state (CheckPermission C s t i ps) w = (r, w')"
  shows "(r = Inr (access_decision (store_of (w_db w)) token t (pure_id i) ps, StatusOK) \<or>
     (\<exists>e. r = Inl (e, StatusInternalServerError) \<and> \<not> IsAdmin token)) \<and>
    store_of (w_db w') = store_of (w_db w)"
  using database.CheckPermission_result [OF assms]
    preservesD [OF database.CheckPermission_wpreserves [OF assms(1,2)] assms(6,3)] by simp

lemma sample_check:
  "fst (run_state (CheckPermission sample_controller ''Bearer alice'' ''devices'' ''d$x=y'' [Read, Write])
     sample_world) = Inr (True, 200)"
  "fst (run_state (CheckPermission sample_controller ''Bearer bob'' ''devices'' ''d'' [Read, Write])
     sample_world) = Inr (False, 200)"
  "fst (run_state (CheckPermission sample_controller ''Bearer bob'' ''devices'' ''d'' [Read])
     sample_world) = Inr (True, 200)"
  by code_simp+

theorem check_permission_decision_witness:
  "access_decision (mock_store (w_db sample_world)) alice ''devices'' (pure_id ''d$x=y'') [Read, Write]"
proof -
  obtain w' where "run_state (CheckPermission sample_controller ''Bearer alice'' ''devices'' ''d$x=y''
      [Read, Write]) sample_world = (Inr (True, 200), w')"
    using sample_check(1) by (metis prod.collapse)
  from check_permission_decision [OF mock.database_axioms sample_db sample_invar _ sample_parse(1) this]
  show ?thesis by simp
qed

text \<open>
  C10. The check of many ids agrees with the check of one: where both answer, an id of the request
  whose pure id is stored gets the answer of the single check, and the answer has no other ids.
\<close>

theorem check_multiple_agrees:
  assumes "database db store_of invar" "ctl_db C = db" "invar (w_db w)" "all_known ps"
    and "jwt_Parse C s = Inr token"
    and "run_state (CheckMultiplePermissions C s t ids ps) w = (Inr (m, code), w')"
    and "run_state (CheckPermission C s t i ps) w = (Inr (b, code'), w'')"
  shows "code = StatusOK \<and> DAList.lookup m i =
    (if i \<in> set ids \<and> st_resources (store_of (w_db w)) t (pure_id i) \<noteq> None then Some b else None)"
  using database.CheckMultiplePermissions_result [OF assms(1-6), of i]
    database.CheckPermission_result [OF assms(1-5,7)] by auto

lemma sample_check_multiple:
  "fst (run_state (CheckMultiplePermissions sample_controller ''Bearer bob'' ''devices''
     [''d'', ''none'', ''d$x=y''] [Read]) sample_world) =
   Inr (DAList.update ''d$x=y'' True (DAList.update ''d'' True DAList.empty), 200)"
  by code_simp

theorem check_multiple_agrees_witness:
  "st_resources (mock_store (w_db sample_world)) ''devices'' (pure_id ''d'') \<noteq> None"
proof -
  let ?m = "DAList.update ''d$x=y'' True (DAList.update ''d'' True DAList.empty)"
  obtain w' where many: "run_state (CheckMultiplePermissions sample_controller ''Bearer bob'' ''devices''
      [''d'', ''none'', ''d$x=y''] [Read]) sample_world = (Inr (?m, 200), w')"
    using sample_check_multiple by (metis prod.collapse)
  obtain w'' where one: "run_state (CheckPermission sample_controller ''Bearer bob'' ''devices'' ''d''
      [Read]) sample_world = (Inr (True, 200), w'')"
    using sample_check(3) by (metis prod.collapse)
  from check_multiple_agrees [OF mock.database_axioms sample_db sample_invar _ sample_parse(2) many one]
  show ?thesis by (auto simp: lookup_update split: if_splits)
qed


lemma sample_computed:
  "fst (run_state (ListComputedPermissions sample_controller ''Bearer bob'' ''devices''
     (Some [''none'', ''d''])) sample_world) =
   Inr ([\<lparr>cp_id = ''d'', cp_permissions = read_only\<rparr>, \<lparr>cp_id = ''none'', cp_permissions = no_permissions\<rparr>], 200)"
  by code_simp


definition mixed_world :: "(mock, sample_ext, string) world" where
  "mixed_world = sample_world\<lparr>w_db := (w_db sample_world)\<lparr>mk_resources :=
     [\<lparr>rt_resource = device_type\<lparr>r_permissions := (r_permissions device_type)\<lparr>rp_user :=
        m_put ''bob'' (no_permissions\<lparr>pm_write := True\<rparr>) (rp_user (r_permissions device_type))\<rparr>\<rparr>,
       rt_time = 2\<rparr>]\<rparr>\<rparr>"

text \<open>
  Permissions from the topic's defaults and from the resource do not add up in one check: Bob
  reads device types by the default of the topic and writes this one by its own entry, both checks
  of one permission grant it and the computed permissions show both, and the check of the two
  together denies.
\<close>

theorem check_does_not_mix_sources:
  "map (\<lambda>ps. fst (run_state (CheckPermission sample_controller ''Bearer bob'' ''device-types'' ''dt'' ps)
      mixed_world)) [[Read], [Write], [Read, Write]] = [Inr (True, 200), Inr (True, 200), Inr (False, 200)] \<and>
   fst (run_state (ListComputedPermissions sample_controller ''Bearer bob'' ''device-types''
      (Some [''dt''])) mixed_world) =
     Inr ([\<lparr>cp_id = ''dt'', cp_permissions = read_only\<lparr>pm_write := True\<rparr>\<rparr>], 200)"
  by code_simp

end
