(* ===== verification/CtlResource.thy ===== *)
theory CtlResource
  imports CtlCheck
begin

text \<open>
  Resources, \<open>pkg/controller/resource.go\<close>: lists, reading, removing and setting permissions with
  the rules for who may edit what. The lemmas say under which conditions \<open>SetPermission\<close> changes the
  store, and how.
\<close>

section \<open>Operations\<close>

definition CtlAdminListResourceIds ::
  "('s, 'e, 'p) controller \<Rightarrow> string \<Rightarrow> string \<Rightarrow> list_options \<Rightarrow>
   (('s, 'e, 'p) world, string list reply) state" where
  "CtlAdminListResourceIds C tokenStr topicId options =
     (case jwt_Parse C tokenStr of
        Inl err \<Rightarrow> ret (Inl (err, StatusUnauthorized))
      | Inr token \<Rightarrow>
          if \<not> IsAdmin token
          then ret (Inl (Err ''only admins may use this method'', StatusUnauthorized))
          else do {
            r \<leftarrow> on_db (AdminListResourceIds (ctl_db C) topicId options);
            case r of
              Inl err \<Rightarrow> ret (Inl (err, StatusInternalServerError))
            | Inr ids \<Rightarrow> ret (Inr (ids, StatusOK)) })"

definition ListAccessibleResourceIds ::
  "('s, 'e, 'p) controller \<Rightarrow> string \<Rightarrow> string \<Rightarrow> list_options \<Rightarrow> permission list \<Rightarrow>
   (('s, 'e, 'p) world, string list reply) state" where
  "ListAccessibleResourceIds C tokenStr topicId options permission =
     (case jwt_Parse C tokenStr of
        Inl err \<Rightarrow> ret (Inl (err, StatusUnauthorized))
      | Inr token \<Rightarrow> do {
          r \<leftarrow> CheckTopicDefaultPermission C token topicId permission;
          case r of
            Inl (err, code) \<Rightarrow> ret (Inl (err, code))
          | Inr (access, code) \<Rightarrow> do {
              r \<leftarrow> (if access then on_db (AdminListResourceIds (ctl_db C) topicId options)
                   else on_db (ListResourceIdsByPermissions (ctl_db C) topicId (GetUserId token)
                     (GetRoles token) (GetGroups token) options permission));
              case r of
                Inl err \<Rightarrow> ret (Inl (err, StatusInternalServerError))
              | Inr ids \<Rightarrow> ret (Inr (ids, StatusOK)) } })"

definition ListResourcesWithAdminPermission ::
  "('s, 'e, 'p) controller \<Rightarrow> string \<Rightarrow> string \<Rightarrow> list_options \<Rightarrow>
   (('s, 'e, 'p) world, resource list reply) state" where
  "ListResourcesWithAdminPermission C tokenStr topicId options =
     (case jwt_Parse C tokenStr of
        Inl err \<Rightarrow> ret (Inl (err, StatusUnauthorized))
      | Inr token \<Rightarrow> do {
          r \<leftarrow> CheckTopicDefaultPermission C token topicId [Administrate];
          case r of
            Inl (err, code) \<Rightarrow> ret (Inl (err, code))
          | Inr (access, code) \<Rightarrow> do {
              r \<leftarrow> (if access then on_db (AdminListResources (ctl_db C) topicId options)
                   else on_db (ListResourcesByPermissions (ctl_db C) topicId (GetUserId token)
                     (GetRoles token) (GetGroups token) options [Administrate]));
              case r of
                Inl err \<Rightarrow> ret (Inl (err, StatusInternalServerError))
              | Inr l \<Rightarrow> ret (Inr (l, StatusOK)) } })"

definition RemoveResource ::
  "('s, 'e, 'p) controller \<Rightarrow> string \<Rightarrow> string \<Rightarrow> string \<Rightarrow>
   (('s, 'e, 'p) world, unit reply) state" where
  "RemoveResource C tokenStr topicId rid =
     (case jwt_Parse C tokenStr of
        Inl err \<Rightarrow> ret (Inl (err, StatusUnauthorized))
      | Inr token \<Rightarrow>
          if \<not> IsAdmin token
          then ret (Inl (Err ''access denied: only admin roles may delete resources'', StatusForbidden))
          else do {
            err \<leftarrow> on_db (DeleteResource (ctl_db C) topicId rid);
            case err of
              Some e \<Rightarrow> ret (Inl (e, StatusInternalServerError))
            | None \<Rightarrow> ret (Inr ((), StatusOK)) })"

text \<open>The answer carries the id as it was asked for, with its modifier.\<close>

definition CtlGetResource ::
  "('s, 'e, 'p) controller \<Rightarrow> string \<Rightarrow> string \<Rightarrow> string \<Rightarrow>
   (('s, 'e, 'p) world, resource reply) state" where
  "CtlGetResource C tokenStr topicId rid =
     (case jwt_Parse C tokenStr of
        Inl err \<Rightarrow> ret (Inl (err, StatusUnauthorized))
      | Inr token \<Rightarrow> do {
          let pureId = pure_id rid;
          r \<leftarrow> CheckTopicDefaultPermission C token topicId [Administrate];
          case r of
            Inl (err, code) \<Rightarrow> ret (Inl (err, code))
          | Inr (access, code) \<Rightarrow> do {
              r \<leftarrow> on_db (GetResource (ctl_db C) topicId pureId
                \<lparr>go_check_permission = \<not> access, go_user_id = GetUserId token,
                 go_group_ids = GetGroups token, go_role_ids = GetRoles token,
                 go_permissions = [Administrate]\<rparr>);
              case r of
                Inl err \<Rightarrow>
                  if errors_is err PermissionCheckFailed
                  then ret (Inl (Err ''access denied'', StatusForbidden))
                  else if errors_is err ErrNotFound then ret (Inl (err, StatusNotFound))
                  else ret (Inl (err, StatusInternalServerError))
              | Inr result \<Rightarrow> ret (Inr (result\<lparr>r_id := rid\<rparr>, StatusOK)) } })"

definition getUsersInSameGroup ::
  "('s, 'e, 'p) controller \<Rightarrow> token \<Rightarrow> (('s, 'e, 'p) world, error + user list) state" where
  "getUsersInSameGroup C token = do {
     r \<leftarrow> on_ext (http_do C
       \<lparr>hr_method = ''GET'', hr_url = cfg_UserManagementUrl (ctl_config C) @ ''/user-list'',
        hr_headers = [(''Authorization'', Jwt token)]\<rparr>);
     case r of
       Inl err \<Rightarrow> ret (Inl err)
     | Inr resp \<Rightarrow>
         if hs_status resp \<noteq> StatusOK
         then ret (Inl (Err (''error in user-management /user-list request: '' @
           FormatInt (hs_status resp) @ '' '' @ hs_body resp)))
         else (case decode_users C (hs_body resp) of
             Inl err \<Rightarrow> ret (Inl (ErrWrap
               ''error while decoding user-management /user-list response: '' err))
           | Inr users \<Rightarrow> ret (Inr users)) }"

definition added_keys :: "'v gomap \<Rightarrow> 'w gomap \<Rightarrow> string list" where
  "added_keys new current = filter (\<lambda>k. m_get current k = None) (map fst (m_entries new))"

text \<open>Missing role permissions are taken over from what is stored; nil maps become empty.\<close>

definition apply_missing :: "resource_permissions \<Rightarrow> resource_permissions \<Rightarrow> resource_permissions" where
  "apply_missing current permissions =
     (let permissions = (if rp_role permissions = None \<and> rp_role current \<noteq> None
        then permissions\<lparr>rp_role := rp_role current\<rparr> else permissions)
      in permissions\<lparr>rp_role := m_nonnil (rp_role permissions)\<rparr>)"

definition check_added ::
  "('s, 'e, 'p) controller \<Rightarrow> token \<Rightarrow> resource_permissions \<Rightarrow> resource_permissions \<Rightarrow>
   (('s, 'e, 'p) world, resource_permissions reply) state" where
  "check_added C token current permissions =
     (let addedUsers = added_keys (rp_user permissions) (m_nonnil (rp_user current));
          addedGroups = added_keys (rp_group permissions) (m_nonnil (rp_group current))
      in case find (\<lambda>grp. \<not> HasGroup token grp) addedGroups of
           Some grp \<Rightarrow> ret (Inl (Err (''requesting user not in added group '' @ [CHR 0x27] @ grp @
             [CHR 0x27]), StatusBadRequest))
         | None \<Rightarrow>
             if addedUsers \<noteq> [] \<and> cfg_UserManagementUrl (ctl_config C) \<noteq> [] \<and>
                cfg_UserManagementUrl (ctl_config C) \<noteq> ''-''
             then do {
               r \<leftarrow> getUsersInSameGroup C token;
               case r of
                 Inl err \<Rightarrow> ret (Inl (err, StatusInternalServerError))
               | Inr usersInSameGroup \<Rightarrow>
                   (case find (\<lambda>addedUser. \<not> list_ex (\<lambda>u. user_id u = addedUser) usersInSameGroup)
                           addedUsers of
                      Some addedUser \<Rightarrow> ret (Inl (Err (''added user '' @ [CHR 0x27] @ addedUser @
                        [CHR 0x27] @ '' not in the same group as the requesting user''),
                        StatusBadRequest))
                    | None \<Rightarrow> ret (Inr (permissions, StatusOK))) }
             else ret (Inr (permissions, StatusOK)))"

definition checkEditPermission ::
  "('s, 'e, 'p) controller \<Rightarrow> token \<Rightarrow> string \<Rightarrow> string \<Rightarrow> resource_permissions \<Rightarrow>
   (('s, 'e, 'p) world, resource_permissions reply) state" where
  "checkEditPermission C token topicId rid permissions =
     (if IsAdmin token then ret (Inr (permissions, StatusOK))
      else do {
        r \<leftarrow> on_db (GetResource (ctl_db C) topicId rid default_get_options);
        case (case r of Inl err \<Rightarrow> if errors_is err ErrNotFound then Inr nil_permissions else Inl err
              | Inr resource \<Rightarrow> Inr (r_permissions resource)) of
          Inl err \<Rightarrow> ret (Inl (err, StatusInternalServerError))
        | Inr current \<Rightarrow>
            (let permissions = apply_missing current permissions;
                 current = current\<lparr>rp_role := m_nonnil (rp_role current)\<rparr>
             in if cfg_OnlyAdminsMayEditRolePermissions (ctl_config C) \<and> \<not> IsAdmin token \<and>
                   \<not> m_deep_equal (rp_role current) (rp_role permissions)
                then ret (Inl (Err ''only admins may edit role permissions'', StatusForbidden))
                else check_added C token current permissions) })"

definition SetPermission ::
  "('s, 'e, 'p) controller \<Rightarrow> string \<Rightarrow> string \<Rightarrow> string \<Rightarrow> resource_permissions \<Rightarrow>
   (('s, 'e, 'p) world, resource_permissions reply) state" where
  "SetPermission C tokenStr topicId rid permissions =
     (case jwt_Parse C tokenStr of
        Inl err \<Rightarrow> ret (Inl (err, StatusUnauthorized))
      | Inr token \<Rightarrow> do {
          t \<leftarrow> on_db (GetTopic (ctl_db C) topicId);
          case t of
            Inl err \<Rightarrow> ret (Inl (err, StatusInternalServerError))
          | Inr None \<Rightarrow> ret (Inl (Err ''unknown topic'', StatusNotFound))
          | Inr (Some topic) \<Rightarrow> do {
              let access = checkTopicDefaultPermission token topic [Administrate];
              let pureId = pure_id rid;
              a \<leftarrow> (if access then ret (Inr True)
                   else on_db (CheckResourcePermissions (ctl_db C) topicId pureId (GetUserId token)
                     (GetRoles token) (GetGroups token) [Administrate]));
              case a of
                Inl err \<Rightarrow> ret (Inl (err, StatusInternalServerError))
              | Inr access \<Rightarrow>
                  if \<not> access then ret (Inl (Err ''access denied'', StatusForbidden))
                  else if \<not> Valid permissions
                  then ret (Inl (Err ''invalid permissions'', StatusBadRequest))
                  else do {
                    r \<leftarrow> checkEditPermission C token (t_id topic) rid permissions;
                    case r of
                      Inl (err, code) \<Rightarrow> ret (Inl (err, code))
                    | Inr (permissions, code) \<Rightarrow> do {
                        err \<leftarrow> setPermission C topic
                          \<lparr>r_id = pureId, r_topic_id = t_id topic, r_permissions = permissions\<rparr>;
                        case err of
                          Some e \<Rightarrow> ret (Inl (e, StatusInternalServerError))
                        | None \<Rightarrow> ret (Inr (permissions, StatusOK)) } } } })"

section \<open>Specification\<close>

text \<open>Who may administrate a resource of a topic that exists.\<close>

definition may_administrate :: "store \<Rightarrow> token \<Rightarrow> string \<Rightarrow> string \<Rightarrow> bool" where
  "may_administrate st token t i \<longleftrightarrow>
     st_topics st t \<noteq> None \<and>
     (IsAdmin token \<or> topic_grants st t token [Administrate] \<or>
      resource_grants st t i token [Administrate])"

text \<open>What the database answers for the permissions stored under an id: nothing stored is no permissions.\<close>

definition stored_as :: "store \<Rightarrow> string \<Rightarrow> string \<Rightarrow> resource_permissions \<Rightarrow> bool" where
  "stored_as st t i current \<longleftrightarrow>
     (case st_resources st t i of None \<Rightarrow> current = nil_permissions | Some a \<Rightarrow> acl_of current = a)"

text \<open>
  The rules of \<open>checkEditPermission\<close>, for the permissions \<open>p\<close> of a request and those written, \<open>p'\<close>:
  users and groups are written as requested; for a requester who is no admin, the roles must stay
  as they are if the configuration says so, and groups may only be added by their members.
\<close>

definition edit_allowed ::
  "config \<Rightarrow> token \<Rightarrow> resource_permissions \<Rightarrow> resource_permissions \<Rightarrow> resource_permissions \<Rightarrow> bool" where
  "edit_allowed cfg token current p p' \<longleftrightarrow>
     rp_user p' = rp_user p \<and> rp_group p' = rp_group p \<and>
     (cfg_OnlyAdminsMayEditRolePermissions cfg \<longrightarrow> m_get (rp_role p') = m_get (rp_role current)) \<and>
     (\<forall>g. m_get (rp_group p) g \<noteq> None \<longrightarrow> m_get (rp_group current) g = None \<longrightarrow> HasGroup token g)"

section \<open>Lemmas\<close>

lemma set_added_keys: "k \<in> set (added_keys new current) \<longleftrightarrow> m_get new k \<noteq> None \<and> m_get current k = None"
proof -
  have "k \<in> set (map fst (m_entries new)) \<longleftrightarrow> m_get new k \<noteq> None"
    using m_entries_get [of k _ new] by force
  then show ?thesis by (auto simp: added_keys_def)
qed

lemma apply_missing_simps [simp]:
  "rp_user (apply_missing c p) = rp_user p" "rp_group (apply_missing c p) = rp_group p"
  "m_get (rp_role (apply_missing c p)) =
     (if rp_role p = None then m_get (rp_role c) else m_get (rp_role p))"
  by (auto simp: apply_missing_def Let_def fun_eq_iff)

lemma rp_role_apply_missing: "\<exists>x. rp_role (apply_missing c p) = m_nonnil x"
  by (auto simp: apply_missing_def Let_def)

lemma Valid_user: "rp_user p = rp_user q \<Longrightarrow> Valid p = Valid q"
  by (simp add: Valid_def)

text \<open>\<open>check_added\<close> reads only, and gives back what it was given.\<close>

lemma check_added_frame:
  "preserves (\<lambda>w. I (w_db w)) (\<lambda>w. f (w_db w)) (check_added C token current p)"
  unfolding check_added_def getUsersInSameGroup_def by (intro preserves_rules)

lemma check_added_result:
  assumes "run_state (check_added C token current p) w = (Inr (p', code), w')"
  shows "p' = p \<and> code = StatusOK \<and>
    (\<forall>g. m_get (rp_group p) g \<noteq> None \<longrightarrow> m_get (rp_group current) g = None \<longrightarrow> HasGroup token g)"
proof -
  let ?g = "added_keys (rp_group p) (m_nonnil (rp_group current))"
  have none: "find (\<lambda>grp. \<not> HasGroup token grp) ?g = None"
    using assms by (auto simp: check_added_def Let_def split: option.splits)
  then have "HasGroup token g" if "g \<in> set ?g" for g
    using that by (auto simp: find_None_iff)
  moreover have "p' = p \<and> code = StatusOK"
    using assms none
    by (auto simp: check_added_def Let_def split: option.splits if_splits prod.splits sum.splits)
  ultimately show ?thesis by (auto simp: set_added_keys)
qed

context database
begin

lemma checkEditPermission_wpreserves:
  "ctl_db C = db \<Longrightarrow> wpreserves (checkEditPermission C token t i p)"
  unfolding checkEditPermission_def
  by (intro preserves_rules check_added_frame) (simp_all add: reads)

lemma checkEditPermission_result:
  assumes C: "ctl_db C = db" and inv: "invar (w_db w)"
    and run: "run_state (checkEditPermission C token t i p) w = (Inr (p', code), w')"
  shows "code = StatusOK" and "IsAdmin token \<Longrightarrow> p' = p"
    and "\<not> IsAdmin token \<Longrightarrow> \<exists>current. stored_as (store_of (w_db w)) t i current \<and>
      edit_allowed (ctl_config C) token current p p'"
proof -
  have "code = StatusOK \<and> (IsAdmin token \<longrightarrow> p' = p) \<and>
    (\<not> IsAdmin token \<longrightarrow> (\<exists>current. stored_as (store_of (w_db w)) t i current \<and>
      edit_allowed (ctl_config C) token current p p'))"
  proof (cases "IsAdmin token")
    case True
    with run show ?thesis by (simp add: checkEditPermission_def)
  next
    case False
    obtain q d where get: "run_state (GetResource db t i default_get_options) (w_db w) = (q, d)"
      by fastforce
    obtain current where current: "(case q of Inl err \<Rightarrow> if errors_is err ErrNotFound
        then Inr nil_permissions else Inl err | Inr resource \<Rightarrow> Inr (r_permissions resource)) =
        (Inr current :: error + resource_permissions)"
      and check: "run_state (check_added C token (current\<lparr>rp_role := m_nonnil (rp_role current)\<rparr>)
        (apply_missing current p)) (w\<lparr>w_db := d\<rparr>) = (Inr (p', code), w')"
      and roles: "cfg_OnlyAdminsMayEditRolePermissions (ctl_config C) \<longrightarrow>
        m_deep_equal (m_nonnil (rp_role current)) (rp_role (apply_missing current p))"
      using run False get C
      by (auto simp: checkEditPermission_def on_db_def Let_def split: sum.splits if_splits)
    have stored: "stored_as (store_of (w_db w)) t i current"
      using current get GetResource_law [OF inv] GetResource_not_found [OF inv]
      by (cases q) (fastforce simp: stored_as_def split: if_splits)+
    note added = check_added_result [OF check]
    obtain x where x: "rp_role (apply_missing current p) = m_nonnil x"
      using rp_role_apply_missing by blast
    have "edit_allowed (ctl_config C) token current p p'"
      using added roles m_deep_equal_nonnil [of "rp_role current" x]
      by (auto simp: edit_allowed_def x simp del: apply_missing_simps(3))
    with stored added False show ?thesis by blast
  qed
  then show "code = StatusOK" and "IsAdmin token \<Longrightarrow> p' = p"
    and "\<not> IsAdmin token \<Longrightarrow> \<exists>current. stored_as (store_of (w_db w)) t i current \<and>
      edit_allowed (ctl_config C) token current p p'" by blast+
qed

text \<open>
  \<open>SetPermission\<close> either ends before it writes, with an error and the store as it was, or it passed
  every check and runs \<open>setPermission\<close> from the same store.
\<close>

lemma SetPermission_cases:
  assumes C: "ctl_db C = db" and inv: "invar (w_db w)" and parse: "jwt_Parse C s = Inr token"
    and run: "run_state (SetPermission C s t i p) w = (r, w')"
  shows "(\<exists>e code. r = Inl (e, code) \<and> invar (w_db w') \<and> store_of (w_db w') = store_of (w_db w)) \<or>
    (\<exists>topic p' w1 err. may_administrate (store_of (w_db w)) token t (pure_id i) \<and> Valid p \<and>
       t_id topic = t \<and> (if IsAdmin token then p' = p
         else \<exists>current. stored_as (store_of (w_db w)) t i current \<and>
           edit_allowed (ctl_config C) token current p p') \<and>
       invar (w_db w1) \<and> store_of (w_db w1) = store_of (w_db w) \<and>
       run_state (setPermission C topic \<lparr>r_id = pure_id i, r_topic_id = t, r_permissions = p'\<rparr>) w1 = (err, w') \<and>
       r = (case err of None \<Rightarrow> Inr (p', StatusOK) | Some e \<Rightarrow> Inl (e, StatusInternalServerError)))"
proof -
  let ?st = "store_of (w_db w)"
  obtain q d where get: "run_state (GetTopic db t) (w_db w) = (q, d)" by fastforce
  have keep: "invar d" "store_of d = ?st" using preservesD [OF reads_GetTopic get inv] by simp_all
  consider (no) "\<forall>topic. q \<noteq> Inr (Some topic)" | (yes) topic where "q = Inr (Some topic)" by blast
  then show ?thesis
  proof cases
    case no
    with run get parse C keep show ?thesis
      by (auto simp: SetPermission_def on_db_def split: sum.splits option.splits)
  next
    case yes
    have topic: "st_topics ?st t = Some (topic_core topic)" and tid: "t_id topic = t"
      using GetTopic_law [OF inv get [unfolded yes]] by simp_all
    let ?access = "checkTopicDefaultPermission token topic [Administrate]"
    let ?check = "if ?access then ret (Inr True)
      else on_db (CheckResourcePermissions db t (pure_id i) (GetUserId token)
        (GetRoles token) (GetGroups token) [Administrate])"
    obtain a w2 where check: "run_state ?check (w\<lparr>w_db := d\<rparr>) = (a, w2)" by fastforce
    have "wpreserves ?check" by (intro preserves_rules) (simp_all add: reads)
    from preservesD [OF this check] keep
    have keep2: "invar (w_db w2)" "store_of (w_db w2) = ?st" by simp_all
    have allowed: "may_administrate ?st token t (pure_id i)" if "a = Inr True"
    proof (cases ?access)
      case True
      then show ?thesis
        using topic by (auto simp: may_administrate_def checkTopicDefaultPermission_acl topic_grants_Some)
    next
      case False
      with check that obtain d2 where "run_state (CheckResourcePermissions db t (pure_id i)
          (GetUserId token) (GetRoles token) (GetGroups token) [Administrate]) d = (Inr True, d2)"
        by (auto simp: run_on_db)
      from CheckResourcePermissions_law [OF keep(1) this] show ?thesis
        using topic by (simp add: may_administrate_def resource_grants_def token_holds_def keep(2))
    qed
    define rest where "rest = (\<lambda>a. case a of
      Inl err \<Rightarrow> ret (Inl (err, StatusInternalServerError))
    | Inr access \<Rightarrow>
        if \<not> access then ret (Inl (Err ''access denied'', StatusForbidden))
        else if \<not> Valid p then ret (Inl (Err ''invalid permissions'', StatusBadRequest))
        else do {
          r \<leftarrow> checkEditPermission C token (t_id topic) i p;
          case r of
            Inl (err, code) \<Rightarrow> ret (Inl (err, code))
          | Inr (permissions, code) \<Rightarrow> do {
              err \<leftarrow> setPermission C topic
                \<lparr>r_id = pure_id i, r_topic_id = t_id topic, r_permissions = permissions\<rparr>;
              case err of
                Some e \<Rightarrow> ret (Inl (e, StatusInternalServerError))
              | None \<Rightarrow> ret (Inr (permissions, StatusOK)) } })"
    have rest: "run_state (rest a) w2 = (r, w')"
    proof -
      have "run_state (on_db (GetTopic db t)) w = (Inr (Some topic), w\<lparr>w_db := d\<rparr>)"
        using get yes by (simp add: run_on_db)
      then have "run_state (SetPermission C s t i p) w = run_state (State_Monad.bind ?check rest) (w\<lparr>w_db := d\<rparr>)"
        by (simp only: SetPermission_def parse C sum.case run_bind_eq option.case Let_def rest_def)
      then show ?thesis using run check by (simp add: run_bind)
    qed
    consider (deny) "a \<noteq> Inr True \<or> \<not> Valid p" | (pass) "a = Inr True" "Valid p" by blast
    then show ?thesis
    proof cases
      case deny
      with rest keep2 show ?thesis by (auto simp: rest_def split: sum.splits if_splits)
    next
      case pass
      obtain c w3 where edit: "run_state (checkEditPermission C token t i p) w2 = (c, w3)" by fastforce
      have keep3: "invar (w_db w3)" "store_of (w_db w3) = ?st"
        using preservesD [OF checkEditPermission_wpreserves [OF C] edit] keep2 by simp_all
      show ?thesis
      proof (cases c)
        case (Inl x)
        with rest pass edit keep3 show ?thesis by (cases x) (auto simp: rest_def tid)
      next
        case (Inr x)
        obtain p' code where c: "c = Inr (p', code)" using Inr by (cases x) auto
        note result = checkEditPermission_result [OF C keep2(1) edit [unfolded c], unfolded keep2(2)]
        obtain err w4 where set: "run_state (setPermission C topic
          \<lparr>r_id = pure_id i, r_topic_id = t, r_permissions = p'\<rparr>) w3 = (err, w4)" by fastforce
        from rest pass edit c set
        have "r = (case err of None \<Rightarrow> Inr (p', StatusOK) | Some e \<Rightarrow> Inl (e, StatusInternalServerError))"
          and "w4 = w'" by (auto simp: rest_def tid split: option.splits)
        with set keep3 allowed pass result tid show ?thesis
          by (intro disjI2 exI [of _ topic] exI [of _ p'] exI [of _ w3] exI [of _ err] conjI) simp_all
      qed
    qed
  qed
qed

text \<open>What a run may have changed, and what it has changed when it succeeds.\<close>

lemma SetPermission_store:
  assumes C: "ctl_db C = db" and inv: "invar (w_db w)" and parse: "jwt_Parse C s = Inr token"
    and run: "run_state (SetPermission C s t i p) w = (r, w')"
  shows "invar (w_db w')"
    and "store_of (w_db w') \<noteq> store_of (w_db w) \<Longrightarrow>
      may_administrate (store_of (w_db w)) token t (pure_id i) \<and> Valid p \<and>
      (\<exists>p'. store_of (w_db w') =
          put_resource \<lparr>r_id = pure_id i, r_topic_id = t, r_permissions = p'\<rparr> (store_of (w_db w)) \<and>
        (if IsAdmin token then p' = p
         else \<exists>current. stored_as (store_of (w_db w)) t i current \<and>
           edit_allowed (ctl_config C) token current p p'))"
    and "r = Inr (p', code) \<Longrightarrow> code = StatusOK \<and>
      may_administrate (store_of (w_db w)) token t (pure_id i) \<and> Valid p \<and>
      store_of (w_db w') =
        put_resource \<lparr>r_id = pure_id i, r_topic_id = t, r_permissions = p'\<rparr> (store_of (w_db w)) \<and>
      (if IsAdmin token then p' = p
       else \<exists>current. stored_as (store_of (w_db w)) t i current \<and>
         edit_allowed (ctl_config C) token current p p')"
proof -
  let ?st = "store_of (w_db w)" and ?st' = "store_of (w_db w')"
  let ?put = "\<lambda>p'. put_resource \<lparr>r_id = pure_id i, r_topic_id = t, r_permissions = p'\<rparr> ?st"
  let ?ok = "\<lambda>p'. if IsAdmin token then p' = p
    else \<exists>current. stored_as ?st t i current \<and> edit_allowed (ctl_config C) token current p p'"
  have "invar (w_db w') \<and> (?st' \<noteq> ?st \<longrightarrow>
      may_administrate ?st token t (pure_id i) \<and> Valid p \<and> (\<exists>p'. ?st' = ?put p' \<and> ?ok p')) \<and>
    (\<forall>p' code. r = Inr (p', code) \<longrightarrow> code = StatusOK \<and>
      may_administrate ?st token t (pure_id i) \<and> Valid p \<and> ?st' = ?put p' \<and> ?ok p')"
    using SetPermission_cases [OF C inv parse run]
  proof (elim disjE exE conjE, goal_cases)
    case 1 then show ?case by simp
  next
    case (2 topic p' w1 err)
    note set = setPermission_store [OF C 2(5,7), unfolded 2(6)]
    have "err = None \<Longrightarrow> ?st' = ?put p'" using set(2) by simp
    with 2 set show ?case by (cases err) auto
  qed
  then show "invar (w_db w')"
    and "?st' \<noteq> ?st \<Longrightarrow> may_administrate ?st token t (pure_id i) \<and> Valid p \<and>
      (\<exists>p'. ?st' = ?put p' \<and> ?ok p')"
    and "r = Inr (p', code) \<Longrightarrow> code = StatusOK \<and>
      may_administrate ?st token t (pure_id i) \<and> Valid p \<and> ?st' = ?put p' \<and> ?ok p'" by blast+
qed

lemma ListAccessibleResourceIds_result:
  assumes C: "ctl_db C = db" and inv: "invar (w_db w)" and known: "all_known ps"
    and parse: "jwt_Parse C s = Inr token" and ids: "lo_ids opt = None"
    and run: "run_state (ListAccessibleResourceIds C s t opt ps) w = (Inr (l, code), w')"
  shows "code = StatusOK \<and> (\<exists>full. sorted full \<and> distinct full \<and>
    set full = {i. st_resources (store_of (w_db w)) t i \<noteq> None \<and>
      access_decision (store_of (w_db w)) token t i ps} \<and>
    l = page (lo_limit opt) (lo_offset opt) full)"
proof -
  let ?st = "store_of (w_db w)"
  obtain q w1 where default: "run_state (CheckTopicDefaultPermission C token t ps) w = (q, w1)"
    by fastforce
  note result = CheckTopicDefaultPermission_result [OF C inv known default]
  have keep: "invar (w_db w1)" "store_of (w_db w1) = ?st"
    using preservesD [OF CheckTopicDefaultPermission_wpreserves [OF C] default] inv by simp_all
  obtain b code' where q: "q = Inr (b, code')"
    using run parse default by (cases q) (auto simp: ListAccessibleResourceIds_def split: prod.splits)
  note decided = result(1) [OF q]
  have full: "sorted (map r_id full)" "distinct (map r_id full)"
    "set (map r_id full) = {i. \<exists>a. st_resources ?st t i = Some a \<and> R i a}"
    if "lists_resources ?st t R full" for full R
    using that lists_resources_ids [OF that] by (simp_all add: lists_resources_def)
  show ?thesis
  proof (cases b)
    case True
    obtain d where "run_state (AdminListResourceIds db t opt) (w_db w1) = (Inr l, d)" "code = StatusOK"
      using run parse default q True C
      by (auto simp: ListAccessibleResourceIds_def on_db_def split: prod.splits sum.splits)
    with AdminListResourceIds_law [OF keep(1) this(1) ids] decided True keep(2)
    obtain full where "lists_resources ?st t (\<lambda>i a. True) full"
      "l = page (lo_limit opt) (lo_offset opt) (map r_id full)" "code = StatusOK"
      by auto
    with full [OF this(1)] decided True show ?thesis
      by (intro conjI exI [of _ "map r_id full"]) (auto simp: access_decision_def)
  next
    case False
    obtain d where "run_state (ListResourceIdsByPermissions db t (GetUserId token) (GetRoles token)
        (GetGroups token) opt ps) (w_db w1) = (Inr l, d)" "code = StatusOK"
      using run parse default q False C
      by (auto simp: ListAccessibleResourceIds_def on_db_def split: prod.splits sum.splits)
    with ListResourceIdsByPermissions_law [OF keep(1) this(1) known] decided False keep(2)
    obtain full where "lists_resources ?st t (\<lambda>i a. token_holds a token ps) full"
      "l = page (lo_limit opt) (lo_offset opt) (map r_id full)" "code = StatusOK"
      by (auto simp: token_holds_def)
    with full [OF this(1)] decided False show ?thesis
      by (intro conjI exI [of _ "map r_id full"])
        (auto simp: access_decision_def resource_grants_def)
  qed
qed

lemma RemoveResource_store:
  assumes C: "ctl_db C = db" and inv: "invar (w_db w)" and parse: "jwt_Parse C s = Inr token"
    and run: "run_state (RemoveResource C s t i) w = (r, w')"
  shows "invar (w_db w') \<and>
    (store_of (w_db w') \<noteq> store_of (w_db w) \<longrightarrow> IsAdmin token) \<and>
    (\<not> IsAdmin token \<longrightarrow> reply_code r = StatusForbidden) \<and>
    (r = Inr ((), StatusOK) \<longrightarrow> store_of (w_db w') = drop_resource t i (store_of (w_db w))) \<and>
    store_of (w_db w') \<in> {store_of (w_db w), drop_resource t i (store_of (w_db w))}"
proof (cases "IsAdmin token")
  case True
  obtain e d where del: "run_state (DeleteResource db t i) (w_db w) = (e, d)" by fastforce
  with run parse True C have w': "w' = w\<lparr>w_db := d\<rparr>"
    and r: "r = (case e of None \<Rightarrow> Inr ((), StatusOK) | Some x \<Rightarrow> Inl (x, StatusInternalServerError))"
    by (auto simp: RemoveResource_def on_db_def split: option.splits)
  from DeleteResource_law [OF inv del] preservesD [OF maintains_DeleteResource del inv] True
  show ?thesis by (auto simp: w' r split: option.splits)
next
  case False
  with run parse inv show ?thesis by (auto simp: RemoveResource_def)
qed

lemma CtlGetResource_result:
  assumes C: "ctl_db C = db" and inv: "invar (w_db w)" and parse: "jwt_Parse C s = Inr token"
    and run: "run_state (CtlGetResource C s t i) w = (r, w')"
  shows "r = Inr (res, code) \<Longrightarrow> code = StatusOK \<and> r_id res = i \<and> r_topic_id res = t \<and>
      st_resources (store_of (w_db w)) t (pure_id i) = Some (acl_of (r_permissions res)) \<and>
      access_decision (store_of (w_db w)) token t (pure_id i) [Administrate]"
    and "r = Inl (e, StatusForbidden) \<Longrightarrow>
      \<not> access_decision (store_of (w_db w)) token t (pure_id i) [Administrate]"
proof -
  let ?st = "store_of (w_db w)"
  obtain q w1 where default: "run_state (CheckTopicDefaultPermission C token t [Administrate]) w = (q, w1)"
    by fastforce
  note result = CheckTopicDefaultPermission_result [OF C inv _ default]
  have keep: "invar (w_db w1)" "store_of (w_db w1) = ?st"
    using preservesD [OF CheckTopicDefaultPermission_wpreserves [OF C] default] inv by simp_all
  have "(\<forall>res code. r = Inr (res, code) \<longrightarrow> code = StatusOK \<and> r_id res = i \<and> r_topic_id res = t \<and>
      st_resources ?st t (pure_id i) = Some (acl_of (r_permissions res)) \<and>
      access_decision ?st token t (pure_id i) [Administrate]) \<and>
    (\<forall>e. r = Inl (e, StatusForbidden) \<longrightarrow> \<not> access_decision ?st token t (pure_id i) [Administrate])"
  proof (cases q)
    case (Inl x)
    then obtain e code where "q = Inl (e, code)" by (cases x) auto
    with run parse default result(2) show ?thesis by (auto simp: CtlGetResource_def)
  next
    case (Inr x)
    then obtain b code where q: "q = Inr (b, code)" by (cases x) auto
    note decided = result(1) [OF _ q]
    let ?opts = "\<lparr>go_check_permission = \<not> b, go_user_id = GetUserId token,
      go_group_ids = GetGroups token, go_role_ids = GetRoles token, go_permissions = [Administrate]\<rparr>"
    obtain g d where get: "run_state (GetResource db t (pure_id i) ?opts) (w_db w1) = (g, d)" by fastforce
    have r: "r = (case g of
        Inl err \<Rightarrow> if errors_is err PermissionCheckFailed then Inl (Err ''access denied'', StatusForbidden)
          else if errors_is err ErrNotFound then Inl (err, StatusNotFound)
          else Inl (err, StatusInternalServerError)
      | Inr res \<Rightarrow> Inr (res\<lparr>r_id := i\<rparr>, StatusOK))"
      using run parse default q get C
      by (auto simp: CtlGetResource_def on_db_def Let_def split: sum.splits)
    show ?thesis
    proof (cases g)
      case (Inl err)
      with GetResource_failed [OF keep(1) get [unfolded Inl]] decided show ?thesis
        by (auto simp: r keep(2) access_decision_def resource_grants_def token_holds_def)
    next
      case (Inr res)
      with GetResource_law [OF keep(1) get [unfolded Inr]] decided show ?thesis
        by (auto simp: r keep(2) access_decision_def resource_grants_def token_holds_def)
    qed
  qed
  then show "r = Inr (res, code) \<Longrightarrow> code = StatusOK \<and> r_id res = i \<and> r_topic_id res = t \<and>
      st_resources ?st t (pure_id i) = Some (acl_of (r_permissions res)) \<and>
      access_decision ?st token t (pure_id i) [Administrate]"
    and "r = Inl (e, StatusForbidden) \<Longrightarrow> \<not> access_decision ?st token t (pure_id i) [Administrate]"
    by blast+
qed

end

section \<open>Properties\<close>

text \<open>
  C1. Nothing is changed without the right to: if a run of \<open>SetPermission\<close> changed the store, the
  topic exists, the requester is an admin or administrates the topic or the resource under the pure
  id, the new permissions have an admin user, and the only change is the entry of that pure id.
\<close>

theorem set_permission_authorised:
  assumes "database db store_of invar" "ctl_db C = db" "invar (w_db w)"
    and "jwt_Parse C s = Inr token"
    and "run_state (SetPermission C s t i p) w = (r, w')"
    and "store_of (w_db w') \<noteq> store_of (w_db w)"
  shows "may_administrate (store_of (w_db w)) token t (pure_id i) \<and> Valid p \<and>
    (\<exists>p'. Valid p' \<and> store_of (w_db w') =
       put_resource \<lparr>r_id = pure_id i, r_topic_id = t, r_permissions = p'\<rparr> (store_of (w_db w)))"
proof -
  from database.SetPermission_store(2) [OF assms] obtain p' where
    p': "store_of (w_db w') =
      put_resource \<lparr>r_id = pure_id i, r_topic_id = t, r_permissions = p'\<rparr> (store_of (w_db w))"
    and user: "rp_user p' = rp_user p"
    by (auto simp: edit_allowed_def split: if_splits)
  with Valid_user [OF user] database.SetPermission_store(2) [OF assms] show ?thesis by blast
qed

text \<open>The permissions Alice sets: Bob gets to read, the roles stay.\<close>

definition shared :: resource_permissions where
  "shared = (r_permissions device)\<lparr>rp_user := m_put ''bob'' read_only (rp_user (r_permissions device))\<rparr>"

definition shared_world :: "(mock, sample_ext, string) world" where
  "shared_world = snd (run_state (SetPermission sample_controller ''Bearer alice'' ''devices'' ''d'' shared) sample_world)"

lemma sample_set:
  "run_state (SetPermission sample_controller ''Bearer alice'' ''devices'' ''d'' shared) sample_world =
     (Inr (shared, 200), shared_world)"
proof -
  have "fst (run_state (SetPermission sample_controller ''Bearer alice'' ''devices'' ''d'' shared) sample_world) =
      Inr (shared, 200)"
    by code_simp
  then show ?thesis unfolding shared_world_def by (metis prod.collapse)
qed

lemma sample_read_after:
  "fst (run_state (CheckPermission sample_controller ''Bearer bob'' ''devices'' ''d'' [Read, Execute])
     sample_world) = Inr (False, 200)"
  by code_simp

lemma shared_changes: "mock_store (w_db shared_world) \<noteq> mock_store (w_db sample_world)"
proof -
  have "map_option (\<lambda>e. m_get (rp_user (r_permissions (rt_resource e))) ''bob'')
      (find (\<lambda>e. rt_key e = (''devices'', ''d'')) (mk_resources (w_db shared_world))) = Some (Some read_only)"
    "map_option (\<lambda>e. m_get (rp_user (r_permissions (rt_resource e))) ''bob'')
      (find (\<lambda>e. rt_key e = (''devices'', ''d'')) (mk_resources (w_db sample_world))) = Some None"
    by code_simp+
  then have "map_option (\<lambda>a. a (User ''bob'') Read) (st_resources (mock_store (w_db shared_world)) ''devices'' ''d'') = Some True"
    "map_option (\<lambda>a. a (User ''bob'') Read) (st_resources (mock_store (w_db sample_world)) ''devices'' ''d'') = Some False"
    by (auto simp: mock_store_def acl_of_def m_index_def read_only_def no_permissions_def)
  then show ?thesis by auto
qed

theorem set_permission_authorised_witness:
  "may_administrate (mock_store (w_db sample_world)) alice ''devices'' ''d'' \<and> Valid shared"
  using set_permission_authorised [OF mock.database_axioms sample_db sample_invar sample_parse(1)
      sample_set shared_changes]
  by (simp add: pure_id_no_modifier)

text \<open>
  C6. A successful \<open>SetPermission\<close> answers 200 with the permissions it has stored: under the pure id
  the access control list is now that of the answer, no other entry and no topic has changed, and
  users and groups are those of the request. For an admin the answer is the request.
\<close>

theorem set_permission_effect:
  assumes "database db store_of invar" "ctl_db C = db" "invar (w_db w)"
    and "jwt_Parse C s = Inr token"
    and "run_state (SetPermission C s t i p) w = (Inr (p', code), w')"
  shows "code = StatusOK \<and> invar (w_db w') \<and>
    store_of (w_db w') =
      put_resource \<lparr>r_id = pure_id i, r_topic_id = t, r_permissions = p'\<rparr> (store_of (w_db w)) \<and>
    rp_user p' = rp_user p \<and> rp_group p' = rp_group p \<and> (IsAdmin token \<longrightarrow> p' = p)"
  using database.SetPermission_store(1,3) [OF assms] by (auto simp: edit_allowed_def split: if_splits)

theorem set_permission_effect_witness:
  "st_resources (mock_store (w_db shared_world)) ''devices'' ''d'' = Some (acl_of shared) \<and>
   st_resources (mock_store (w_db shared_world)) ''device-types'' ''dt'' =
     st_resources (mock_store (w_db sample_world)) ''device-types'' ''dt''"
  using set_permission_effect [OF mock.database_axioms sample_db sample_invar sample_parse(1) sample_set]
  by (simp add: pure_id_no_modifier)

text \<open>
  Only who administrates the topic may create a resource: for an id whose pure id is not
  stored, a request of anyone else fails and changes nothing.
\<close>

theorem set_permission_create_guard:
  assumes "database db store_of invar" "ctl_db C = db" "invar (w_db w)"
    and "jwt_Parse C s = Inr token"
    and "st_resources (store_of (w_db w)) t (pure_id i) = None"
    and "\<not> IsAdmin token" "\<not> topic_grants (store_of (w_db w)) t token [Administrate]"
    and "run_state (SetPermission C s t i p) w = (r, w')"
  shows "(\<exists>e code. r = Inl (e, code)) \<and> store_of (w_db w') = store_of (w_db w)"
proof -
  have no: "\<not> may_administrate (store_of (w_db w)) token t (pure_id i)"
    using assms(5-7) by (simp add: may_administrate_def resource_grants_def)
  with database.SetPermission_store(2) [OF assms(1-4,8)]
  have "store_of (w_db w') = store_of (w_db w)" by blast
  moreover have "\<exists>e code. r = Inl (e, code)"
    using no database.SetPermission_store(3) [OF assms(1-4)] assms(8)
    by (cases r) (auto simp: prod_eq_iff)
  ultimately show ?thesis by simp
qed

lemma sample_new:
  "fst (run_state (SetPermission sample_controller ''Bearer bob'' ''devices'' ''new'' shared) sample_world) =
     Inl (Err ''access denied'', 403)"
  by code_simp

theorem set_permission_create_guard_witness:
  "mock_store (w_db (snd (run_state (SetPermission sample_controller ''Bearer bob'' ''devices'' ''new'' shared)
     sample_world))) = mock_store (w_db sample_world)"
proof -
  have "st_resources (mock_store (w_db sample_world)) ''devices'' (pure_id ''new'') = None"
    by (simp add: mock_store_def sample_world_def device_def device_type_def rt_key_def pure_id_no_modifier)
  moreover have "\<not> IsAdmin bob" by (simp add: bob_def)
  moreover have "\<not> topic_grants (mock_store (w_db sample_world)) ''devices'' bob [Administrate]"
    by (simp add: topic_grants_def mock_store_def sample_world_def devices_def acl_grants_def)
  ultimately show ?thesis
    using set_permission_create_guard [OF mock.database_axioms sample_db sample_invar sample_parse(2)
        _ _ _ prod.collapse [symmetric]] by blast
qed



definition without_roles :: resource_permissions where
  "without_roles = (r_permissions device)\<lparr>rp_role := m_empty\<rparr>"



lemma sample_list:
  "fst (run_state (ListAccessibleResourceIds sample_controller ''Bearer bob'' ''devices''
     default_list_options [Read]) sample_world) = Inr ([''d''], 200)"
  by code_simp


text \<open>
  C15. Removing a resource is for admins: anyone else gets 403 and the store stays as it is. When
  the answer is 200, the entry of the id is gone and nothing else; in every case the store is the
  old one or the one without the entry.
\<close>

theorem remove_resource_guard:
  assumes "database db store_of invar" "ctl_db C = db" "invar (w_db w)"
    and "jwt_Parse C s = Inr token"
    and "run_state (RemoveResource C s t i) w = (r, w')"
  shows "(\<not> IsAdmin token \<longrightarrow> reply_code r = StatusForbidden \<and>
      store_of (w_db w') = store_of (w_db w)) \<and>
    (r = Inr ((), StatusOK) \<longrightarrow> store_of (w_db w') = drop_resource t i (store_of (w_db w))) \<and>
    store_of (w_db w') \<in> {store_of (w_db w), drop_resource t i (store_of (w_db w))}"
  using database.RemoveResource_store [OF assms] by blast

theorem remove_resource_guard_witness:
  "mock_store (w_db (snd (run_state (RemoveResource sample_controller ''Bearer alice'' ''devices'' ''d'')
     sample_world))) = mock_store (w_db sample_world)"
  using remove_resource_guard [OF mock.database_axioms sample_db sample_invar sample_parse(1)
      prod.collapse [symmetric]]
  by (simp add: alice_def)

text \<open>
  C14. Reading a resource: an answer 200 carries the id as it was asked for and the permissions
  stored under the pure id, and the requester administrates it; 403 is only said to one who does
  not.
\<close>

theorem get_resource_guard:
  assumes "database db store_of invar" "ctl_db C = db" "invar (w_db w)"
    and "jwt_Parse C s = Inr token"
    and "run_state (CtlGetResource C s t i) w = (r, w')"
  shows "case r of
      Inr (res, code) \<Rightarrow> code = StatusOK \<and> r_id res = i \<and> r_topic_id res = t \<and>
        st_resources (store_of (w_db w)) t (pure_id i) = Some (acl_of (r_permissions res)) \<and>
        access_decision (store_of (w_db w)) token t (pure_id i) [Administrate]
    | Inl (e, code) \<Rightarrow> code = StatusForbidden \<longrightarrow>
        \<not> access_decision (store_of (w_db w)) token t (pure_id i) [Administrate]"
  using database.CtlGetResource_result [OF assms] by (auto split: sum.split)

lemma sample_get:
  "fst (run_state (CtlGetResource sample_controller ''Bearer bob'' ''devices'' ''d$x=y'') sample_world) =
     Inl (Err ''access denied'', 403)"
  by code_simp

theorem get_resource_guard_witness:
  "\<not> access_decision (mock_store (w_db sample_world)) bob ''devices'' (pure_id ''d$x=y'') [Administrate]"
  using get_resource_guard [OF mock.database_axioms sample_db sample_invar sample_parse(2)
      prod.collapse [symmetric], of "''devices''" "''d$x=y''"]
  by (simp add: sample_get)

end
