(* ===== verification/CtlTopics.thy ===== *)
theory CtlTopics
  imports CtlCheck
begin

text \<open>
  Topics, \<open>pkg/controller/topics.go\<close>: only admins list, read, set and remove them. The theorems say
  what setting and removing a topic does to the store.
\<close>

section \<open>Operations\<close>

definition CtlListTopics ::
  "('s, 'e, 'p) controller \<Rightarrow> string \<Rightarrow> list_options \<Rightarrow> (('s, 'e, 'p) world, topic list reply) state" where
  "CtlListTopics C tokenStr options =
     (case jwt_Parse C tokenStr of
        Inl err \<Rightarrow> ret (Inl (err, StatusUnauthorized))
      | Inr token \<Rightarrow>
          if \<not> IsAdmin token
          then ret (Inl (Err ''only admins may manage topics'', StatusUnauthorized))
          else do {
            r \<leftarrow> on_db (ListTopics (ctl_db C) options);
            case r of
              Inl err \<Rightarrow> ret (Inl (err, StatusInternalServerError))
            | Inr result \<Rightarrow> ret (Inr (result, StatusOK)) })"

definition CtlGetTopic ::
  "('s, 'e, 'p) controller \<Rightarrow> string \<Rightarrow> string \<Rightarrow> (('s, 'e, 'p) world, topic reply) state" where
  "CtlGetTopic C tokenStr tid =
     (case jwt_Parse C tokenStr of
        Inl err \<Rightarrow> ret (Inl (err, StatusUnauthorized))
      | Inr token \<Rightarrow>
          if \<not> IsAdmin token
          then ret (Inl (Err ''only admins may manage topics'', StatusUnauthorized))
          else do {
            r \<leftarrow> on_db (GetTopic (ctl_db C) tid);
            case r of
              Inl err \<Rightarrow> ret (Inl (err, StatusInternalServerError))
            | Inr None \<Rightarrow> ret (Inl (Err ''topic does not exist'', StatusNotFound))
            | Inr (Some result) \<Rightarrow> ret (Inr (result, StatusOK)) })"

text \<open>A notification that cannot be sent is only logged.\<close>

definition RemoveTopic ::
  "('s, 'e, 'p) controller \<Rightarrow> string \<Rightarrow> string \<Rightarrow> (('s, 'e, 'p) world, unit reply) state" where
  "RemoveTopic C tokenStr tid =
     (case jwt_Parse C tokenStr of
        Inl err \<Rightarrow> ret (Inl (err, StatusUnauthorized))
      | Inr token \<Rightarrow>
          if \<not> IsAdmin token
          then ret (Inl (Err ''only admins may manage topics'', StatusUnauthorized))
          else do {
            _ \<leftarrow> on_ext (SendMessage C
              \<lparr>msg_sender = ''github.com/SENERGY-Platform/permissions-v2'',
               msg_title = ''PermissionsV2 Remove Topic Config'',
               msg_tags = [''permissions'', ''topic''],
               msg_body = ''update topic config for '' @ tid\<rparr>);
            err \<leftarrow> on_db (DeleteTopic (ctl_db C) tid);
            case err of
              Some e \<Rightarrow> ret (Inl (e, StatusInternalServerError))
            | None \<Rightarrow> ret (Inr ((), StatusOK)) })"

definition CtlSetTopic ::
  "('s, 'e, 'p) controller \<Rightarrow> string \<Rightarrow> topic \<Rightarrow> (('s, 'e, 'p) world, topic reply) state" where
  "CtlSetTopic C tokenStr topic =
     (case jwt_Parse C tokenStr of
        Inl err \<Rightarrow> ret (Inl (err, StatusUnauthorized))
      | Inr token \<Rightarrow>
          if \<not> IsAdmin token
          then ret (Inl (Err ''only admins may manage topics'', StatusUnauthorized))
          else
            (let topic = (if t_id topic = [] then topic\<lparr>t_id := t_publish_to_kafka_topic topic\<rparr> else topic)
             in case Validate topic of
               Some err \<Rightarrow> ret (Inl (ErrWrap ''invalid topic: '' err, StatusBadRequest))
             | None \<Rightarrow> do {
                 r \<leftarrow> on_db (GetTopic (ctl_db C) (t_id topic));
                 case r of
                   Inl err \<Rightarrow> ret (Inl (err, StatusInternalServerError))
                 | Inr found \<Rightarrow>
                     (case (case found of None \<Rightarrow> None
                            | Some old \<Rightarrow> if Topic_Equal old topic then Some old else None) of
                        Some old \<Rightarrow> ret (Inr (old, StatusAccepted))
                      | None \<Rightarrow> do {
                          _ \<leftarrow> on_ext (SendMessage C
                            \<lparr>msg_sender = ''github.com/SENERGY-Platform/permissions-v2'',
                             msg_title = ''PermissionsV2 Update Topic Config'',
                             msg_tags = [''permissions'', ''topic''],
                             msg_body = ''update topic config for '' @ t_id topic @ '' '' @
                               t_publish_to_kafka_topic topic\<rparr>);
                          err \<leftarrow> on_db (SetTopic (ctl_db C) topic);
                          case err of
                            Some e \<Rightarrow> ret (Inl (e, StatusInternalServerError))
                          | None \<Rightarrow> ret (Inr (topic, StatusOK)) }) }))"

section \<open>Lemmas\<close>

text \<open>The topic a request is about: its id defaults to the name of the Kafka topic.\<close>

definition with_id :: "topic \<Rightarrow> topic" where
  "with_id topic = (if t_id topic = [] then topic\<lparr>t_id := t_publish_to_kafka_topic topic\<rparr> else topic)"

lemma with_id_id [simp]: "t_id topic \<noteq> [] \<Longrightarrow> with_id topic = topic"
  by (simp add: with_id_def)

text \<open>Topics that compare equal grant the same by default and differ at most in the time stamp and in nil maps.\<close>

lemma Topic_Equal_iff:
  "Topic_Equal a b \<longleftrightarrow> t_id a = t_id b \<and>
     t_publish_to_kafka_topic a = t_publish_to_kafka_topic b \<and>
     t_ensure_kafka_topic_init a = t_ensure_kafka_topic_init b \<and>
     t_ensure_kafka_topic_init_partition_number a = t_ensure_kafka_topic_init_partition_number b \<and>
     m_get (rp_user (t_default_permissions a)) = m_get (rp_user (t_default_permissions b)) \<and>
     m_get (rp_group (t_default_permissions a)) = m_get (rp_group (t_default_permissions b)) \<and>
     m_get (rp_role (t_default_permissions a)) = m_get (rp_role (t_default_permissions b))"
  by (auto simp: Topic_Equal_def deep_equal_nonnil_permissions)

lemma Topic_Equal_acl:
  "Topic_Equal a b \<Longrightarrow> acl_of (t_default_permissions a) = acl_of (t_default_permissions b)"
  by (rule acl_of_m_get) (simp_all add: Topic_Equal_iff)

context database
begin

lemma CtlSetTopic_store:
  fixes C :: "('a, 'e, 'p) controller"
  assumes C: "ctl_db C = db" and inv: "invar (w_db w)" and parse: "jwt_Parse C s = Inr token"
    and run: "run_state (CtlSetTopic C s topic) w = (r, w')"
  shows "invar (w_db w')"
    and "store_of (w_db w') = store_of (w_db w) \<or>
      (IsAdmin token \<and> Validate (with_id topic) = None \<and>
       store_of (w_db w') = put_topic (with_id topic) (store_of (w_db w)))"
    and "r = Inr (v, code) \<Longrightarrow> IsAdmin token \<and> Validate (with_id topic) = None \<and>
      (code = StatusOK \<and> v = with_id topic \<and>
         store_of (w_db w') = put_topic (with_id topic) (store_of (w_db w)) \<or>
       code = StatusAccepted \<and> Topic_Equal v (with_id topic) \<and>
         st_topics (store_of (w_db w)) (t_id (with_id topic)) = Some (topic_core v) \<and>
         store_of (w_db w') = store_of (w_db w))"
proof -
  let ?st = "store_of (w_db w)" and ?st' = "store_of (w_db w')" and ?t = "with_id topic"
  have "invar (w_db w') \<and>
    (?st' = ?st \<or> (IsAdmin token \<and> Validate ?t = None \<and> ?st' = put_topic ?t ?st)) \<and>
    (\<forall>v code. r = Inr (v, code) \<longrightarrow> IsAdmin token \<and> Validate ?t = None \<and>
      (code = StatusOK \<and> v = ?t \<and> ?st' = put_topic ?t ?st \<or>
       code = StatusAccepted \<and> Topic_Equal v ?t \<and> st_topics ?st (t_id ?t) = Some (topic_core v) \<and>
       ?st' = ?st))"
  proof (cases "IsAdmin token \<and> Validate ?t = None")
    case False
    with run parse inv show ?thesis
      by (auto simp: CtlSetTopic_def with_id_def [symmetric] Let_def split: option.splits if_splits)
  next
    case True
    obtain q d where get: "run_state (GetTopic db (t_id ?t)) (w_db w) = (q, d)" by fastforce
    have keep: "invar d" "store_of d = ?st" using preservesD [OF reads_GetTopic get inv] by simp_all
    define rest :: "(('a, 'e, 'p) world, topic reply) state" where "rest = do {
      _ \<leftarrow> on_ext (SendMessage C \<lparr>msg_sender = ''github.com/SENERGY-Platform/permissions-v2'',
         msg_title = ''PermissionsV2 Update Topic Config'', msg_tags = [''permissions'', ''topic''],
         msg_body = ''update topic config for '' @ t_id ?t @ '' '' @ t_publish_to_kafka_topic ?t\<rparr>);
      err \<leftarrow> on_db (SetTopic db ?t);
      case err of
        Some e \<Rightarrow> ret (Inl (e, StatusInternalServerError))
      | None \<Rightarrow> ret (Inr (?t, StatusOK)) }"
    have on: "run_state (on_db (GetTopic db (t_id ?t))) w = (q, w\<lparr>w_db := d\<rparr>)"
      using get by (simp add: run_on_db)
    have body: "run_state (case q of
        Inl err \<Rightarrow> ret (Inl (err, StatusInternalServerError))
      | Inr found \<Rightarrow> (case (case found of None \<Rightarrow> None
            | Some old \<Rightarrow> if Topic_Equal old ?t then Some old else None) of
          Some old \<Rightarrow> ret (Inr (old, StatusAccepted))
        | None \<Rightarrow> rest)) (w\<lparr>w_db := d\<rparr>) = (r, w')"
      using run parse True
      by (simp only: CtlSetTopic_def sum.case option.case if_False simp_thms with_id_def [symmetric]
          Let_def C run_bind_eq [OF on] rest_def)
    have written: "invar (w_db w') \<and> (r = Inr (?t, StatusOK) \<and> ?st' = put_topic ?t ?st \<or>
        (\<exists>e. r = Inl (e, StatusInternalServerError)) \<and> (?st' = put_topic ?t ?st \<or> ?st' = ?st))"
      if "run_state rest (w\<lparr>w_db := d\<rparr>) = (r, w')"
    proof -
      from that obtain err d2 where set: "run_state (SetTopic db ?t) d = (err, d2)"
        and "w_db w' = d2"
        and r: "r = (case err of None \<Rightarrow> Inr (?t, StatusOK) | Some e \<Rightarrow> Inl (e, StatusInternalServerError))"
        by (auto simp: rest_def on_ext_def on_db_def split: prod.splits option.splits)
      with SetTopic_law [OF keep(1) set] preservesD [OF maintains_SetTopic set keep(1)] show ?thesis
        by (cases err) (auto simp: keep(2))
    qed
    show ?thesis
    proof (cases q)
      case (Inl e)
      with body keep show ?thesis by auto
    next
      case (Inr found)
      note law = GetTopic_law [OF inv get [unfolded Inr]]
      show ?thesis
      proof (cases "\<exists>old. found = Some old \<and> Topic_Equal old ?t")
        case True
        then obtain old where old: "found = Some old" "Topic_Equal old ?t" by blast
        with body Inr have r: "r = Inr (old, StatusAccepted)" and "w' = w\<lparr>w_db := d\<rparr>" by auto
        with keep have same: "invar (w_db w')" "?st' = ?st" by simp_all
        have "st_topics ?st (t_id ?t) = Some (topic_core old)" using law old(1) by simp
        with same r old(2) \<open>IsAdmin token \<and> Validate ?t = None\<close> show ?thesis by blast
      next
        case False
        then have "run_state rest (w\<lparr>w_db := d\<rparr>) = (r, w')"
          using body Inr by (cases found) auto
        with written True show ?thesis by auto
      qed
    qed
  qed
  then show "invar (w_db w')"
    and "?st' = ?st \<or> (IsAdmin token \<and> Validate ?t = None \<and> ?st' = put_topic ?t ?st)"
    and "r = Inr (v, code) \<Longrightarrow> IsAdmin token \<and> Validate ?t = None \<and>
      (code = StatusOK \<and> v = ?t \<and> ?st' = put_topic ?t ?st \<or>
       code = StatusAccepted \<and> Topic_Equal v ?t \<and> st_topics ?st (t_id ?t) = Some (topic_core v) \<and>
       ?st' = ?st)"
    by blast+
qed

lemma RemoveTopic_store:
  assumes C: "ctl_db C = db" and inv: "invar (w_db w)" and parse: "jwt_Parse C s = Inr token"
    and run: "run_state (RemoveTopic C s i) w = (r, w')"
  shows "invar (w_db w') \<and> (if IsAdmin token
    then drop_topic_partly i (store_of (w_db w)) (store_of (w_db w')) \<and>
      (reply_code r = StatusOK \<longrightarrow> store_of (w_db w') = drop_topic i (store_of (w_db w)))
    else reply_code r = StatusUnauthorized \<and> store_of (w_db w') = store_of (w_db w))"
proof (cases "IsAdmin token")
  case True
  obtain e d where del: "run_state (DeleteTopic db i) (w_db w) = (e, d)" by fastforce
  with run parse True C have w': "w_db w' = d"
    and r: "r = (case e of None \<Rightarrow> Inr ((), StatusOK) | Some x \<Rightarrow> Inl (x, StatusInternalServerError))"
    by (auto simp: RemoveTopic_def on_db_def on_ext_def split: option.splits prod.splits)
  have "drop_topic_partly i st (drop_topic i st)" for st
    by (auto simp: drop_topic_partly_def)
  with DeleteTopic_law [OF inv, of i] DeleteTopic_error [OF inv, of i] del True
    preservesD [OF maintains_DeleteTopic del inv]
  show ?thesis by (cases e) (auto simp: w' r)
next
  case False
  with run parse inv show ?thesis by (auto simp: RemoveTopic_def)
qed

end

section \<open>Properties\<close>


lemma sample_set_topic:
  "fst (run_state (CtlSetTopic sample_controller ''Bearer root'' devices) sample_world) =
     Inr (devices, 202)"
  by code_simp


text \<open>
  C16. Removing a topic is for admins. With 200 the topic and every resource in it are gone, nothing
  else has changed, and every check of anyone but an admin on that topic is denied afterwards; when
  the database fails, at most the topic and some of its resources are gone.
\<close>

theorem remove_topic_effect:
  assumes "database db store_of invar" "ctl_db C = db" "invar (w_db w)"
    and "jwt_Parse C s = Inr token"
    and "run_state (RemoveTopic C s i) w = (r, w')"
  shows "(\<not> IsAdmin token \<longrightarrow> reply_code r = StatusUnauthorized \<and> store_of (w_db w') = store_of (w_db w)) \<and>
    (reply_code r = StatusOK \<longrightarrow> store_of (w_db w') = drop_topic i (store_of (w_db w)) \<and>
       (\<forall>u j ps. \<not> IsAdmin u \<longrightarrow> \<not> access_decision (store_of (w_db w')) u i j ps)) \<and>
    (IsAdmin token \<longrightarrow> drop_topic_partly i (store_of (w_db w)) (store_of (w_db w')))"
  using database.RemoveTopic_store [OF assms]
  by (auto simp: access_decision_def split: if_splits)

lemma sample_remove_topic:
  "fst (run_state (RemoveTopic sample_controller ''Bearer root'' ''devices'') sample_world) = Inr ((), 200)"
  by code_simp

theorem remove_topic_effect_witness:
  "st_resources (mock_store (w_db (snd (run_state (RemoveTopic sample_controller ''Bearer root'' ''devices'')
     sample_world)))) ''devices'' ''d'' = None"
  using remove_topic_effect [OF mock.database_axioms sample_db sample_invar sample_parse(3)
      prod.collapse [symmetric], of "''devices''"]
  by (simp add: sample_remove_topic)

text \<open>
  The comparison of topics is an equivalence. It does not look at the time stamp, nor at whether
  a map of permissions is nil or empty: topics that compare equal grant the same to everyone.
\<close>

theorem topic_equal_equivalence:
  "Topic_Equal a a \<and> (Topic_Equal a b = Topic_Equal b a) \<and>
   (Topic_Equal a b \<and> Topic_Equal b c \<longrightarrow> Topic_Equal a c) \<and>
   Topic_Equal a (a\<lparr>t_last_update_unix_timestamp := n,
     t_default_permissions := nonnil_permissions (t_default_permissions a)\<rparr>) \<and>
   (Topic_Equal a b \<longrightarrow> acl_of (t_default_permissions a) = acl_of (t_default_permissions b))"
proof (intro conjI)
  show "Topic_Equal a b \<longrightarrow> acl_of (t_default_permissions a) = acl_of (t_default_permissions b)"
    using Topic_Equal_acl by blast
qed (auto simp: Topic_Equal_iff nonnil_permissions_def m_get_nonnil_eq)

theorem topic_equal_equivalence_witness:
  "acl_of (t_default_permissions devices) = acl_of (nonnil_permissions (t_default_permissions devices))"
proof -
  let ?b = "devices\<lparr>t_last_update_unix_timestamp := 0,
    t_default_permissions := nonnil_permissions (t_default_permissions devices)\<rparr>"
  have "Topic_Equal devices ?b"
    using topic_equal_equivalence [of devices devices devices 0] by blast
  then have "acl_of (t_default_permissions devices) = acl_of (t_default_permissions ?b)"
    using topic_equal_equivalence [of devices ?b devices 0] by blast
  also have "t_default_permissions ?b = nonnil_permissions (t_default_permissions devices)" by simp
  finally show ?thesis .
qed

end
