(* ===== verification/CtlImportExport.thy ===== *)
theory CtlImportExport
  imports CtlTopics
begin

text \<open>
  Export and import, \<open>pkg/controller/import_export.go\<close>: an admin reads topics and permissions into one
  document, or writes one. The theorems say what an export holds, that an import only stores valid
  resources of known topics, and that importing an export restores the store.
\<close>

section \<open>Export\<close>

text \<open>The loop over the topics appends what the database lists for each.\<close>

fun export_loop ::
  "('s, 'e, 'p) controller \<Rightarrow> import_export_options \<Rightarrow> string list \<Rightarrow> resource list \<Rightarrow>
   (('s, 'e, 'p) world, error + resource list) state" where
  "export_loop C options [] permissions = ret (Inr permissions)"
| "export_loop C options (topic # topics) permissions = do {
     r \<leftarrow> on_db (AdminListResources (ctl_db C) topic
       (default_list_options\<lparr>lo_ids := ieo_filter_resource_id options\<rparr>));
     case r of
       Inl err \<Rightarrow> ret (Inl err)
     | Inr list \<Rightarrow> export_loop C options topics (permissions @ list) }"

definition list_filter_topics ::
  "('s, 'e, 'p) controller \<Rightarrow> import_export_options \<Rightarrow> (('s, 'e, 'p) world, error + topic list) state" where
  "list_filter_topics C options =
     on_db (ListTopics (ctl_db C) (default_list_options\<lparr>lo_ids := ieo_filter_topics options\<rparr>))"

definition export_permissions ::
  "('s, 'e, 'p) controller \<Rightarrow> import_export_options \<Rightarrow> topic list \<Rightarrow>
   (('s, 'e, 'p) world, error + resource list) state" where
  "export_permissions C options result_topics = do {
     t \<leftarrow> (case ieo_filter_topics options of
       Some topics \<Rightarrow> ret (Inr topics)
     | None \<Rightarrow> do {
         l \<leftarrow> (if \<not> ieo_include_topic_config options then list_filter_topics C options
              else ret (Inr result_topics));
         case l of
           Inl err \<Rightarrow> ret (Inl err)
         | Inr list \<Rightarrow> ret (Inr (map t_id list)) });
     case t of
       Inl err \<Rightarrow> ret (Inl err)
     | Inr topics \<Rightarrow> export_loop C options topics [] }"

definition Export ::
  "('s, 'e, 'p) controller \<Rightarrow> string \<Rightarrow> import_export_options \<Rightarrow>
   (('s, 'e, 'p) world, import_export reply) state" where
  "Export C tokenStr options =
     (case jwt_Parse C tokenStr of
        Inl err \<Rightarrow> ret (Inl (err, StatusBadRequest))
      | Inr token \<Rightarrow>
          if \<not> IsAdmin token then ret (Inl (Err ''only admins may export'', StatusForbidden))
          else do {
            t \<leftarrow> (if ieo_include_topic_config options then list_filter_topics C options
                 else ret (Inr []));
            case t of
              Inl err \<Rightarrow> ret (Inl (err, StatusInternalServerError))
            | Inr topics \<Rightarrow> do {
                p \<leftarrow> (if ieo_include_permissions options
                     then export_permissions C options topics else ret (Inr []));
                case p of
                  Inl err \<Rightarrow> ret (Inl (err, StatusInternalServerError))
                | Inr permissions \<Rightarrow> ret (Inr (ImportExport_Sort
                    \<lparr>ie_topics = topics, ie_permissions = permissions\<rparr>, StatusOK)) } })"

section \<open>Import\<close>

definition in_filter :: "string list option \<Rightarrow> string \<Rightarrow> bool" where
  "in_filter f x = (case f of None \<Rightarrow> True | Some l \<Rightarrow> List.member l x)"

fun import_topics ::
  "('s, 'e, 'p) controller \<Rightarrow> string \<Rightarrow> import_export_options \<Rightarrow> topic list \<Rightarrow>
   (('s, 'e, 'p) world, unit reply) state" where
  "import_topics C token options [] = ret (Inr ((), StatusOK))"
| "import_topics C token options (topic # topics) =
     (if in_filter (ieo_filter_topics options) (t_id topic)
      then do {
        r \<leftarrow> CtlSetTopic C token topic;
        case r of
          Inl (err, code) \<Rightarrow> ret (Inl (err, code))
        | Inr _ \<Rightarrow> import_topics C token options topics }
      else import_topics C token options topics)"

definition import_resource_text :: "resource \<Rightarrow> string" where
  "import_resource_text r = ''invalid resource topic='' @ r_topic_id r @ '' id='' @ r_id r"

text \<open>\<open>cache\<close> is \<open>topicCache\<close>, the topics already read from the database.\<close>

definition cached_topic ::
  "('s, 'e, 'p) controller \<Rightarrow> (string, topic) alist \<Rightarrow> resource \<Rightarrow>
   (('s, 'e, 'p) world, (topic \<times> (string, topic) alist) reply) state" where
  "cached_topic C cache r =
     (case DAList.lookup cache (r_topic_id r) of
        Some topic \<Rightarrow> ret (Inr ((topic, cache), StatusOK))
      | None \<Rightarrow> do {
          q \<leftarrow> on_db (GetTopic (ctl_db C) (r_topic_id r));
          case q of
            Inl err \<Rightarrow> ret (Inl (err, StatusInternalServerError))
          | Inr None \<Rightarrow>
              ret (Inl (Err (import_resource_text r @ '': topic does not exist''), StatusBadRequest))
          | Inr (Some topic) \<Rightarrow>
              ret (Inr ((topic, DAList.update (r_topic_id r) topic cache), StatusOK)) })"

fun import_permissions ::
  "('s, 'e, 'p) controller \<Rightarrow> import_export_options \<Rightarrow> (string, topic) alist \<Rightarrow> resource list \<Rightarrow>
   (('s, 'e, 'p) world, unit reply) state" where
  "import_permissions C options cache [] = ret (Inr ((), StatusOK))"
| "import_permissions C options cache (r # rs) =
     (if in_filter (ieo_filter_topics options) (r_topic_id r) \<and>
         in_filter (ieo_filter_resource_id options) (r_id r)
      then
        if \<not> Valid (r_permissions r)
        then ret (Inl (Err (import_resource_text r), StatusBadRequest))
        else do {
          t \<leftarrow> cached_topic C cache r;
          case t of
            Inl (err, code) \<Rightarrow> ret (Inl (err, code))
          | Inr ((topic, cache), code) \<Rightarrow> do {
              err \<leftarrow> setPermission C topic r;
              case err of
                Some e \<Rightarrow> ret (Inl (e, StatusInternalServerError))
              | None \<Rightarrow> import_permissions C options cache rs } }
      else import_permissions C options cache rs)"

definition Import ::
  "('s, 'e, 'p) controller \<Rightarrow> string \<Rightarrow> import_export \<Rightarrow> import_export_options \<Rightarrow>
   (('s, 'e, 'p) world, unit reply) state" where
  "Import C token importModel options =
     (case jwt_Parse C token of
        Inl err \<Rightarrow> ret (Inl (err, StatusBadRequest))
      | Inr jwtToken \<Rightarrow>
          if \<not> IsAdmin jwtToken then ret (Inl (Err ''only admins may import'', StatusForbidden))
          else do {
            t \<leftarrow> (if ieo_include_topic_config options
                 then import_topics C token options (ie_topics importModel)
                 else ret (Inr ((), StatusOK)));
            case t of
              Inl (err, code) \<Rightarrow> ret (Inl (err, code))
            | Inr _ \<Rightarrow>
                if ieo_include_permissions options
                then import_permissions C options DAList.empty (ie_permissions importModel)
                else ret (Inr ((), StatusOK)) })"

section \<open>Lemmas\<close>

lemma in_filter_simps [simp]: "in_filter None x" "in_filter (Some l) x \<longleftrightarrow> x \<in> set l"
  by (simp_all add: in_filter_def)

lemma in_ids_filter [simp]: "in_ids (default_list_options\<lparr>lo_ids := f\<rparr>) i \<longleftrightarrow> in_filter f i"
  by (simp add: in_ids_def default_list_options_def in_filter_def split: option.split)

lemma page_default [simp]:
  "page (lo_limit default_list_options) (lo_offset default_list_options) xs = xs"
  by (simp add: default_list_options_def)

text \<open>Storing resources one after the other, when entries of one key agree with a given store.\<close>

lemma fold_put_resource:
  "(\<And>r. r \<in> set rs \<Longrightarrow> st_resources goal (r_topic_id r) (r_id r) = Some (acl_of (r_permissions r))) \<Longrightarrow>
   st_topics (fold put_resource rs st) = st_topics st \<and>
   st_resources (fold put_resource rs st) t i =
     (if (t, i) \<in> (\<lambda>r. (r_topic_id r, r_id r)) ` set rs then st_resources goal t i
      else st_resources st t i)"
  by (induction rs arbitrary: st) (auto simp: image_iff)

definition import_filter :: "import_export_options \<Rightarrow> resource \<Rightarrow> bool" where
  "import_filter options r \<longleftrightarrow>
     in_filter (ieo_filter_topics options) (r_topic_id r) \<and>
     in_filter (ieo_filter_resource_id options) (r_id r)"

text \<open>What an import of resources may have written: valid permissions in topics that exist.\<close>

definition imported :: "import_export_options \<Rightarrow> resource list \<Rightarrow> store \<Rightarrow> store \<Rightarrow> bool" where
  "imported options rs st st' \<longleftrightarrow> st_topics st' = st_topics st \<and>
     (\<forall>t i. st_resources st' t i = st_resources st t i \<or>
        (\<exists>r \<in> set rs. import_filter options r \<and> r_topic_id r = t \<and> r_id r = i \<and>
           Valid (r_permissions r) \<and> st_topics st t \<noteq> None \<and>
           st_resources st' t i = Some (acl_of (r_permissions r))))"

lemma imported_weaken: "imported options rs st st' \<Longrightarrow> imported options (r # rs) st st'"
  by (auto simp: imported_def)

lemma imported_trans:
  assumes "imported options [r] st st1" "imported options rs st1 st2"
  shows "imported options (r # rs) st st2"
  unfolding imported_def
proof (intro conjI allI)
  show "st_topics st2 = st_topics st" using assms by (simp add: imported_def)
  fix t i
  from assms(1) have one: "st_topics st1 = st_topics st"
    "st_resources st1 t i = st_resources st t i \<or>
     (import_filter options r \<and> r_topic_id r = t \<and> r_id r = i \<and> Valid (r_permissions r) \<and>
      st_topics st t \<noteq> None \<and> st_resources st1 t i = Some (acl_of (r_permissions r)))"
    by (simp_all add: imported_def)
  from assms(2) have "st_resources st2 t i = st_resources st1 t i \<or>
     (\<exists>r \<in> set rs. import_filter options r \<and> r_topic_id r = t \<and> r_id r = i \<and> Valid (r_permissions r) \<and>
        st_topics st1 t \<noteq> None \<and> st_resources st2 t i = Some (acl_of (r_permissions r)))"
    by (simp add: imported_def)
  with one show "st_resources st2 t i = st_resources st t i \<or>
     (\<exists>r \<in> set (r # rs). import_filter options r \<and> r_topic_id r = t \<and> r_id r = i \<and>
        Valid (r_permissions r) \<and> st_topics st t \<noteq> None \<and>
        st_resources st2 t i = Some (acl_of (r_permissions r)))"
    by (elim disjE) simp_all
qed

context database
begin

lemma export_loop_result:
  assumes C: "ctl_db C = db"
  shows "invar (w_db w) \<Longrightarrow> run_state (export_loop C options topics ps) w = (Inr l, w') \<Longrightarrow>
    \<exists>ls. l = ps @ concat ls \<and> list_all2 (\<lambda>t k. lists_resources (store_of (w_db w)) t
      (\<lambda>i a. in_filter (ieo_filter_resource_id options) i) k) topics ls"
proof (induction topics arbitrary: ps w)
  case (Cons t topics)
  let ?opt = "default_list_options\<lparr>lo_ids := ieo_filter_resource_id options\<rparr>"
  obtain q d where list: "run_state (AdminListResources db t ?opt) (w_db w) = (q, d)" by fastforce
  then obtain k where q: "q = Inr k"
    using Cons.prems(2) C by (cases q) (auto simp: on_db_def)
  have rest: "run_state (export_loop C options topics (ps @ k)) (w\<lparr>w_db := d\<rparr>) = (Inr l, w')"
    using Cons.prems(2) C list q by (auto simp: on_db_def)
  have keep: "invar d" "store_of d = store_of (w_db w)"
    using preservesD [OF reads_AdminListResources list Cons.prems(1)] by simp_all
  have k: "lists_resources (store_of (w_db w)) t (\<lambda>i a. in_filter (ieo_filter_resource_id options) i) k"
    using AdminListResources_law [OF Cons.prems(1) list [unfolded q]] by simp
  from Cons.IH [OF _ rest] keep obtain ls where "l = (ps @ k) @ concat ls"
    "list_all2 (\<lambda>t k. lists_resources (store_of (w_db w)) t
      (\<lambda>i a. in_filter (ieo_filter_resource_id options) i) k) topics ls" by auto
  with k show ?case by (intro exI [of _ "k # ls"]) simp
qed simp

lemma export_loop_set:
  assumes "list_all2 (\<lambda>t k. lists_resources st t (\<lambda>i a. P i) k) topics ls"
  shows "(\<lambda>r. (r_topic_id r, r_id r, acl_of (r_permissions r))) ` set (concat ls) =
    {(t, i, a). t \<in> set topics \<and> st_resources st t i = Some a \<and> P i}"
  using assms
proof induction
  case (Cons t topics k ls)
  have "(\<lambda>r. (r_topic_id r, r_id r, acl_of (r_permissions r))) ` set k =
      (\<lambda>(i, a). (t, i, a)) ` (\<lambda>r. (r_id r, acl_of (r_permissions r))) ` set k"
    using Cons.hyps(1) by (auto simp: lists_resources_def image_image intro!: image_cong)
  also have "\<dots> = {(u, i, a). u = t \<and> st_resources st u i = Some a \<and> P i}"
    using Cons.hyps(1) by (auto simp: lists_resources_def image_iff)
  finally show ?case using Cons.IH by (auto simp: image_Un)
qed simp

text \<open>An export of everything: all topics, and all resources stored in one of them.\<close>

lemma Export_result:
  assumes C: "ctl_db C = db" and inv: "invar (w_db w)"
    and run: "run_state (Export C s \<lparr>ieo_include_topic_config = True, ieo_include_permissions = True,
      ieo_filter_topics = None, ieo_filter_resource_id = None\<rparr>) w = (Inr (doc, code), w')"
  shows "(\<lambda>t. (t_id t, topic_core t)) ` set (ie_topics doc) =
      {(i, t). st_topics (store_of (w_db w)) i = Some t}"
    and "(\<lambda>r. (r_topic_id r, r_id r, acl_of (r_permissions r))) ` set (ie_permissions doc) =
      {(t, i, a). st_topics (store_of (w_db w)) t \<noteq> None \<and>
         st_resources (store_of (w_db w)) t i = Some a}"
    and "sorted (map t_id (ie_topics doc))"
    and "sorted (map (\<lambda>r. (r_topic_id r, r_id r)) (ie_permissions doc))"
    and "\<exists>token. jwt_Parse C s = Inr token \<and> IsAdmin token"
proof -
  let ?st = "store_of (w_db w)"
  let ?options = "\<lparr>ieo_include_topic_config = True, ieo_include_permissions = True,
      ieo_filter_topics = None, ieo_filter_resource_id = None\<rparr>"
  obtain token where parse: "jwt_Parse C s = Inr token"
    using run by (cases "jwt_Parse C s") (auto simp: Export_def)
  then have admin: "IsAdmin token" using run by (auto simp: Export_def split: if_splits)
  have opt: "default_list_options\<lparr>lo_ids := None\<rparr> = default_list_options"
    by (simp add: default_list_options_def)
  obtain q d where list0: "run_state (ListTopics db default_list_options) (w_db w) = (q, d)"
    by fastforce
  then obtain topics where q: "q = Inr topics"
    using run parse admin C
    by (cases q) (auto simp: Export_def list_filter_topics_def on_db_def opt)
  note list = list0 [unfolded q]
  obtain p w1 where loop0: "run_state (export_loop C ?options (map t_id topics) []) (w\<lparr>w_db := d\<rparr>) = (p, w1)"
    by fastforce
  then obtain permissions where p: "p = Inr permissions"
    using run parse admin C list
    by (cases p) (auto simp: Export_def list_filter_topics_def export_permissions_def on_db_def opt)
  note loop = loop0 [unfolded p]
  have doc: "doc = ImportExport_Sort \<lparr>ie_topics = topics, ie_permissions = permissions\<rparr>"
    using run parse admin C list loop
    by (auto simp: Export_def list_filter_topics_def export_permissions_def on_db_def opt)
  have keep: "invar d" "store_of d = ?st" using preservesD [OF reads_ListTopics list inv] by simp_all
  from ListTopics_law [OF inv list]
  have topics: "(\<lambda>t. (t_id t, topic_core t)) ` set topics = {(i, t). st_topics ?st i = Some t}" by simp
  then show "(\<lambda>t. (t_id t, topic_core t)) ` set (ie_topics doc) = {(i, t). st_topics ?st i = Some t}"
    by (simp add: doc ImportExport_Sort_def)
  have ids: "set (map t_id topics) = {i. st_topics ?st i \<noteq> None}"
  proof -
    have "set (map t_id topics) = fst ` (\<lambda>t. (t_id t, topic_core t)) ` set topics"
      by (simp add: image_image)
    also have "\<dots> = fst ` {(i, t). st_topics ?st i = Some t}" by (simp only: topics)
    also have "\<dots> = {i. st_topics ?st i \<noteq> None}" by (auto simp: image_iff)
    finally show ?thesis .
  qed
  from export_loop_result [OF C _ loop] keep obtain ls where ls: "permissions = concat ls"
    "list_all2 (\<lambda>t k. lists_resources ?st t (\<lambda>i a. True) k) (map t_id topics) ls" by auto
  from export_loop_set [OF ls(2)] ids
  show "(\<lambda>r. (r_topic_id r, r_id r, acl_of (r_permissions r))) ` set (ie_permissions doc) =
      {(t, i, a). st_topics ?st t \<noteq> None \<and> st_resources ?st t i = Some a}"
    by (simp add: doc ImportExport_Sort_def ls(1))
  show "sorted (map t_id (ie_topics doc))"
    and "sorted (map (\<lambda>r. (r_topic_id r, r_id r)) (ie_permissions doc))"
    by (simp_all add: doc ImportExport_Sort_def)
  show "\<exists>token. jwt_Parse C s = Inr token \<and> IsAdmin token"
    using parse admin by simp
qed

lemma import_topics_result:
  assumes C: "ctl_db C = db" and parse: "jwt_Parse C s = Inr token"
    and nofilter: "ieo_filter_topics options = None"
  shows "invar (w_db w) \<Longrightarrow> run_state (import_topics C s options ts) w = (Inr x, w') \<Longrightarrow>
    (\<And>t. t \<in> set ts \<Longrightarrow> t_id t \<noteq> [] \<and> st_topics goal (t_id t) = Some (topic_core t) \<and>
      st_topics (store_of (w_db w)) (t_id t) \<in> {None, st_topics goal (t_id t)}) \<Longrightarrow>
    invar (w_db w') \<and> st_resources (store_of (w_db w')) = st_resources (store_of (w_db w)) \<and>
    (\<forall>i. st_topics (store_of (w_db w')) i =
       (if i \<in> t_id ` set ts then st_topics goal i else st_topics (store_of (w_db w)) i))"
proof (induction ts arbitrary: w)
  case (Cons t ts)
  obtain r w1 where set: "run_state (CtlSetTopic C s t) w = (r, w1)" by fastforce
  obtain v code where r: "r = Inr (v, code)"
    using Cons.prems(2) set nofilter by (cases r) (auto split: prod.splits)
  have rest: "run_state (import_topics C s options ts) w1 = (Inr x, w')"
    using Cons.prems(2) set nofilter r by simp
  note stored = CtlSetTopic_store [OF C Cons.prems(1) parse set]
  have t: "t_id t \<noteq> []" "st_topics goal (t_id t) = Some (topic_core t)"
    "st_topics (store_of (w_db w)) (t_id t) \<in> {None, st_topics goal (t_id t)}"
    using Cons.prems(3) [of t] by auto
  have res: "st_resources (store_of (w_db w1)) = st_resources (store_of (w_db w))"
    using stored(2) by auto
  have top: "st_topics (store_of (w_db w1)) i =
      (if i = t_id t then st_topics goal i else st_topics (store_of (w_db w)) i)" for i
    using stored(3) [OF r] t by auto
  have later: "t' \<in> set ts \<Longrightarrow> t_id t' \<noteq> [] \<and> st_topics goal (t_id t') = Some (topic_core t') \<and>
      st_topics (store_of (w_db w1)) (t_id t') \<in> {None, st_topics goal (t_id t')}" for t'
    using Cons.prems(3) [of t'] by (auto simp: top)
  from Cons.IH [OF stored(1) rest later] show ?case by (auto simp: res top)
qed simp

lemma cached_topic_wpreserves: "ctl_db C = db \<Longrightarrow> wpreserves (cached_topic C cache r)"
  unfolding cached_topic_def by (intro preserves_rules) (simp_all add: reads)

text \<open>The cache holds topics of the store.\<close>

abbreviation cache_ok :: "store \<Rightarrow> (string, topic) alist \<Rightarrow> bool" where
  "cache_ok st cache \<equiv> \<forall>t. DAList.lookup cache t \<noteq> None \<longrightarrow> st_topics st t \<noteq> None"

lemma cached_topic_result:
  assumes C: "ctl_db C = db" and inv: "invar (w_db w)" and cache: "cache_ok (store_of (w_db w)) cache"
    and run: "run_state (cached_topic C cache r) w = (Inr ((topic, cache'), code), w')"
  shows "st_topics (store_of (w_db w)) (r_topic_id r) \<noteq> None \<and> cache_ok (store_of (w_db w)) cache'"
proof (cases "DAList.lookup cache (r_topic_id r)")
  case None
  with run C obtain d where get: "run_state (GetTopic db (r_topic_id r)) (w_db w) = (Inr (Some topic), d)"
    and "cache' = DAList.update (r_topic_id r) topic cache"
    by (auto simp: cached_topic_def on_db_def split: prod.splits sum.splits option.splits)
  moreover have "st_topics (store_of (w_db w)) (r_topic_id r) = Some (topic_core topic)"
    using GetTopic_law [OF inv get] by simp
  ultimately show ?thesis using cache by (auto simp: lookup_update)
next
  case (Some a)
  then have "cache' = cache" using run by (simp add: cached_topic_def)
  with Some cache show ?thesis by (simp del: not_None_eq)
qed

lemma import_permissions_result:
  assumes C: "ctl_db C = db"
  shows "invar (w_db w) \<Longrightarrow> run_state (import_permissions C options cache rs) w = (x, w') \<Longrightarrow>
    cache_ok (store_of (w_db w)) cache \<Longrightarrow>
    invar (w_db w') \<and> imported options rs (store_of (w_db w)) (store_of (w_db w')) \<and>
    (\<forall>v. x = Inr v \<longrightarrow>
       store_of (w_db w') = fold put_resource (filter (import_filter options) rs) (store_of (w_db w)))"
proof (induction rs arbitrary: w cache)
  case Nil
  then show ?case by (auto simp: imported_def)
next
  case (Cons r rs)
  let ?st = "store_of (w_db w)"
  have stop: ?case if "\<forall>v. x \<noteq> Inr v" "invar (w_db w')" "imported options [r] ?st (store_of (w_db w'))"
    using that by (auto simp: imported_def)
  consider (skip) "\<not> import_filter options r"
    | (invalid) "import_filter options r" "\<not> Valid (r_permissions r)"
    | (go) "import_filter options r" "Valid (r_permissions r)" by blast
  then show ?case
  proof cases
    case skip
    then have "run_state (import_permissions C options cache rs) w = (x, w')"
      using Cons.prems(2) by (auto simp: import_filter_def split: if_splits)
    note tail = Cons.IH [OF Cons.prems(1) this Cons.prems(3)]
    then have "imported options (r # rs) ?st (store_of (w_db w'))"
      using imported_weaken by blast
    with tail skip show ?thesis by simp
  next
    case invalid
    with Cons.prems show ?thesis by (intro stop) (auto simp: import_filter_def imported_def)
  next
    case go
    obtain q w1 where find: "run_state (cached_topic C cache r) w = (q, w1)" by fastforce
    have keep: "invar (w_db w1)" "store_of (w_db w1) = ?st"
      using preservesD [OF cached_topic_wpreserves [OF C] find Cons.prems(1)] by simp_all
    have step: "run_state (import_permissions C options cache (r # rs)) w = run_state (case q of
        Inl (err, code) \<Rightarrow> ret (Inl (err, code))
      | Inr ((topic, cache), code) \<Rightarrow> do {
          err \<leftarrow> setPermission C topic r;
          case err of
            Some e \<Rightarrow> ret (Inl (e, StatusInternalServerError))
          | None \<Rightarrow> import_permissions C options cache rs }) w1"
      using go find by (simp add: import_filter_def)
    show ?thesis
    proof (cases q)
      case (Inl e)
      with step Cons.prems(2) have "w' = w1" "\<forall>v. x \<noteq> Inr v" by (auto split: prod.splits)
      with keep show ?thesis by (intro stop) (simp_all add: imported_def)
    next
      case (Inr tc)
      obtain topic cache' code where q: "q = Inr ((topic, cache'), code)" using Inr by (metis prod.collapse)
      note found = cached_topic_result [OF C Cons.prems(1,3) find [unfolded q]]
      obtain err w2 where set: "run_state (setPermission C topic r) w1 = (err, w2)" by fastforce
      note stored = setPermission_store [OF C keep(1) set, unfolded keep(2)]
      have one: "imported options [r] ?st (store_of (w_db w2))"
        using stored(2) go found by (auto simp: imported_def split: if_splits)
      show ?thesis
      proof (cases err)
        case (Some e)
        with step Cons.prems(2) q set have "w' = w2" "\<forall>v. x \<noteq> Inr v" by auto
        with one stored(1) show ?thesis by (intro stop) simp_all
      next
        case None
        with step Cons.prems(2) q set
        have rest: "run_state (import_permissions C options cache' rs) w2 = (x, w')" by simp
        have store2: "store_of (w_db w2) = put_resource r ?st" using stored(2) None by simp
        have "cache_ok (store_of (w_db w2)) cache'" using found by (simp add: store2)
        note tail = Cons.IH [OF stored(1) rest this]
        then have "imported options (r # rs) ?st (store_of (w_db w'))"
          using imported_trans [OF one] by blast
        with tail go show ?thesis by (simp add: store2)
      qed
    qed
  qed
qed

lemma import_topics_frame:
  assumes C: "ctl_db C = db" and parse: "jwt_Parse C s = Inr token"
  shows "preserves (\<lambda>w. invar (w_db w)) (\<lambda>w. st_resources (store_of (w_db w))) (import_topics C s options ts)"
proof (induction ts)
  case (Cons t ts)
  have "preserves (\<lambda>w. invar (w_db w)) (\<lambda>w. st_resources (store_of (w_db w))) (CtlSetTopic C s t)"
  proof (rule preservesI)
    fix w r w' assume "invar (w_db w)" "run_state (CtlSetTopic C s t) w = (r, w')"
    from CtlSetTopic_store(1,2) [OF C this(1) parse this(2)]
    show "invar (w_db w') \<and> st_resources (store_of (w_db w')) = st_resources (store_of (w_db w))" by auto
  qed
  with Cons show ?case by (auto intro!: preserves_rules)
qed simp

text \<open>An import writes resources only if the requester is an admin, and only valid ones.\<close>

lemma Import_imported:
  assumes C: "ctl_db C = db" and inv: "invar (w_db w)" and parse: "jwt_Parse C s = Inr token"
    and run: "run_state (Import C s doc options) w = (r, w')"
  shows "invar (w_db w') \<and> (store_of (w_db w') \<noteq> store_of (w_db w) \<longrightarrow> IsAdmin token) \<and>
    (\<exists>st. st_resources st = st_resources (store_of (w_db w)) \<and>
       imported options (ie_permissions doc) st (store_of (w_db w')))"
proof (cases "IsAdmin token")
  case False
  with run parse inv show ?thesis by (auto simp: Import_def imported_def)
next
  case True
  let ?first = "if ieo_include_topic_config options then import_topics C s options (ie_topics doc)
    else ret (Inr ((), StatusOK))"
  obtain q w1 where first: "run_state ?first w = (q, w1)" by fastforce
  have "preserves (\<lambda>w. invar (w_db w)) (\<lambda>w. st_resources (store_of (w_db w))) ?first"
    by (intro preserves_rules import_topics_frame [OF C parse])
  from preservesD [OF this first inv]
  have keep: "invar (w_db w1)" "st_resources (store_of (w_db w1)) = st_resources (store_of (w_db w))"
    by simp_all
  have self: "imported options rs st st" for rs st by (simp add: imported_def)
  have rest: "run_state (case q of Inl (err, code) \<Rightarrow> ret (Inl (err, code))
      | Inr _ \<Rightarrow> if ieo_include_permissions options
          then import_permissions C options DAList.empty (ie_permissions doc)
          else ret (Inr ((), StatusOK))) w1 = (r, w')"
    using run parse True first by (simp add: Import_def)
  show ?thesis
  proof (cases "(\<exists>v. q = Inr v) \<and> ieo_include_permissions options")
    case False
    with rest have "w' = w1" by (cases q) (auto split: prod.splits)
    with keep self True show ?thesis by blast
  next
    case yes: True
    with rest have "run_state (import_permissions C options DAList.empty (ie_permissions doc)) w1 = (r, w')"
      by auto
    from import_permissions_result [OF C keep(1) this] keep(2) True show ?thesis by auto
  qed
qed

text \<open>A complete import of an export: every topic and every resource of the exported store.\<close>

lemma Import_complete:
  assumes C: "ctl_db C = db" and inv: "invar (w_db w)"
    and run: "run_state (Import C s doc \<lparr>ieo_include_topic_config = True, ieo_include_permissions = True,
      ieo_filter_topics = None, ieo_filter_resource_id = None\<rparr>) w = (Inr v, w')"
    and empty: "st_topics (store_of (w_db w)) = (\<lambda>_. None)"
      "st_resources (store_of (w_db w)) = (\<lambda>_ _. None)"
    and topics: "\<And>t. t \<in> set (ie_topics doc) \<Longrightarrow>
      t_id t \<noteq> [] \<and> st_topics goal (t_id t) = Some (topic_core t)"
    and resources: "\<And>r. r \<in> set (ie_permissions doc) \<Longrightarrow>
      st_resources goal (r_topic_id r) (r_id r) = Some (acl_of (r_permissions r))"
  shows "st_topics (store_of (w_db w')) i =
      (if i \<in> t_id ` set (ie_topics doc) then st_topics goal i else None)"
    and "st_resources (store_of (w_db w')) t i =
      (if (t, i) \<in> (\<lambda>r. (r_topic_id r, r_id r)) ` set (ie_permissions doc)
       then st_resources goal t i else None)"
proof -
  let ?options = "\<lparr>ieo_include_topic_config = True, ieo_include_permissions = True,
      ieo_filter_topics = None, ieo_filter_resource_id = None\<rparr>"
  obtain token where parse: "jwt_Parse C s = Inr token" and admin: "IsAdmin token"
    using run by (cases "jwt_Parse C s") (auto simp: Import_def split: if_splits)
  obtain q w1 where first: "run_state (import_topics C s ?options (ie_topics doc)) w = (q, w1)" by fastforce
  obtain u where q: "q = Inr u"
    using run parse admin first by (cases q) (auto simp: Import_def split: prod.splits)
  have rest: "run_state (import_permissions C ?options DAList.empty (ie_permissions doc)) w1 = (Inr v, w')"
    using run parse admin first q by (simp add: Import_def)
  have "t_id t \<noteq> [] \<and> st_topics goal (t_id t) = Some (topic_core t) \<and>
      st_topics (store_of (w_db w)) (t_id t) \<in> {None, st_topics goal (t_id t)}"
    if "t \<in> set (ie_topics doc)" for t
    using topics [OF that] empty by simp
  note one = import_topics_result [OF C parse _ inv first [unfolded q] this]
  have "filter (import_filter ?options) l = l" for l
    by (simp add: import_filter_def)
  with import_permissions_result [OF C _ rest] one
  have two: "store_of (w_db w') = fold put_resource (ie_permissions doc) (store_of (w_db w1))"
    by (cases v) simp
  note stored = fold_put_resource [where goal = goal, OF resources]
  show "st_topics (store_of (w_db w')) i =
      (if i \<in> t_id ` set (ie_topics doc) then st_topics goal i else None)"
    using one stored by (simp add: two empty)
  show "st_resources (store_of (w_db w')) t i =
      (if (t, i) \<in> (\<lambda>r. (r_topic_id r, r_id r)) ` set (ie_permissions doc)
       then st_resources goal t i else None)"
    using one stored by (simp add: two empty)
qed

end

section \<open>Properties\<close>

definition everything :: import_export_options where
  "everything = \<lparr>ieo_include_topic_config = True, ieo_include_permissions = True,
     ieo_filter_topics = None, ieo_filter_resource_id = None\<rparr>"


definition bad_document :: import_export where
  "bad_document = \<lparr>ie_topics = [], ie_permissions = [device\<lparr>r_permissions := nil_permissions\<rparr>]\<rparr>"


text \<open>
  An export of everything holds exactly the topics of the store and the resources stored in one
  of them, each with the permissions it has, the topics sorted by id and the resources by topic and
  id; only an admin gets it.
\<close>

theorem export_complete:
  assumes "database db store_of invar" "ctl_db C = db" "invar (w_db w)"
    and "run_state (Export C s everything) w = (Inr (doc, code), w')"
  shows "(\<exists>token. jwt_Parse C s = Inr token \<and> IsAdmin token) \<and>
    (\<lambda>t. (t_id t, topic_core t)) ` set (ie_topics doc) =
      {(i, t). st_topics (store_of (w_db w)) i = Some t} \<and>
    (\<lambda>r. (r_topic_id r, r_id r, acl_of (r_permissions r))) ` set (ie_permissions doc) =
      {(t, i, a). st_topics (store_of (w_db w)) t \<noteq> None \<and>
         st_resources (store_of (w_db w)) t i = Some a} \<and>
    sorted (map t_id (ie_topics doc)) \<and>
    sorted (map (\<lambda>r. (r_topic_id r, r_id r)) (ie_permissions doc))"
  using database.Export_result [OF assms(1-3) assms(4) [unfolded everything_def]] by simp

definition sample_document :: import_export where
  "sample_document = \<lparr>ie_topics = [device_types, devices], ie_permissions = [device_type, device]\<rparr>"

lemma sample_export:
  "fst (run_state (Export sample_controller ''Bearer root'' everything) sample_world) =
     Inr (sample_document, 200)"
  by code_simp

theorem export_complete_witness:
  "st_topics (mock_store (w_db sample_world)) ''devices'' = Some (topic_core devices)"
proof -
  obtain w' where "run_state (Export sample_controller ''Bearer root'' everything) sample_world =
      (Inr (sample_document, 200), w')"
    using sample_export by (metis prod.collapse)
  from export_complete [OF mock.database_axioms sample_db sample_invar this]
  have "(t_id devices, topic_core devices) \<in> {(i, t). st_topics (mock_store (w_db sample_world)) i = Some t}"
    by (auto simp: sample_document_def)
  then show ?thesis by (simp add: devices_def)
qed

text \<open>
  C12. Importing an export of everything into an empty database restores the store: if both requests
  succeed, the topics are those of the exported store, and so are the resources of these topics.
  The two databases may be different implementations. (No topic of the service has an empty id:
  setting one gives it the name of its Kafka topic.)
\<close>

theorem export_import_round_trip:
  assumes db1: "database db1 store1 invar1" "ctl_db C1 = db1" "invar1 (w_db w1)"
    and db2: "database db2 store2 invar2" "ctl_db C2 = db2" "invar2 (w_db w2)"
    and export: "run_state (Export C1 s1 everything) w1 = (Inr (doc, code), w1')"
    and import_doc: "run_state (Import C2 s2 doc everything) w2 = (Inr v, w2')"
    and ids: "st_topics (store1 (w_db w1)) [] = None"
    and empty: "st_topics (store2 (w_db w2)) = (\<lambda>_. None)" "st_resources (store2 (w_db w2)) = (\<lambda>_ _. None)"
  shows "st_topics (store2 (w_db w2')) = st_topics (store1 (w_db w1)) \<and>
    (\<forall>t i. st_resources (store2 (w_db w2')) t i =
       (if st_topics (store1 (w_db w1)) t = None then None else st_resources (store1 (w_db w1)) t i))"
proof -
  let ?st = "store1 (w_db w1)"
  note exported = database.Export_result [OF db1 export [unfolded everything_def]]
  have topic: "st_topics ?st (t_id t) = Some (topic_core t)" if "t \<in> set (ie_topics doc)" for t
    using that exported(1) by blast
  then have topics: "t_id t \<noteq> [] \<and> st_topics ?st (t_id t) = Some (topic_core t)"
    if "t \<in> set (ie_topics doc)" for t
    using that ids by fastforce
  have resource: "(r_topic_id r, r_id r, acl_of (r_permissions r)) \<in>
      {(t, i, a). st_topics ?st t \<noteq> None \<and> st_resources ?st t i = Some a}"
    if "r \<in> set (ie_permissions doc)" for r
    using that exported(2) by blast
  then have resources: "st_resources ?st (r_topic_id r) (r_id r) = Some (acl_of (r_permissions r))"
    if "r \<in> set (ie_permissions doc)" for r
    using that by fastforce
  note imported = database.Import_complete [OF db2 import_doc [unfolded everything_def] empty topics resources]
  have ids: "i \<in> t_id ` set (ie_topics doc)" if "st_topics ?st i = Some t" for i t
  proof -
    have "(i, t) \<in> (\<lambda>t. (t_id t, topic_core t)) ` set (ie_topics doc)"
      using that by (simp add: exported(1))
    then show ?thesis by auto
  qed
  have keys: "(t, i) \<in> (\<lambda>r. (r_topic_id r, r_id r)) ` set (ie_permissions doc) \<longleftrightarrow>
      st_topics ?st t \<noteq> None \<and> st_resources ?st t i \<noteq> None" for t i
  proof
    assume "(t, i) \<in> (\<lambda>r. (r_topic_id r, r_id r)) ` set (ie_permissions doc)"
    with resource show "st_topics ?st t \<noteq> None \<and> st_resources ?st t i \<noteq> None" by fastforce
  next
    assume "st_topics ?st t \<noteq> None \<and> st_resources ?st t i \<noteq> None"
    then obtain a where "(t, i, a) \<in> (\<lambda>r. (r_topic_id r, r_id r, acl_of (r_permissions r))) ` set (ie_permissions doc)"
      by (auto simp: exported(2))
    then show "(t, i) \<in> (\<lambda>r. (r_topic_id r, r_id r)) ` set (ie_permissions doc)" by force
  qed
  have "st_topics (store2 (w_db w2')) i = st_topics ?st i" for i
    using imported(1) ids by (cases "st_topics ?st i") auto
  moreover have "st_resources (store2 (w_db w2')) t i =
      (if st_topics ?st t = None then None else st_resources ?st t i)" for t i
    by (simp add: imported(2) keys)
  ultimately show ?thesis by (intro conjI ext allI)
qed

definition empty_world :: "(mock, sample_ext, string) world" where
  "empty_world = sample_world\<lparr>w_db := Mock_New\<rparr>"

lemma sample_import:
  "fst (run_state (Import sample_controller ''Bearer root'' sample_document everything) empty_world) =
     Inr ((), 200)"
  by code_simp

theorem export_import_round_trip_witness:
  "st_topics (mock_store (w_db (snd (run_state (Import sample_controller ''Bearer root'' sample_document
     everything) empty_world)))) = st_topics (mock_store (w_db sample_world))"
proof -
  obtain w' where export: "run_state (Export sample_controller ''Bearer root'' everything) sample_world =
      (Inr (sample_document, 200), w')"
    using sample_export by (metis prod.collapse)
  obtain w'' where doc: "run_state (Import sample_controller ''Bearer root'' sample_document everything)
      empty_world = (Inr ((), 200), w'')"
    using sample_import by (metis prod.collapse)
  have "mock_invar (w_db empty_world)" "st_topics (mock_store (w_db empty_world)) = (\<lambda>_. None)"
    "st_resources (mock_store (w_db empty_world)) = (\<lambda>_ _. None)"
    by (simp_all add: empty_world_def mock_invar_def mock_store_def Mock_New_def)
  moreover have "st_topics (mock_store (w_db sample_world)) [] = None"
    by (simp add: mock_store_def sample_world_def devices_def device_types_def)
  ultimately show ?thesis
    using export_import_round_trip [OF mock.database_axioms sample_db sample_invar
        mock.database_axioms sample_db _ export doc] doc by simp
qed

end
