(* ===== verification/Sync.thy ===== *)
theory Sync
  imports SyncContract CtlResource CtlImportExport
begin

text \<open>
  Does what is published agree with what is stored? The first part shows that it does as long as the
  operations of the service run one after the other: an entry that is marked as published holds what
  was last published for it, whatever fails on the way. The second part takes \<open>setPermission\<close> and the
  loop that publishes again (\<open>resource.go\<close>, \<open>controller.go\<close>) apart into the steps between which other
  requests run, and shows a schedule of two requests that leaves an old message as the last one.
\<close>

section \<open>The invariant\<close>

text \<open>No two topics are published to one topic of Kafka: their messages would have the same keys.\<close>

definition kafka_unique :: "store \<Rightarrow> bool" where
  "kafka_unique st \<longleftrightarrow> (\<forall>i j a b. st_topics st i = Some a \<longrightarrow> st_topics st j = Some b \<longrightarrow> publishes a \<longrightarrow>
     t_publish_to_kafka_topic a = t_publish_to_kafka_topic b \<longrightarrow> i = j)"

text \<open>The cache of producers finds a producer that writes to the topic it is asked for.\<close>

definition cache_fits :: "('p \<Rightarrow> string option) \<Rightarrow> 'p gomap \<Rightarrow> bool" where
  "cache_fits writes_to m \<longleftrightarrow> (\<forall>k p. m_get m k = Some p \<longrightarrow> writes_to p = Some k)"

definition in_sync ::
  "store \<Rightarrow> (string \<times> string) set \<Rightarrow> (string \<times> string \<Rightarrow> acl option) \<Rightarrow> bool" where
  "in_sync st marked pub \<longleftrightarrow> (\<forall>t i topic. (t, i) \<in> marked \<longrightarrow> st_topics st t = Some topic \<longrightarrow>
     publishes topic \<longrightarrow> pub (t_publish_to_kafka_topic topic, i) = st_resources st t i)"

lemma in_syncD:
  "in_sync st marked pub \<Longrightarrow> (t, i) \<in> marked \<Longrightarrow> st_topics st t = Some topic \<Longrightarrow> publishes topic \<Longrightarrow>
   pub (t_publish_to_kafka_topic topic, i) = st_resources st t i"
  by (simp add: in_sync_def)

lemma in_sync_subset: "in_sync st marked pub \<Longrightarrow> marked' \<subseteq> marked \<Longrightarrow> in_sync st marked' pub"
  by (auto simp: in_sync_def)

lemma publishes_core [simp]: "publishes (topic_core t) = publishes t"
  by (simp add: publishes_def)

text \<open>Publishing for one resource does not touch what another one is in sync with.\<close>

lemma in_sync_published:
  assumes "in_sync st marked pub" "kafka_unique st"
    and "st_topics st t = Some topic" "publishes topic" "(t, i) \<notin> marked \<or> st_resources st t i = Some a"
  shows "in_sync st marked (pub((t_publish_to_kafka_topic topic, i) := Some a))"
  using assms unfolding in_sync_def kafka_unique_def fun_upd_def
  by (metis option.inject prod.inject)

lemma in_sync_marked:
  assumes "in_sync st marked pub" "st_topics st t = Some topic"
    and "publishes topic \<Longrightarrow> pub (t_publish_to_kafka_topic topic, i) = st_resources st t i"
  shows "in_sync st (insert (t, i) marked) pub"
  using assms by (auto simp: in_sync_def)

text \<open>An entry that is not marked may change.\<close>

lemma in_sync_put:
  assumes "in_sync st marked pub" "(r_topic_id r, r_id r) \<notin> marked"
  shows "in_sync (put_resource r st) marked pub"
  using assms by (auto simp: in_sync_def)

definition sync_invar ::
  "('s \<Rightarrow> store) \<Rightarrow> ('s \<Rightarrow> bool) \<Rightarrow> ('s \<Rightarrow> (string \<times> string) set) \<Rightarrow>
   ('e \<Rightarrow> string \<times> string \<Rightarrow> acl option) \<Rightarrow> ('p \<Rightarrow> string option) \<Rightarrow> ('s, 'e, 'p) world \<Rightarrow> bool" where
  "sync_invar store_of invar synced published writes_to w \<longleftrightarrow>
     invar (w_db w) \<and> kafka_unique (store_of (w_db w)) \<and> cache_fits writes_to (w_producer w) \<and>
     in_sync (store_of (w_db w)) (synced (w_db w)) (published (w_ext w))"

text \<open>The calls that publishing again relies on do not fail while the outside is \<open>ok\<close>, and it stays so.\<close>

definition nothing_fails :: "('e \<Rightarrow> bool) \<Rightarrow> ('s, 'e, 'p) controller \<Rightarrow> bool" where
  "nothing_fails ok C \<longleftrightarrow>
     (\<forall>i s. \<exists>q s'. run_state (GetTopic (ctl_db C) i) s = (Inr q, s')) \<and>
     (\<forall>topic e. ok e \<longrightarrow>
        (\<exists>p e'. run_state (GetProducer C (ctl_config C) topic) e = (Inr p, e') \<and> ok e')) \<and>
     (\<forall>p topic i permissions e. ok e \<longrightarrow>
        (\<exists>e'. run_state (SendPermissions C p topic i permissions) e = (None, e') \<and> ok e'))"

lemma publishPermission_no_error:
  assumes "nothing_fails ok C" "ok (w_ext w)" "run_state (publishPermission C topic i p) w = (e, w')"
  shows "e = None \<and> ok (w_ext w')"
proof -
  have "\<exists>x w1. run_state (getProducer C topic) w = (Inr x, w1) \<and> ok (w_ext w1)"
  proof (cases "m_get (w_producer w) (t_publish_to_kafka_topic topic)")
    case (Some x)
    with assms(2) show ?thesis by (auto simp: getProducer_def)
  next
    case None
    obtain x e1 where "run_state (GetProducer C (ctl_config C) topic) (w_ext w) = (Inr x, e1)" "ok e1"
      using assms(1,2) unfolding nothing_fails_def by meson
    with None show ?thesis by (auto simp: getProducer_def on_ext_def)
  qed
  then obtain x w1 where get: "run_state (getProducer C topic) w = (Inr x, w1)" "ok (w_ext w1)" by blast
  obtain e2 where "run_state (SendPermissions C x topic i p) (w_ext w1) = (None, e2)" "ok e2"
    using assms(1) get(2) unfolding nothing_fails_def by meson
  with get assms(2,3) show ?thesis
    by (auto simp: publishPermission_def on_ext_def split: if_splits)
qed

text \<open>A controller on such a database and such an outside.\<close>

locale publishing = synced_database db store_of invar synced + publisher C published writes_to
  for db :: "'s database" and store_of :: "'s \<Rightarrow> store" and invar synced
    and C :: "('s, 'e, 'p) controller" and published writes_to +
  assumes ctl_db_C: "ctl_db C = db"
begin

abbreviation inv where
  "inv \<equiv> sync_invar store_of invar synced published writes_to"

lemma publishPermission_effect:
  assumes cache: "cache_fits writes_to (w_producer w)"
    and run: "run_state (publishPermission C topic i p) w = (e, w')" and pub: "publishes topic"
  shows "w_db w' = w_db w" and "cache_fits writes_to (w_producer w')"
    and "(e \<noteq> None \<and> published (w_ext w') = published (w_ext w)) \<or>
      published (w_ext w') =
        (published (w_ext w))((t_publish_to_kafka_topic topic, i) := Some (acl_of p))"
proof -
  let ?k = "t_publish_to_kafka_topic topic"
  obtain q w1 where get: "run_state (getProducer C topic) w = (q, w1)" by fastforce
  have one: "w_db w1 = w_db w \<and> published (w_ext w1) = published (w_ext w) \<and>
      cache_fits writes_to (w_producer w1) \<and> (\<forall>x. q = Inr x \<longrightarrow> writes_to x = Some ?k)"
  proof (cases "m_get (w_producer w) ?k")
    case (Some x)
    with get cache show ?thesis by (auto simp: getProducer_def cache_fits_def)
  next
    case None
    obtain r e1 where make: "run_state (GetProducer C (ctl_config C) topic) (w_ext w) = (r, e1)" by fastforce
    have same: "published e1 = published (w_ext w)"
      using preservesD [OF GetProducer_published make] by simp
    show ?thesis
    proof (cases r)
      case (Inl err)
      with get None make cache same show ?thesis
        by (auto simp: getProducer_def on_ext_def cache_fits_def)
    next
      case (Inr x)
      with make GetProducer_writes_to have "writes_to x = Some ?k" by simp
      with get None make cache same Inr show ?thesis
        by (auto simp: getProducer_def on_ext_def cache_fits_def split: if_splits)
    qed
  qed
  have "w_db w' = w_db w \<and> cache_fits writes_to (w_producer w') \<and>
    ((e \<noteq> None \<and> published (w_ext w') = published (w_ext w)) \<or>
      published (w_ext w') = (published (w_ext w))((?k, i) := Some (acl_of p)))"
  proof (cases q)
    case (Inl err)
    with run get one pub show ?thesis by (auto simp: publishPermission_def publishes_iff)
  next
    case (Inr x)
    obtain e2 where send: "run_state (SendPermissions C x topic i p) (w_ext w1) = (e, e2)"
      and w': "w' = w1\<lparr>w_ext := e2\<rparr>"
      using run get Inr pub by (auto simp: publishPermission_def publishes_iff on_ext_def split: prod.splits)
    from SendPermissions_published [OF _ send] one Inr show ?thesis by (simp add: w')
  qed
  then show "w_db w' = w_db w" "cache_fits writes_to (w_producer w')"
    "(e \<noteq> None \<and> published (w_ext w') = published (w_ext w)) \<or>
      published (w_ext w') = (published (w_ext w))((?k, i) := Some (acl_of p))" by simp_all
qed

text \<open>A read of the database keeps the invariant, and so does a call that publishes nothing.\<close>

lemma inv_db:
  assumes "inv w" "invar d" "store_of d = store_of (w_db w)" "synced d \<subseteq> synced (w_db w)"
  shows "inv (w\<lparr>w_db := d\<rparr>)"
  using assms in_sync_subset by (auto simp: sync_invar_def)

lemma inv_ext: "inv w \<Longrightarrow> published e = published (w_ext w) \<Longrightarrow> inv (w\<lparr>w_ext := e\<rparr>)"
  by (simp add: sync_invar_def)

lemma inv_notifyError:
  assumes "inv w" "run_state (notifyError C info) w = (u, w')"
  shows "inv w' \<and> w_db w' = w_db w"
  using assms preservesD [OF SendMessage_published]
  by (auto simp: notifyError_def on_ext_def intro!: inv_ext split: prod.splits)

lemma inv_mark:
  assumes inv: "inv w" and topic: "st_topics (store_of (w_db w)) t = Some (topic_core topic)"
    and pub: "publishes topic \<Longrightarrow>
      published (w_ext w) (t_publish_to_kafka_topic topic, i) = st_resources (store_of (w_db w)) t i"
    and run: "run_state (on_db (MarkResourceAsSynced db t i)) w = (e, w')"
  shows "inv w' \<and> store_of (w_db w') = store_of (w_db w)"
proof -
  from run obtain d where mark: "run_state (MarkResourceAsSynced db t i) (w_db w) = (e, d)"
    and w': "w' = w\<lparr>w_db := d\<rparr>" by (auto simp: run_on_db)
  from inv have "invar (w_db w)" by (simp add: sync_invar_def)
  then have frame: "invar d" "store_of d = store_of (w_db w)"
    and marked: "synced d \<subseteq> insert (t, i) (synced (w_db w))"
    using preservesD [OF reads_MarkResourceAsSynced mark] MarkResourceAsSynced_synced [OF _ mark] by simp_all
  have "in_sync (store_of (w_db w)) (insert (t, i) (synced (w_db w))) (published (w_ext w))"
    using inv topic pub by (intro in_sync_marked [where topic = "topic_core topic"]) (simp_all add: sync_invar_def)
  from in_sync_subset [OF this marked] show ?thesis
    using inv frame by (simp add: sync_invar_def w')
qed

text \<open>What is stored for a resource was published last, if its topic is published at all.\<close>

definition pub_agrees :: "('s, 'e, 'p) world \<Rightarrow> string \<Rightarrow> string \<Rightarrow> bool" where
  "pub_agrees w t i \<longleftrightarrow> (\<forall>topic. st_topics (store_of (w_db w)) t = Some topic \<longrightarrow> publishes topic \<longrightarrow>
     published (w_ext w) (t_publish_to_kafka_topic topic, i) = st_resources (store_of (w_db w)) t i)"

text \<open>Publishing what is stored.\<close>

lemma inv_publish:
  assumes inv: "inv w" and topic: "st_topics (store_of (w_db w)) t = Some (topic_core topic)"
    and stored: "st_resources (store_of (w_db w)) t i = Some (acl_of p)"
    and run: "run_state (publishPermission C topic i p) w = (e, w')"
  shows "inv w'" and "w_db w' = w_db w"
    and "e = None \<Longrightarrow> publishes topic \<Longrightarrow>
      published (w_ext w') (t_publish_to_kafka_topic topic, i) = st_resources (store_of (w_db w)) t i"
    and "pub_agrees w u j \<Longrightarrow> pub_agrees w' u j"
proof -
  have "inv w' \<and> w_db w' = w_db w \<and> (e = None \<longrightarrow> publishes topic \<longrightarrow>
      published (w_ext w') (t_publish_to_kafka_topic topic, i) = st_resources (store_of (w_db w)) t i) \<and>
    (pub_agrees w u j \<longrightarrow> pub_agrees w' u j)"
  proof (cases "publishes topic")
    case True
    from inv have cache: "cache_fits writes_to (w_producer w)" by (simp add: sync_invar_def)
    note eff = publishPermission_effect [OF cache run True]
    have "in_sync (store_of (w_db w)) (synced (w_db w))
        ((published (w_ext w))((t_publish_to_kafka_topic (topic_core topic), i) := Some (acl_of p)))"
      using inv topic True stored by (intro in_sync_published disjI2) (simp_all add: sync_invar_def)
    moreover have "pub_agrees w' u j" if agrees: "pub_agrees w u j"
      unfolding pub_agrees_def
    proof (intro allI impI)
      fix b assume b: "st_topics (store_of (w_db w')) u = Some b" "publishes b"
      with agrees eff(1) have old: "published (w_ext w) (t_publish_to_kafka_topic b, j) =
          st_resources (store_of (w_db w)) u j" by (simp add: pub_agrees_def)
      have "u = t" if "t_publish_to_kafka_topic b = t_publish_to_kafka_topic topic"
        using inv topic b that eff(1) unfolding sync_invar_def kafka_unique_def by (metis topic_core_simps(2))
      with eff(3) old stored show "published (w_ext w') (t_publish_to_kafka_topic b, j) =
          st_resources (store_of (w_db w')) u j" by (auto simp: eff(1))
    qed
    ultimately show ?thesis using eff inv by (auto simp: sync_invar_def stored)
  next
    case False
    with run have "w' = w" by (auto simp: publishPermission_def publishes_iff)
    with False inv show ?thesis by simp
  qed
  then show "inv w'" "w_db w' = w_db w" "e = None \<Longrightarrow> publishes topic \<Longrightarrow>
      published (w_ext w') (t_publish_to_kafka_topic topic, i) = st_resources (store_of (w_db w)) t i"
    "pub_agrees w u j \<Longrightarrow> pub_agrees w' u j"
    by simp_all
qed

text \<open>The write itself: what is marked as published is not in the way.\<close>

lemma inv_set:
  assumes inv: "inv w" and topic: "st_topics (store_of (w_db w)) (t_id topic) = Some (topic_core topic)"
    and r: "r_topic_id r = t_id topic"
    and run: "run_state (on_db (SetResource db r time (\<not> publishes topic))) w = (e, w')"
  shows "inv w'" and "st_topics (store_of (w_db w')) = st_topics (store_of (w_db w))"
    and "e = None \<Longrightarrow> st_resources (store_of (w_db w')) (t_id topic) (r_id r) = Some (acl_of (r_permissions r))"
proof -
  from run obtain d where set: "run_state (SetResource db r time (\<not> publishes topic)) (w_db w) = (e, d)"
    and w': "w' = w\<lparr>w_db := d\<rparr>" by (auto simp: run_on_db)
  from inv have inv0: "invar (w_db w)" by (simp add: sync_invar_def)
  have invd: "invar d" using preservesD [OF maintains_SetResource set inv0] by simp
  consider "e \<noteq> None" "store_of d = store_of (w_db w)" "synced d = synced (w_db w)"
    | "store_of d = put_resource r (store_of (w_db w))"
      "synced d \<subseteq> (if \<not> publishes topic then insert (t_id topic, r_id r) (synced (w_db w))
         else synced (w_db w) - {(t_id topic, r_id r)})"
    using SetResource_synced [OF inv0 set, unfolded r] by blast
  then have "inv w' \<and> st_topics (store_of (w_db w')) = st_topics (store_of (w_db w)) \<and>
    (e = None \<longrightarrow> st_resources (store_of (w_db w')) (t_id topic) (r_id r) = Some (acl_of (r_permissions r)))"
  proof cases
    case 1
    then show ?thesis using inv invd by (auto simp: w' sync_invar_def)
  next
    case 2
    let ?rest = "synced (w_db w) - {(t_id topic, r_id r)}"
    have sync: "in_sync (store_of (w_db w)) ?rest (published (w_ext w))"
      using inv in_sync_subset [OF _ Diff_subset] by (simp add: sync_invar_def)
    have put: "in_sync (put_resource r (store_of (w_db w))) ?rest (published (w_ext w))"
      by (rule in_sync_put [OF sync]) (simp add: r)
    have "in_sync (put_resource r (store_of (w_db w))) (synced d) (published (w_ext w))"
    proof (cases "publishes topic")
      case True
      with 2(2) show ?thesis by (intro in_sync_subset [OF put]) simp
    next
      case False
      have "in_sync (put_resource r (store_of (w_db w))) (insert (t_id topic, r_id r) ?rest) (published (w_ext w))"
        using topic False by (intro in_sync_marked [OF put, where topic = "topic_core topic"]) simp_all
      from in_sync_subset [OF this] 2(2) False show ?thesis by simp
    qed
    with inv invd 2(1) show ?thesis by (simp add: w' sync_invar_def kafka_unique_def r)
  qed
  then show "inv w'" "st_topics (store_of (w_db w')) = st_topics (store_of (w_db w))"
    "e = None \<Longrightarrow> st_resources (store_of (w_db w')) (t_id topic) (r_id r) = Some (acl_of (r_permissions r))"
    by simp_all
qed

lemma inv_setPermission:
  assumes inv: "inv w" and topic: "st_topics (store_of (w_db w)) (t_id topic) = Some (topic_core topic)"
    and r: "r_topic_id r = t_id topic" and run: "run_state (setPermission C topic r) w = (e, w')"
  shows "inv w' \<and> st_topics (store_of (w_db w')) = st_topics (store_of (w_db w))"
proof -
  obtain now w1 where now: "run_state (on_ext (time_Now C)) w = (now, w1)" by fastforce
  have w1: "inv w1" "w_db w1 = w_db w"
    using now preservesD [OF time_Now_published] inv_ext [OF inv] by (auto simp: run_on_ext)
  obtain err w2 where set: "run_state (on_db (SetResource db r now (\<not> publishes topic))) w1 = (err, w2)"
    by fastforce
  note wrote = inv_set [OF w1(1) _ r set, unfolded w1(2), OF topic]
  show ?thesis
  proof (cases "err = None \<and> publishes topic")
    case False
    then have "w' = w2"
      using run now set by (cases err) (auto simp: setPermission_def ctl_db_C Let_def)
    then show ?thesis using wrote by simp
  next
    case True
    obtain e3 w3 where pub: "run_state (publishPermission C topic (r_id r) (r_permissions r)) w2 = (e3, w3)"
      by fastforce
    have topic2: "st_topics (store_of (w_db w2)) (t_id topic) = Some (topic_core topic)"
      using wrote(2) topic by simp
    have stored: "st_resources (store_of (w_db w2)) (t_id topic) (r_id r) = Some (acl_of (r_permissions r))"
      using wrote(3) True by simp
    note p = inv_publish [OF wrote(1) topic2 stored pub]
    show ?thesis
    proof (cases e3)
      case None
      then have "run_state (on_db (MarkResourceAsSynced db (t_id topic) (r_id r))) w3 = (e, w')"
        using run now set pub True by (simp add: setPermission_def ctl_db_C)
      from inv_mark [OF p(1) _ _ this, of topic] p(2,3) None topic2 wrote(2) show ?thesis by simp
    next
      case (Some x)
      then obtain u where "run_state (notifyError C (''unable to publish permissions update to '' @
          t_publish_to_kafka_topic topic @ ''; publish will be retried'')) w3 = (u, w')"
        using run now set pub True by (auto simp: setPermission_def ctl_db_C split: prod.splits)
      from inv_notifyError [OF p(1) this] p(2) wrote(2) show ?thesis by simp
    qed
  qed
qed

text \<open>Publishing again.\<close>

lemma pub_agrees_db:
  "store_of d = store_of (w_db w) \<Longrightarrow> pub_agrees (w\<lparr>w_db := d\<rparr>) t i \<longleftrightarrow> pub_agrees w t i"
  by (simp add: pub_agrees_def)

lemma inv_retry_resource:
  assumes inv: "inv w" and run: "run_state (retry_resource C r) w = (u, w')"
    and stored: "st_resources (store_of (w_db w)) (r_topic_id r) (r_id r) = Some (acl_of (r_permissions r))"
  shows "inv w' \<and> store_of (w_db w') = store_of (w_db w) \<and>
    (pub_agrees w t i \<longrightarrow> pub_agrees w' t i) \<and>
    (nothing_fails ok C \<longrightarrow> ok (w_ext w) \<longrightarrow> ok (w_ext w') \<and> pub_agrees w' (r_topic_id r) (r_id r))"
proof -
  obtain q d where get: "run_state (GetTopic db (r_topic_id r)) (w_db w) = (q, d)" by fastforce
  let ?w1 = "w\<lparr>w_db := d\<rparr>"
  from inv have inv0: "invar (w_db w)" by (simp add: sync_invar_def)
  have same: "store_of d = store_of (w_db w)" and inv1: "inv ?w1"
    using preservesD [OF reads_GetTopic get inv0] preservesD [OF GetTopic_synced get inv0]
    by (auto intro!: inv_db [OF inv])
  note agrees1 = pub_agrees_db [OF same]
  show ?thesis
  proof (cases "\<exists>topic. q = Inr (Some topic)")
    case False
    then have w': "w' = ?w1" using run get
      by (auto simp: retry_resource_def on_db_def ctl_db_C split: sum.splits option.splits)
    have "st_topics (store_of d) (r_topic_id r) = None" if ok: "nothing_fails ok C"
    proof -
      obtain found where "q = Inr found"
        using ok get unfolding nothing_fails_def ctl_db_C by (metis prod.inject)
      with False GetTopic_law [OF inv0, of "r_topic_id r" found d] get show ?thesis
        by (cases found) (auto simp: same)
    qed
    with inv1 same agrees1 show ?thesis by (simp add: w' pub_agrees_def)
  next
    case True
    then obtain topic where q: "q = Inr (Some topic)" by blast
    have topic: "st_topics (store_of (w_db ?w1)) (r_topic_id r) = Some (topic_core topic)" "t_id topic = r_topic_id r"
      using GetTopic_law [OF inv0 get [unfolded q]] same by auto
    obtain e w2 where pub: "run_state (publishPermission C topic (r_id r) (r_permissions r)) ?w1 = (e, w2)"
      by fastforce
    note p = inv_publish [OF inv1 topic(1) _ pub, simplified, unfolded same, OF stored]
    have store2: "store_of (w_db w2) = store_of (w_db w)" using p(2) same by simp
    show ?thesis
    proof (cases e)
      case None
      then obtain e' where mark: "run_state (on_db (MarkResourceAsSynced db (r_topic_id r) (r_id r))) w2 = (e', w')"
        using run get pub q topic(2)
        by (auto simp: retry_resource_def on_db_def ctl_db_C split: prod.splits)
      then obtain d' where w': "w' = w2\<lparr>w_db := d'\<rparr>" by (auto simp: run_on_db)
      from inv_mark [OF p(1) _ _ mark, of topic] p(2,3) None topic(1) stored
      have fin: "inv w'" "store_of d' = store_of (w_db w2)" by (simp_all add: w' same)
      have "pub_agrees w2 (r_topic_id r) (r_id r)"
        using p(3) [OF None] topic(1) stored by (auto simp: pub_agrees_def store2 same)
      with fin p(4) [of t i] agrees1 pub_agrees_db [OF fin(2)] publishPermission_no_error [OF _ _ pub, of ok]
      show ?thesis by (simp add: w' store2)
    next
      case (Some x)
      then have w': "w' = w2" using run get pub q by (simp add: retry_resource_def on_db_def ctl_db_C)
      have "\<not> (nothing_fails ok C \<and> ok (w_ext w))"
        using publishPermission_no_error [OF _ _ pub, of ok] Some by auto
      with p(1,4) store2 agrees1 show ?thesis by (simp add: w')
    qed
  qed
qed

lemma inv_retry_resources:
  assumes "inv w" "run_state (retry_resources C rs) w = (u, w')"
    and "\<And>r. r \<in> set rs \<Longrightarrow>
      st_resources (store_of (w_db w)) (r_topic_id r) (r_id r) = Some (acl_of (r_permissions r))"
  shows "inv w' \<and> store_of (w_db w') = store_of (w_db w) \<and>
    (pub_agrees w t i \<longrightarrow> pub_agrees w' t i) \<and>
    (nothing_fails ok C \<longrightarrow> ok (w_ext w) \<longrightarrow> (\<forall>r \<in> set rs. pub_agrees w' (r_topic_id r) (r_id r)))"
  using assms
proof (induction rs arbitrary: w t i)
  case (Cons r rs)
  obtain w1 where one: "run_state (retry_resource C r) w = ((), w1)"
    and rest: "run_state (retry_resources C rs) w1 = (u, w')"
    using Cons.prems(2) by (auto split: prod.splits)
  have step: "inv w1 \<and> store_of (w_db w1) = store_of (w_db w) \<and>
      (pub_agrees w t i \<longrightarrow> pub_agrees w1 t i) \<and>
      (nothing_fails ok C \<longrightarrow> ok (w_ext w) \<longrightarrow> ok (w_ext w1) \<and> pub_agrees w1 (r_topic_id r) (r_id r))"
    for t i using inv_retry_resource [OF Cons.prems(1) one, of t i ok] Cons.prems(3) by simp
  have stored: "st_resources (store_of (w_db w1)) (r_topic_id x) (r_id x) = Some (acl_of (r_permissions x))"
    if "x \<in> set rs" for x using that step Cons.prems(3) by simp
  note IH = Cons.IH [OF conjunct1 [OF step] rest stored]
  show ?case
    using IH [of t i] IH [of "r_topic_id r" "r_id r"] step [of t i] by (simp only: list.set ball_simps) blast
qed simp

lemma inv_retry:
  assumes inv: "inv w" and run: "run_state (RetryPublishOfUnsyncedResources C) w = (e, w')"
    and list: "run_state (ListUnsyncedResources db) (w_db w) = (q, d)"
  shows "inv w' \<and> store_of (w_db w') = store_of (w_db w) \<and>
    (\<forall>l. q = Inr l \<longrightarrow> nothing_fails ok C \<longrightarrow> ok (w_ext w) \<longrightarrow>
       e = None \<and> (\<forall>r \<in> set l. pub_agrees w' (r_topic_id r) (r_id r)))"
proof -
  let ?w1 = "w\<lparr>w_db := d\<rparr>"
  from inv have inv0: "invar (w_db w)" by (simp add: sync_invar_def)
  have same: "store_of d = store_of (w_db w)" and inv1: "inv ?w1"
    using preservesD [OF reads_ListUnsyncedResources list inv0]
      preservesD [OF ListUnsyncedResources_synced list inv0] by (auto intro!: inv_db [OF inv])
  show ?thesis
  proof (cases q)
    case (Inl err)
    with run list have "w' = ?w1" by (simp add: RetryPublishOfUnsyncedResources_def on_db_def ctl_db_C)
    with inv1 same Inl show ?thesis by simp
  next
    case (Inr rs)
    with run list have fin: "run_state (retry_resources C rs) ?w1 = ((), w')" "e = None"
      by (auto simp: RetryPublishOfUnsyncedResources_def on_db_def ctl_db_C split: prod.splits)
    from inv_retry_resources [OF inv1 fin(1)] ListUnsyncedResources_stored [OF inv0 list [unfolded Inr]]
    show ?thesis by (simp add: same Inr fin(2))
  qed
qed

text \<open>
  The requests: they read the database, may ask the user management, and then call \<open>setPermission\<close>
  with a topic they have read. \<open>inv_with topic\<close> says that the topic is the stored one.
\<close>

definition inv_with :: "topic \<Rightarrow> ('s, 'e, 'p) world \<Rightarrow> bool" where
  "inv_with topic w \<longleftrightarrow> inv w \<and> st_topics (store_of (w_db w)) (t_id topic) = Some (topic_core topic)"

lemma inv_with_read:
  "preserves invar store_of m \<Longrightarrow> preserves invar synced m \<Longrightarrow> maintains (inv_with topic) (on_db m)"
proof (rule preservesI)
  fix w r w'
  assume m: "preserves invar store_of m" "preserves invar synced m"
    and w: "inv_with topic w" and run: "run_state (on_db m) w = (r, w')"
  from run obtain d where d: "run_state m (w_db w) = (r, d)" and w': "w' = w\<lparr>w_db := d\<rparr>"
    by (auto simp: run_on_db)
  from w have "invar (w_db w)" by (simp add: inv_with_def sync_invar_def)
  from preservesD [OF m(1) d this] preservesD [OF m(2) d this] w
  show "inv_with topic w' \<and> () = ()" by (auto simp: w' inv_with_def intro: inv_db)
qed

lemma inv_with_http: "maintains (inv_with topic) (on_ext (http_do C req))"
  using preservesD [OF http_do_published]
  by (intro preservesI) (auto simp: run_on_ext inv_with_def sync_invar_def)

lemma inv_with_setPermission:
  "r_topic_id r = t_id topic \<Longrightarrow> maintains (inv_with topic) (setPermission C topic r)"
proof (rule preservesI)
  fix w e w' assume r: "r_topic_id r = t_id topic" and w: "inv_with topic w"
    and run: "run_state (setPermission C topic r) w = (e, w')"
  from w have "inv w" "st_topics (store_of (w_db w)) (t_id topic) = Some (topic_core topic)"
    by (simp_all add: inv_with_def)
  from inv_setPermission [OF this r run] w show "inv_with topic w' \<and> () = ()"
    by (simp add: inv_with_def)
qed

lemma inv_with_checkEditPermission:
  "maintains (inv_with topic) (checkEditPermission C token t i p)"
  unfolding checkEditPermission_def check_added_def getUsersInSameGroup_def Let_def ctl_db_C
  by (intro preserves_rules inv_with_read inv_with_http reads_GetResource GetResource_synced)

lemma inv_GetTopic:
  assumes inv: "inv w" and run: "run_state (on_db (GetTopic db t)) w = (q, w')"
  shows "inv w'" and "q = Inr (Some topic) \<Longrightarrow> inv_with topic w' \<and> t_id topic = t"
proof -
  from run obtain d where get: "run_state (GetTopic db t) (w_db w) = (q, d)" and w': "w' = w\<lparr>w_db := d\<rparr>"
    by (auto simp: run_on_db)
  from inv have inv0: "invar (w_db w)" by (simp add: sync_invar_def)
  have same: "store_of d = store_of (w_db w)" and inv1: "inv w'"
    using preservesD [OF reads_GetTopic get inv0] preservesD [OF GetTopic_synced get inv0]
    by (auto simp: w' intro!: inv_db [OF inv])
  then show "inv w'" by simp
  show "inv_with topic w' \<and> t_id topic = t" if "q = Inr (Some topic)"
    using GetTopic_law [OF inv0 get [unfolded that]] inv1 same by (auto simp: inv_with_def w')
qed

lemma inv_SetPermission:
  assumes inv: "inv w" and run: "run_state (SetPermission C s t i p) w = (q, w')"
  shows "inv w'"
proof (cases "jwt_Parse C s")
  case (Inl err)
  with run inv show ?thesis by (simp add: SetPermission_def)
next
  case (Inr token)
  obtain found w1 where get: "run_state (on_db (GetTopic db t)) w = (found, w1)" by fastforce
  note g = inv_GetTopic [OF inv get]
  show ?thesis
  proof (cases "\<exists>topic. found = Inr (Some topic)")
    case False
    then have "w' = w1" using run get Inr
      by (auto simp: SetPermission_def ctl_db_C split: sum.splits option.splits)
    with g(1) show ?thesis by simp
  next
    case True
    then obtain topic where found: "found = Inr (Some topic)" by blast
    define rest where "rest = (do {
      let access = checkTopicDefaultPermission token topic [Administrate];
      let pureId = pure_id i;
      a \<leftarrow> (if access then ret (Inr True)
           else on_db (CheckResourcePermissions db t pureId (GetUserId token)
             (GetRoles token) (GetGroups token) [Administrate]));
      case a of
        Inl err \<Rightarrow> ret (Inl (err, StatusInternalServerError))
      | Inr access \<Rightarrow>
          if \<not> access then ret (Inl (Err ''access denied'', StatusForbidden))
          else if \<not> Valid p
          then ret (Inl (Err ''invalid permissions'', StatusBadRequest))
          else do {
            r \<leftarrow> checkEditPermission C token (t_id topic) i p;
            case r of
              Inl (err, code) \<Rightarrow> ret (Inl (err, code))
            | Inr (permissions, code) \<Rightarrow> do {
                err \<leftarrow> setPermission C topic
                  \<lparr>r_id = pureId, r_topic_id = t_id topic, r_permissions = permissions\<rparr>;
                case err of
                  Some e \<Rightarrow> ret (Inl (e, StatusInternalServerError))
                | None \<Rightarrow> ret (Inr (permissions, StatusOK)) } } })"
    have run': "run_state rest w1 = (q, w')"
      using run unfolding SetPermission_def Inr sum.case ctl_db_C
      by (simp only: run_bind_eq [OF get] found sum.case option.case rest_def)
    have "maintains (inv_with topic) rest"
      unfolding rest_def Let_def
      by (intro preserves_rules inv_with_read inv_with_setPermission inv_with_checkEditPermission
          reads_CheckResourcePermissions CheckResourcePermissions_synced) simp
    from preservesD [OF this run' conjunct1 [OF g(2) [OF found]]] show ?thesis by (simp add: inv_with_def)
  qed
qed

lemma inv_RemoveResource:
  assumes inv: "inv w" and run: "run_state (RemoveResource C s t i) w = (q, w')"
  shows "inv w'"
proof (cases "\<exists>token. jwt_Parse C s = Inr token \<and> IsAdmin token")
  case False
  with run inv show ?thesis by (auto simp: RemoveResource_def split: sum.splits if_splits)
next
  case True
  then obtain e d where del: "run_state (DeleteResource db t i) (w_db w) = (e, d)" and w': "w' = w\<lparr>w_db := d\<rparr>"
    using run by (auto simp: RemoveResource_def on_db_def ctl_db_C split: prod.splits option.splits)
  from inv have inv0: "invar (w_db w)" by (simp add: sync_invar_def)
  have invd: "invar d" using preservesD [OF maintains_DeleteResource del inv0] by simp
  have sub: "synced d \<subseteq> synced (w_db w)" by (rule DeleteResource_synced [OF inv0 del])
  have st: "st_topics (store_of d) = st_topics (store_of (w_db w))"
    "\<And>u j. st_resources (store_of d) u j = st_resources (store_of (w_db w)) u j \<or>
      st_resources (store_of d) u j = None"
    using DeleteResource_law [OF inv0 del] by (auto split: if_splits)
  have "in_sync (store_of d) (synced d) (published (w_ext w))"
    unfolding in_sync_def
  proof (intro allI impI)
    fix u j topic assume a: "(u, j) \<in> synced d" "st_topics (store_of d) u = Some topic" "publishes topic"
    with inv sub st(1) have "published (w_ext w) (t_publish_to_kafka_topic topic, j) =
        st_resources (store_of (w_db w)) u j"
      by (intro in_syncD [where marked = "synced (w_db w)"]) (auto simp: sync_invar_def)
    with st(2) [of u j] synced_stored [OF invd a(1)]
    show "published (w_ext w) (t_publish_to_kafka_topic topic, j) = st_resources (store_of d) u j" by auto
  qed
  with inv invd st(1) show ?thesis by (simp add: w' sync_invar_def kafka_unique_def)
qed

lemma inv_read:
  "preserves invar store_of m \<Longrightarrow> preserves invar synced m \<Longrightarrow> maintains inv (on_db m)"
proof (rule preservesI)
  fix w r w'
  assume m: "preserves invar store_of m" "preserves invar synced m"
    and w: "inv w" and run: "run_state (on_db m) w = (r, w')"
  from run obtain d where d: "run_state m (w_db w) = (r, d)" and w': "w' = w\<lparr>w_db := d\<rparr>"
    by (auto simp: run_on_db)
  from w have "invar (w_db w)" by (simp add: sync_invar_def)
  from preservesD [OF m(1) d this] preservesD [OF m(2) d this] w
  show "inv w' \<and> () = ()" by (auto simp: w' intro: inv_db)
qed

lemma inv_CheckPermission: "maintains inv (CheckPermission C s t i ps)"
  unfolding CheckPermission_def checkPermission_def CheckTopicDefaultPermission_def Let_def ctl_db_C
  by (intro preserves_rules inv_read reads_GetTopic GetTopic_synced reads_CheckResourcePermissions
      CheckResourcePermissions_synced)

text \<open>An import of resources keeps the topics it has read.\<close>

lemma inv_import_permissions:
  assumes "inv w" "run_state (import_permissions C options cache rs) w = (q, w')"
    and "\<And>k topic. DAList.lookup cache k = Some topic \<Longrightarrow>
      st_topics (store_of (w_db w)) k = Some (topic_core topic) \<and> t_id topic = k"
  shows "inv w'"
  using assms
proof (induction rs arbitrary: w cache)
  case (Cons r rs)
  show ?case
  proof (cases "import_filter options r \<and> Valid (r_permissions r)")
    case False
    with Cons show ?thesis by (auto simp: import_filter_def split: if_splits)
  next
    case True
    obtain found w1 where get: "run_state (cached_topic C cache r) w = (found, w1)" by fastforce
    have rest: "run_state (case found of
          Inl (err, code) \<Rightarrow> ret (Inl (err, code))
        | Inr ((topic, cache), code) \<Rightarrow> do {
            err \<leftarrow> setPermission C topic r;
            case err of
              Some e \<Rightarrow> ret (Inl (e, StatusInternalServerError))
            | None \<Rightarrow> import_permissions C options cache rs }) w1 = (q, w')"
      using Cons.prems(2) True get by (simp add: import_filter_def)
    have step: "inv w1 \<and> (\<forall>topic cache' code. found = Inr ((topic, cache'), code) \<longrightarrow>
        inv_with topic w1 \<and> t_id topic = r_topic_id r \<and>
        (\<forall>k b. DAList.lookup cache' k = Some b \<longrightarrow>
           st_topics (store_of (w_db w1)) k = Some (topic_core b) \<and> t_id b = k))"
    proof (cases "DAList.lookup cache (r_topic_id r)")
      case (Some topic)
      with get Cons.prems(1,3) show ?thesis by (auto simp: cached_topic_def inv_with_def)
    next
      case None
      obtain f where run: "run_state (on_db (GetTopic db (r_topic_id r))) w = (f, w1)"
        and found: "found = (case f of Inl err \<Rightarrow> Inl (err, StatusInternalServerError)
          | Inr None \<Rightarrow> Inl (Err (import_resource_text r @ '': topic does not exist''), StatusBadRequest)
          | Inr (Some topic) \<Rightarrow> Inr ((topic, DAList.update (r_topic_id r) topic cache), StatusOK))"
        using get None by (auto simp: cached_topic_def ctl_db_C split: prod.splits sum.splits option.splits)
      note g = inv_GetTopic [OF Cons.prems(1) run]
      from run obtain d where d: "run_state (GetTopic db (r_topic_id r)) (w_db w) = (f, d)" "w1 = w\<lparr>w_db := d\<rparr>"
        by (auto simp: run_on_db)
      have "store_of (w_db w1) = store_of (w_db w)"
        using preservesD [OF reads_GetTopic d(1)] Cons.prems(1) by (simp add: sync_invar_def d(2))
      with g Cons.prems(3) show ?thesis
        unfolding found
        by (auto simp: lookup_update inv_with_def split: sum.splits option.splits if_splits)
    qed
    show ?thesis
    proof (cases found)
      case (Inl e)
      with rest step show ?thesis by (cases e) simp
    next
      case (Inr f)
      obtain topic cache' code where f: "f = ((topic, cache'), code)" by (cases f) auto
      obtain e w2 where set: "run_state (setPermission C topic r) w1 = (e, w2)" by fastforce
      have w1: "inv w1" "st_topics (store_of (w_db w1)) (t_id topic) = Some (topic_core topic)"
        "r_topic_id r = t_id topic" using step Inr f by (auto simp: inv_with_def)
      have cache': "st_topics (store_of (w_db w1)) k = Some (topic_core b) \<and> t_id b = k"
        if "DAList.lookup cache' k = Some b" for k b using step Inr f that by simp
      note after = inv_setPermission [OF w1 set]
      show ?thesis
      proof (cases e)
        case None
        then have "run_state (import_permissions C options cache' rs) w2 = (q, w')"
          using rest set by (simp add: Inr f)
        from Cons.IH [OF conjunct1 [OF after] this] cache' conjunct2 [OF after] show ?thesis by simp
      next
        case (Some x)
        with rest set after show ?thesis by (simp add: Inr f)
      qed
    qed
  qed
qed simp

lemma inv_Import:
  assumes "inv w" "run_state (Import C s m options) w = (q, w')" "\<not> ieo_include_topic_config options"
  shows "inv w'"
proof (cases "jwt_Parse C s")
  case (Inl err)
  with assms show ?thesis by (simp add: Import_def)
next
  case (Inr token)
  show ?thesis
  proof (cases "IsAdmin token \<and> ieo_include_permissions options")
    case True
    with Inr assms(2,3)
    have "run_state (import_permissions C options DAList.empty (ie_permissions m)) w = (q, w')"
      by (simp add: Import_def)
    from inv_import_permissions [OF assms(1) this] show ?thesis by simp
  next
    case False
    with Inr assms show ?thesis by (auto simp: Import_def split: if_splits)
  qed
qed

end

section \<open>One request after the other\<close>

text \<open>
  What a service may have done since it was in the world \<open>w\<close>, topics apart: requests of anyone, with
  any outcome, and rounds of the sync loop, in any order, one at a time.
\<close>

inductive served :: "('s, 'e, 'p) controller \<Rightarrow> ('s, 'e, 'p) world \<Rightarrow> ('s, 'e, 'p) world \<Rightarrow> bool"
  for C :: "('s, 'e, 'p) controller" and w :: "('s, 'e, 'p) world" where
  served_start: "served C w w"
| served_set: "served C w v \<Longrightarrow> run_state (SetPermission C s t i p) v = (q, v') \<Longrightarrow> served C w v'"
| served_remove: "served C w v \<Longrightarrow> run_state (RemoveResource C s t i) v = (q, v') \<Longrightarrow> served C w v'"
| served_check: "served C w v \<Longrightarrow> run_state (CheckPermission C s t i ps) v = (q, v') \<Longrightarrow> served C w v'"
| served_import: "served C w v \<Longrightarrow> run_state (Import C s m options) v = (q, v') \<Longrightarrow>
     \<not> ieo_include_topic_config options \<Longrightarrow> served C w v'"
| served_retry: "served C w v \<Longrightarrow> run_state (RetryPublishOfUnsyncedResources C) v = (q, v') \<Longrightarrow> served C w v'"

context publishing
begin

lemma inv_served: "served C w w' \<Longrightarrow> inv w \<Longrightarrow> inv w'"
proof (induction rule: served.induct)
  case (served_check v s t i ps q v')
  then show ?case using preservesD [OF inv_CheckPermission] by blast
next
  case (served_retry v q v')
  obtain l d where "run_state (ListUnsyncedResources db) (w_db v) = (l, d)" by fastforce
  from inv_retry [OF _ served_retry(2) this] served_retry(3,4) show ?case by simp
qed (auto intro: inv_SetPermission inv_RemoveResource inv_Import)

lemma inv_agrees:
  assumes "inv w" "(t, i) \<in> synced (w_db w)" "st_topics (store_of (w_db w)) t = Some topic" "publishes topic"
  shows "published (w_ext w) (t_publish_to_kafka_topic topic, i) = st_resources (store_of (w_db w)) t i \<and>
    st_resources (store_of (w_db w)) t i \<noteq> None"
  using assms in_syncD [OF _ assms(2-4)] synced_stored [OF _ assms(2)] by (auto simp: sync_invar_def)

end

text \<open>The samples: an empty database to which root and Alice have written.\<close>

interpretation mem_sync: publishing "mongo_db (mem_mongo 300000)" "mongo_store mem_perms mem_topics"
  "mongo_invar mem_perms mem_topics" "mongo_synced mem_perms" mem_controller sample_published Some
  by (intro publishing.intro publishing_axioms.intro mem_controller_db)
    (unfold_locales)

definition fresh_world :: "(mem, sample_ext, string) world" where
  "fresh_world = mem_world\<lparr>w_db := (w_db mem_world)\<lparr>mem_perms := []\<rparr>\<rparr>"

lemma fresh_sync_invar:
  "sync_invar (mongo_store mem_perms mem_topics) (mongo_invar mem_perms mem_topics) (mongo_synced mem_perms)
     sample_published Some fresh_world"
  by (auto simp: sync_invar_def fresh_world_def mem_world_def sample_world_def mongo_invar_def
      mongo_synced_def in_sync_def kafka_unique_def cache_fits_def mongo_store_def devices_def
      device_types_def publishes_def split: if_splits)


definition served_world :: "(mem, sample_ext, string) world" where
  "served_world = snd (run_state (SetPermission mem_controller ''Bearer alice'' ''devices'' ''d'' shared)
     (snd (run_state (SetPermission mem_controller ''Bearer root'' ''devices'' ''d'' (r_permissions device))
        fresh_world)))"

lemma served_world_marked:
  "mem_perms (w_db served_world) = [setResourcePermissions shared (empty_entry ''devices'' ''d'' 1000 False)
     \<lparr>pe_synced := True\<rparr>]"
  by code_simp

lemma served_world_topics: "mem_topics (w_db served_world) = [devices, device_types]"
  by code_simp


text \<open>
  C20. A round of the sync loop in which nothing fails publishes everything it finds: for every entry
  that is listed as not yet published and whose topic is published, what is stored is then the last
  message with its key, and the round reports no error.
\<close>

theorem retry_publishes:
  assumes "publishing db store_of invar synced C published writes_to"
    and "sync_invar store_of invar synced published writes_to w"
    and "nothing_fails ok C" "ok (w_ext w)"
    and "run_state (ListUnsyncedResources db) (w_db w) = (Inr l, d)" "r \<in> set l"
    and "st_topics (store_of (w_db w)) (r_topic_id r) = Some topic" "publishes topic"
    and "run_state (RetryPublishOfUnsyncedResources C) w = (e, w')"
  shows "e = None \<and> store_of (w_db w') = store_of (w_db w) \<and>
    published (w_ext w') (t_publish_to_kafka_topic topic, r_id r) = Some (acl_of (r_permissions r))"
proof -
  note round = publishing.inv_retry [OF assms(1,2,9,5), of ok]
  have "publishing.pub_agrees store_of published w' (r_topic_id r) (r_id r)" "e = None"
    using round assms(3,4,6) by simp_all
  moreover have "st_resources (store_of (w_db w)) (r_topic_id r) (r_id r) = Some (acl_of (r_permissions r))"
    using synced_database.ListUnsyncedResources_stored [OF publishing.axioms(1) [OF assms(1)] _ assms(5,6)]
      assms(2) by (simp add: sync_invar_def)
  ultimately show ?thesis
    using round assms(7,8) by (simp add: publishing.pub_agrees_def [OF assms(1)])
qed

definition late_world :: "(mem, sample_ext, string) world" where
  "late_world = fresh_world\<lparr>w_db := (w_db fresh_world)\<lparr>mem_clock := 400000,
     mem_perms := [setResourcePermissions shared (empty_entry ''devices'' ''d'' 2 False)]\<rparr>\<rparr>"

lemma late_sync_invar:
  "sync_invar (mongo_store mem_perms mem_topics) (mongo_invar mem_perms mem_topics) (mongo_synced mem_perms)
     sample_published Some late_world"
proof -
  have "mongo_synced mem_perms (w_db late_world) = {}"
    by (simp add: late_world_def mongo_synced_def empty_entry_def)
  moreover have "mongo_invar mem_perms mem_topics (w_db late_world)"
    using fresh_sync_invar by (simp add: sync_invar_def mongo_invar_def late_world_def)
  moreover have "st_topics (mongo_store mem_perms mem_topics (w_db late_world)) =
      st_topics (mongo_store mem_perms mem_topics (w_db fresh_world))"
    by (simp add: mongo_store_def late_world_def)
  then have "kafka_unique (mongo_store mem_perms mem_topics (w_db late_world))"
    using fresh_sync_invar unfolding sync_invar_def kafka_unique_def by (simp only:) blast
  moreover have "cache_fits Some (w_producer late_world)"
    using fresh_sync_invar by (simp add: sync_invar_def late_world_def)
  ultimately show ?thesis by (simp add: sync_invar_def in_sync_def)
qed

lemma mem_GetTopic: "\<exists>q. run_state (Mongo_GetTopic (mem_mongo n) i) s = (Inr q, s)"
  by (cases "find (sat topic_field (FDoc [FEq (TopicBson ''Id'') (BStr i)])) (mem_topics s)")
    (simp_all add: Mongo_GetTopic_def mem_mongo_def memory_collection_def del: sat.simps)

lemma mem_nothing_fails: "nothing_fails se_kafka_up mem_controller"
proof -
  have "\<exists>q s'. run_state (GetTopic (ctl_db mem_controller) i) s = (Inr q, s')" for i s
    using mem_GetTopic by (simp add: mongo_db_def) blast
  then show ?thesis by (simp add: nothing_fails_def mem_controller_def sample_controller_def)
qed

lemma late_list:
  "fst (run_state (ListUnsyncedResources (mongo_db (mem_mongo 300000))) (w_db late_world)) =
     Inr [ToResource (setResourcePermissions shared (empty_entry ''devices'' ''d'' 2 False))]"
  by code_simp

theorem retry_publishes_witness:
  "sample_published (w_ext (snd (run_state (RetryPublishOfUnsyncedResources mem_controller) late_world)))
     (''devices'', ''d'') = Some (acl_of shared)"
proof -
  let ?r = "ToResource (setResourcePermissions shared (empty_entry ''devices'' ''d'' 2 False))"
  obtain d where list: "run_state (ListUnsyncedResources (mongo_db (mem_mongo 300000))) (w_db late_world) =
      (Inr [?r], d)"
    using late_list by (metis prod.collapse)
  have "st_topics (mongo_store mem_perms mem_topics (w_db late_world)) (r_topic_id ?r) = Some devices"
    by (simp add: mongo_store_def late_world_def fresh_world_def mem_world_def empty_entry_def devices_def
        device_types_def topic_core_def)
  from retry_publishes [OF mem_sync.publishing_axioms late_sync_invar mem_nothing_fails _ list _ this _
      prod.collapse [symmetric]]
  have "sample_published (w_ext (snd (run_state (RetryPublishOfUnsyncedResources mem_controller) late_world)))
      (t_publish_to_kafka_topic devices, r_id ?r) = Some (acl_of (r_permissions ?r))"
    by (simp add: late_world_def fresh_world_def mem_world_def sample_world_def devices_def publishes_def)
  moreover have "acl_of (r_permissions ?r) = acl_of shared"
    by (simp only: acl_of_ToResource entry_acl_setResourcePermissions)
  ultimately show ?thesis by (simp add: empty_entry_def devices_def)
qed

section \<open>Requests that overlap\<close>

text \<open>
  Where a request stands between two of its calls. \<open>setPermission\<close> stores, publishes and marks;
  \<open>RetryPublishOfUnsyncedResources\<close> lists, and for each resource reads the topic, publishes and marks.
\<close>

datatype activity =
    Storing topic resource
  | Publishing topic resource
  | Marking topic resource
  | Listing
  | Fetching "resource list"
  | Republishing topic resource "resource list"
  | Remarking topic resource "resource list"
  | Finished "error option"

text \<open>One call, and where the request stands after it.\<close>

fun advance :: "('s, 'e, 'p) controller \<Rightarrow> activity \<Rightarrow> (('s, 'e, 'p) world, activity) state" where
  "advance C (Storing topic resource) = do {
     now \<leftarrow> on_ext (time_Now C);
     err \<leftarrow> on_db (SetResource (ctl_db C) resource now (\<not> publishes topic));
     case err of
       Some e \<Rightarrow> ret (Finished (Some e))
     | None \<Rightarrow> if \<not> publishes topic then ret (Finished None) else ret (Publishing topic resource) }"
| "advance C (Publishing topic resource) = do {
     err \<leftarrow> publishPermission C topic (r_id resource) (r_permissions resource);
     case err of
       Some e \<Rightarrow> do {
         _ \<leftarrow> notifyError C (''unable to publish permissions update to '' @
           t_publish_to_kafka_topic topic @ ''; publish will be retried'');
         ret (Finished None) }
     | None \<Rightarrow> ret (Marking topic resource) }"
| "advance C (Marking topic resource) = do {
     err \<leftarrow> on_db (MarkResourceAsSynced (ctl_db C) (t_id topic) (r_id resource));
     ret (Finished err) }"
| "advance C Listing = do {
     r \<leftarrow> on_db (ListUnsyncedResources (ctl_db C));
     case r of Inl err \<Rightarrow> ret (Finished (Some err)) | Inr list \<Rightarrow> ret (Fetching list) }"
| "advance C (Fetching []) = ret (Finished None)"
| "advance C (Fetching (e # es)) = do {
     t \<leftarrow> on_db (GetTopic (ctl_db C) (r_topic_id e));
     case t of
       Inl err \<Rightarrow> ret (Fetching es)
     | Inr None \<Rightarrow> ret (Fetching es)
     | Inr (Some topic) \<Rightarrow> ret (Republishing topic e es) }"
| "advance C (Republishing topic e es) = do {
     err \<leftarrow> publishPermission C topic (r_id e) (r_permissions e);
     case err of Some err \<Rightarrow> ret (Fetching es) | None \<Rightarrow> ret (Remarking topic e es) }"
| "advance C (Remarking topic e es) = do {
     _ \<leftarrow> on_db (MarkResourceAsSynced (ctl_db C) (t_id topic) (r_id e));
     ret (Fetching es) }"
| "advance C (Finished err) = ret (Finished err)"

text \<open>
  Several requests in one world: in each step one of them makes its next call. \<open>run_schedule\<close> follows
  a list of turns.
\<close>

inductive pool_step ::
  "('s, 'e, 'p) controller \<Rightarrow> activity list \<times> ('s, 'e, 'p) world \<Rightarrow> activity list \<times> ('s, 'e, 'p) world \<Rightarrow> bool"
  for C :: "('s, 'e, 'p) controller" where
  turn: "n < length pool \<Longrightarrow> run_state (advance C (pool ! n)) w = (a, w') \<Longrightarrow>
    pool_step C (pool, w) (pool[n := a], w')"

inductive_simps pool_step_pair: "pool_step C (pool, w) (pool', w')"

fun run_schedule ::
  "('s, 'e, 'p) controller \<Rightarrow> nat list \<Rightarrow> activity list \<Rightarrow> ('s, 'e, 'p) world \<Rightarrow>
   activity list \<times> ('s, 'e, 'p) world" where
  "run_schedule C [] pool w = (pool, w)"
| "run_schedule C (n # ns) pool w =
     (if n < length pool
      then let (a, w') = run_state (advance C (pool ! n)) w in run_schedule C ns (pool[n := a]) w'
      else run_schedule C ns pool w)"

lemma run_schedule_steps: "(pool_step C)\<^sup>*\<^sup>* (pool, w) (run_schedule C ns pool w)"
proof (induction ns arbitrary: pool w)
  case (Cons n ns)
  show ?case
  proof (cases "n < length pool")
    case True
    obtain a w' where run: "run_state (advance C (pool ! n)) w = (a, w')" by fastforce
    from converse_rtranclp_into_rtranclp [OF turn [OF True run] Cons.IH] show ?thesis
      by (simp add: True run)
  qed (simp add: Cons.IH)
qed simp

text \<open>A request that is not disturbed does what the function of the controller does.\<close>

lemma run_schedule_one: "run_state (advance C a) w = (b, v) \<Longrightarrow> run_schedule C (0 # ns) [a] w = run_schedule C ns [b] v"
  by simp

lemma run_schedule_finished [simp]: "run_schedule C (replicate n 0) [Finished e] w = ([Finished e], w)"
  by (induction n) simp_all

lemma run_schedule_append:
  "run_schedule C (ns @ ms) pool w = (case run_schedule C ns pool w of (pool', w') \<Rightarrow> run_schedule C ms pool' w')"
  by (induction ns arbitrary: pool w) (auto split: prod.split)

lemma setPermission_alone:
  assumes "run_state (setPermission C topic r) w = (e, w')"
  shows "run_schedule C [0, 0, 0] [Storing topic r] w = ([Finished e], w')"
  using assms by (auto simp: setPermission_def Let_def split: prod.splits option.splits)

lemma retry_resources_alone:
  "run_state (retry_resources C es) w = (u, w') \<Longrightarrow>
   \<exists>n. run_schedule C (replicate n 0) [Fetching es] w = ([Finished None], w')"
proof (induction es arbitrary: w)
  case Nil
  then have "run_schedule C (replicate 1 0) [Fetching []] w = ([Finished None], w')" by simp
  then show ?case by blast
next
  case (Cons e es)
  obtain v where one: "run_state (retry_resource C e) w = ((), v)"
    and rest: "run_state (retry_resources C es) v = (u, w')"
    using Cons.prems by (auto split: prod.splits)
  have "\<exists>k. run_schedule C (replicate k 0) [Fetching (e # es)] w = ([Fetching es], v)"
  proof -
    obtain q w1 where get: "run_state (on_db (GetTopic (ctl_db C) (r_topic_id e))) w = (q, w1)" by fastforce
    show ?thesis
    proof (cases "\<exists>topic. q = Inr (Some topic)")
      case False
      with one get have "run_state (advance C (Fetching (e # es))) w = (Fetching es, v)"
        by (auto simp: retry_resource_def split: sum.splits option.splits)
      then have "run_schedule C (replicate 1 0) [Fetching (e # es)] w = ([Fetching es], v)" by simp
      then show ?thesis by blast
    next
      case True
      then obtain topic where q: "q = Inr (Some topic)" by blast
      obtain err w2 where pub: "run_state (publishPermission C topic (r_id e) (r_permissions e)) w1 = (err, w2)"
        by fastforce
      show ?thesis
      proof (cases err)
        case None
        with one get q pub have "run_schedule C (replicate (Suc (Suc (Suc 0))) 0) [Fetching (e # es)] w = ([Fetching es], v)"
          by (auto simp: retry_resource_def split: prod.splits)
        then show ?thesis by blast
      next
        case (Some x)
        with one get q pub have "run_schedule C (replicate (Suc (Suc 0)) 0) [Fetching (e # es)] w = ([Fetching es], v)"
          by (simp add: retry_resource_def)
        then show ?thesis by blast
      qed
    qed
  qed
  then obtain k where k: "run_schedule C (replicate k 0) [Fetching (e # es)] w = ([Fetching es], v)" ..
  obtain n where "run_schedule C (replicate n 0) [Fetching es] v = ([Finished None], w')"
    using Cons.IH [OF rest] ..
  with k have "run_schedule C (replicate (k + n) 0) [Fetching (e # es)] w = ([Finished None], w')"
    by (simp add: replicate_add run_schedule_append)
  then show ?case by blast
qed

lemma retry_alone:
  assumes "run_state (RetryPublishOfUnsyncedResources C) w = (e, w')"
  shows "\<exists>n. run_schedule C (replicate n 0) [Listing] w = ([Finished e], w')"
proof -
  obtain q w1 where list: "run_state (on_db (ListUnsyncedResources (ctl_db C))) w = (q, w1)" by fastforce
  show ?thesis
  proof (cases q)
    case (Inl err)
    with assms list have "run_schedule C (replicate (Suc 0) 0) [Listing] w = ([Finished e], w')"
      by (simp add: RetryPublishOfUnsyncedResources_def)
    then show ?thesis by blast
  next
    case (Inr l)
    with assms list have run: "run_state (retry_resources C l) w1 = ((), w')" "e = None"
      by (auto simp: RetryPublishOfUnsyncedResources_def split: prod.splits)
    from retry_resources_alone [OF run(1)] obtain n where
      "run_schedule C (replicate n 0) [Fetching l] w1 = ([Finished None], w')" ..
    with list Inr run(2) have "run_schedule C (replicate (Suc n) 0) [Listing] w = ([Finished e], w')"
      by simp
    then show ?thesis by blast
  qed
qed

text \<open>
  Taking the functions apart loses nothing: the steps of a request that nobody disturbs lead to the
  result and the world that \<open>setPermission\<close>, or a round of publishing again, leads to, and every
  schedule of several requests is a sequence of single steps.
\<close>

theorem undisturbed_steps:
  "run_schedule C [0, 0, 0] [Storing topic r] w =
     (case run_state (setPermission C topic r) w of (e, w') \<Rightarrow> ([Finished e], w')) \<and>
   (\<exists>n. run_schedule C (replicate n 0) [Listing] w =
     (case run_state (RetryPublishOfUnsyncedResources C) w of (e, w') \<Rightarrow> ([Finished e], w'))) \<and>
   (pool_step C)\<^sup>*\<^sup>* (pool, w) (run_schedule C ns pool w)"
  using setPermission_alone [of C topic r w] retry_alone [of C w] run_schedule_steps [of C pool w ns]
  by (auto simp del: run_schedule.simps split: prod.split)

text \<open>
  Two requests set the permissions of one resource: the first stores, the second stores and
  publishes, then the first publishes, and both mark the entry.
\<close>

definition race_start :: "activity list" where
  "race_start = [Storing devices (device\<lparr>r_permissions := shared\<rparr>), Storing devices device]"

definition race_end :: "activity list \<times> (mem, sample_ext, string) world" where
  "race_end = run_schedule mem_controller [0, 1, 1, 0, 0, 1] race_start fresh_world"

lemma race_end_facts:
  "fst race_end = [Finished None, Finished None]"
  "mem_perms (w_db (snd race_end)) = [setResourcePermissions (r_permissions device)
     (empty_entry ''devices'' ''d'' 1000 False)\<lparr>pe_synced := True\<rparr>]"
  "se_published (w_ext (snd race_end)) =
     [(''devices'', ''d'', r_permissions device), (''devices'', ''d'', shared)]"
  by code_simp+

lemma marked_unlisted:
  "pe_synced e \<Longrightarrow> \<not> sat entry_field (FDoc [FEq PermissionsEntrySyncedBson (BBool False), g]) e"
  by (simp add: entry_field_def PermissionsEntrySyncedBson_def)

lemma shared_differs: "acl_of shared \<noteq> acl_of (r_permissions device)"
proof
  assume eq: "acl_of shared = acl_of (r_permissions device)"
  have "acl_of shared (User ''bob'') Read \<and> \<not> acl_of (r_permissions device) (User ''bob'') Read"
    by code_simp
  with eq show False by simp
qed

text \<open>
  C21. Overlapping requests may leave an old message: there is an order of the calls of two successful
  requests for one resource after which the database holds what the second wanted, Kafka what the
  first wanted, and the entry is marked as published, so that no later round of the sync loop
  finds it.
\<close>

theorem overlapping_requests_diverge:
  "\<exists>w. (pool_step mem_controller)\<^sup>*\<^sup>* (race_start, fresh_world) ([Finished None, Finished None], w) \<and>
     st_resources (mongo_store mem_perms mem_topics (w_db w)) ''devices'' ''d'' =
       Some (acl_of (r_permissions device)) \<and>
     sample_published (w_ext w) (''devices'', ''d'') = Some (acl_of shared) \<and>
     acl_of shared \<noteq> acl_of (r_permissions device) \<and>
     (\<forall>later. fst (run_state (ListUnsyncedResources (ctl_db mem_controller)) ((w_db w)\<lparr>mem_clock := later\<rparr>)) =
       Inr [])"
proof (intro exI [of _ "snd race_end"] conjI allI)
  show "(pool_step mem_controller)\<^sup>*\<^sup>* (race_start, fresh_world) ([Finished None, Finished None], snd race_end)"
    using run_schedule_steps [of mem_controller race_start fresh_world "[0, 1, 1, 0, 0, 1]"] race_end_facts(1)
    unfolding race_end_def [symmetric] by (metis prod.collapse)
  show "st_resources (mongo_store mem_perms mem_topics (w_db (snd race_end))) ''devices'' ''d'' =
      Some (acl_of (r_permissions device))"
    using entry_set_same(2) [of "(PermissionsEntrySyncedBson, BBool True)"
        "setResourcePermissions (r_permissions device) (empty_entry ''devices'' ''d'' 1000 False)"]
    by (simp add: mongo_store_def race_end_facts pe_key_def entry_set_def PermissionsEntrySyncedBson_def
        entry_acl_setResourcePermissions)
  show "sample_published (w_ext (snd race_end)) (''devices'', ''d'') = Some (acl_of shared)"
    by (simp add: sample_published_def race_end_facts)
  show "acl_of shared \<noteq> acl_of (r_permissions device)" by (rule shared_differs)
  show "fst (run_state (ListUnsyncedResources (ctl_db mem_controller))
      ((w_db (snd race_end))\<lparr>mem_clock := later\<rparr>)) = Inr []" for later
    by (simp add: mongo_db_def Mongo_ListUnsyncedResources_def mem_mongo_def find_all_def memory_collection_def
        race_end_facts marked_unlisted page_def del: sat.simps)
qed

definition late_topic_world :: "(mem, sample_ext, string) world" where
  "late_topic_world = snd (run_state (do {
     _ \<leftarrow> SetPermission mem_controller ''Bearer root'' ''device-types'' ''dt'' (r_permissions device_type);
     _ \<leftarrow> CtlSetTopic mem_controller ''Bearer root'' (device_types\<lparr>t_publish_to_kafka_topic := ''device-types''\<rparr>);
     RetryPublishOfUnsyncedResources mem_controller }) fresh_world)"

text \<open>
  Giving a topic a Kafka topic later does not publish what is already stored: entries written while
  the topic was not published are marked from the start, so the sync loop passes them by and Kafka
  never hears of them.
\<close>

theorem late_kafka_topic_unpublished:
  "map t_publish_to_kafka_topic (filter (\<lambda>t. t_id t = ''device-types'') (mem_topics (w_db late_topic_world))) =
     [''device-types''] \<and>
   map (\<lambda>e. (pe_id e, pe_synced e)) (mem_perms (w_db late_topic_world)) = [(''dt'', True)] \<and>
   se_published (w_ext late_topic_world) = []"
  by code_simp

end
