(* ===== verification/Json.thy ===== *)
theory Json
  imports Model
begin

text \<open>
  The part of \<open>encoding/json\<close> the API and its client use, and the JSON form of the types of
  \<open>pkg/model\<close> as their tags define it. A body is the JSON value it encodes or other text; the
  concrete syntax of JSON is not modelled. Strings are made valid UTF-8 on the way out, maps are
  written in the order of their keys, unknown members are skipped, and \<open>null\<close> leaves a value as it
  is. The last section shows that reading what was written gives the value back.
\<close>

section \<open>Values and bodies\<close>

datatype json =
    JNull
  | JBool bool
  | JNum int
  | JFloat string
  | JStr string
  | JArr "json list"
  | JObj "(string \<times> json) list"

datatype body = Json json | Raw string

definition type_error :: "error + 'a" where
  "type_error = Inl (ErrLib ''json: cannot unmarshal value'')"

definition json_string :: "string \<Rightarrow> string" where
  "json_string s = string_of_runes (runes s)"

section \<open>Reading and writing Go values\<close>

text \<open>A reader gets the value that is there already: \<open>null\<close> does not change it.\<close>

type_synonym 'a reader = "json \<Rightarrow> 'a \<Rightarrow> error + 'a"

definition read_bool :: "bool reader" where
  "read_bool v b = (case v of JNull \<Rightarrow> Inr b | JBool c \<Rightarrow> Inr c | _ \<Rightarrow> type_error)"

definition read_int :: "int reader" where
  "read_int v i =
     (case v of JNull \<Rightarrow> Inr i | JNum n \<Rightarrow> if int64 n then Inr n else type_error | _ \<Rightarrow> type_error)"

definition read_string :: "string reader" where
  "read_string v s = (case v of JNull \<Rightarrow> Inr s | JStr t \<Rightarrow> Inr t | _ \<Rightarrow> type_error)"

fun read_elements :: "'a reader \<Rightarrow> 'a \<Rightarrow> json list \<Rightarrow> error + 'a list" where
  "read_elements rd zero [] = Inr []"
| "read_elements rd zero (v # vs) =
     (case rd v zero of
        Inl e \<Rightarrow> Inl e
      | Inr x \<Rightarrow> (case read_elements rd zero vs of Inl e \<Rightarrow> Inl e | Inr xs \<Rightarrow> Inr (x # xs)))"

text \<open>A slice is replaced; the nil slice and the empty one are the same list.\<close>

definition read_list :: "'a reader \<Rightarrow> 'a \<Rightarrow> 'a list reader" where
  "read_list rd zero v xs =
     (case v of JNull \<Rightarrow> Inr [] | JArr vs \<Rightarrow> read_elements rd zero vs | _ \<Rightarrow> type_error)"

text \<open>Where the difference matters, a slice is an option and the nil slice \<open>None\<close>.\<close>

definition read_slice :: "'a reader \<Rightarrow> 'a \<Rightarrow> 'a list option reader" where
  "read_slice rd zero v xs =
     (case v of
        JNull \<Rightarrow> Inr None
      | JArr vs \<Rightarrow> (case read_elements rd zero vs of Inl e \<Rightarrow> Inl e | Inr l \<Rightarrow> Inr (Some l))
      | _ \<Rightarrow> type_error)"

fun read_entries :: "'a reader \<Rightarrow> 'a \<Rightarrow> (string \<times> json) list \<Rightarrow> 'a gomap \<Rightarrow> error + 'a gomap" where
  "read_entries rd zero [] m = Inr m"
| "read_entries rd zero ((k, v) # ms) m =
     (case rd v zero of Inl e \<Rightarrow> Inl e | Inr x \<Rightarrow> read_entries rd zero ms (m_put k x m))"

definition read_map :: "'a reader \<Rightarrow> 'a \<Rightarrow> 'a gomap reader" where
  "read_map rd zero v m =
     (case v of JNull \<Rightarrow> Inr None | JObj ms \<Rightarrow> read_entries rd zero ms (m_nonnil m) | _ \<Rightarrow> type_error)"

text \<open>
  A field of a struct: its name and what a member with that name does to the struct. A member
  belongs to the field of exactly its name, or else to one whose name differs in case only.
\<close>

type_synonym 'r json_field = "string \<times> 'r reader"

definition in_field :: "'a reader \<Rightarrow> ('r \<Rightarrow> 'a) \<Rightarrow> ('a \<Rightarrow> 'r \<Rightarrow> 'r) \<Rightarrow> 'r reader" where
  "in_field rd get put v r = (case rd v (get r) of Inl e \<Rightarrow> Inl e | Inr x \<Rightarrow> Inr (put x r))"

definition lower :: "char \<Rightarrow> char" where
  "lower c = (let n = of_char c in if 65 \<le> n \<and> n \<le> 90 then byte (n + 32) else c)"

definition find_field :: "'r json_field list \<Rightarrow> string \<Rightarrow> 'r reader option" where
  "find_field fs k =
     (case map_of fs k of
        Some rd \<Rightarrow> Some rd
      | None \<Rightarrow> map_option snd (find (\<lambda>f. map lower (fst f) = map lower k) fs))"

fun read_members :: "'r json_field list \<Rightarrow> (string \<times> json) list \<Rightarrow> 'r \<Rightarrow> error + 'r" where
  "read_members fs [] r = Inr r"
| "read_members fs ((k, v) # ms) r =
     (case find_field fs k of
        None \<Rightarrow> read_members fs ms r
      | Some rd \<Rightarrow> (case rd v r of Inl e \<Rightarrow> Inl e | Inr r' \<Rightarrow> read_members fs ms r'))"

definition read_struct :: "'r json_field list \<Rightarrow> 'r reader" where
  "read_struct fs v r =
     (case v of JNull \<Rightarrow> Inr r | JObj ms \<Rightarrow> read_members fs ms r | _ \<Rightarrow> type_error)"

definition json_list :: "('a \<Rightarrow> json) \<Rightarrow> 'a list \<Rightarrow> json" where
  "json_list enc xs = JArr (map enc xs)"

definition json_slice :: "('a \<Rightarrow> json) \<Rightarrow> 'a list option \<Rightarrow> json" where
  "json_slice enc xs = (case xs of None \<Rightarrow> JNull | Some l \<Rightarrow> json_list enc l)"

definition json_map :: "('a \<Rightarrow> json) \<Rightarrow> 'a gomap \<Rightarrow> json" where
  "json_map enc m =
     (case m of
        None \<Rightarrow> JNull
      | Some a \<Rightarrow> JObj (map (\<lambda>(k, v). (json_string k, enc v)) (sort_key fst (DAList.impl_of a))))"

text \<open>\<open>json.NewDecoder(body).Decode(&x)\<close>\<close>

definition Decode :: "'a reader \<Rightarrow> body \<Rightarrow> 'a \<Rightarrow> error + 'a" where
  "Decode rd b x =
     (case b of
        Json v \<Rightarrow> rd v x
      | Raw s \<Rightarrow> Inl (ErrLib (if s = [] then ''EOF'' else ''invalid character'')))"

section \<open>The types of the model\<close>

definition permissions_map_fields :: "permissions_map json_field list" where
  "permissions_map_fields =
     [(''read'', in_field read_bool pm_read (\<lambda>b p. p\<lparr>pm_read := b\<rparr>)),
      (''write'', in_field read_bool pm_write (\<lambda>b p. p\<lparr>pm_write := b\<rparr>)),
      (''execute'', in_field read_bool pm_execute (\<lambda>b p. p\<lparr>pm_execute := b\<rparr>)),
      (''administrate'', in_field read_bool pm_administrate (\<lambda>b p. p\<lparr>pm_administrate := b\<rparr>))]"

definition permissions_map_members :: "permissions_map \<Rightarrow> (string \<times> json) list" where
  "permissions_map_members p =
     [(''read'', JBool (pm_read p)), (''write'', JBool (pm_write p)),
      (''execute'', JBool (pm_execute p)), (''administrate'', JBool (pm_administrate p))]"

definition read_permissions_map :: "permissions_map gomap reader" where
  "read_permissions_map = read_map (read_struct permissions_map_fields) no_permissions"

definition json_permissions_map :: "permissions_map gomap \<Rightarrow> json" where
  "json_permissions_map = json_map (\<lambda>p. JObj (permissions_map_members p))"

definition resource_permissions_fields :: "resource_permissions json_field list" where
  "resource_permissions_fields =
     [(''user_permissions'', in_field read_permissions_map rp_user (\<lambda>m p. p\<lparr>rp_user := m\<rparr>)),
      (''group_permissions'', in_field read_permissions_map rp_group (\<lambda>m p. p\<lparr>rp_group := m\<rparr>)),
      (''role_permissions'', in_field read_permissions_map rp_role (\<lambda>m p. p\<lparr>rp_role := m\<rparr>))]"

definition resource_permissions_members :: "resource_permissions \<Rightarrow> (string \<times> json) list" where
  "resource_permissions_members p =
     [(''user_permissions'', json_permissions_map (rp_user p)),
      (''group_permissions'', json_permissions_map (rp_group p)),
      (''role_permissions'', json_permissions_map (rp_role p))]"

definition read_resource_permissions :: "resource_permissions reader" where
  "read_resource_permissions = read_struct resource_permissions_fields"

definition json_resource_permissions :: "resource_permissions \<Rightarrow> json" where
  "json_resource_permissions p = JObj (resource_permissions_members p)"

text \<open>The fields of an embedded struct are fields of the struct around it.\<close>

definition resource_fields :: "resource json_field list" where
  "resource_fields =
     [(''id'', in_field read_string r_id (\<lambda>s r. r\<lparr>r_id := s\<rparr>)),
      (''topic_id'', in_field read_string r_topic_id (\<lambda>s r. r\<lparr>r_topic_id := s\<rparr>))] @
     map (\<lambda>(n, rd). (n, in_field rd r_permissions (\<lambda>p r. r\<lparr>r_permissions := p\<rparr>)))
       resource_permissions_fields"

definition json_resource :: "resource \<Rightarrow> json" where
  "json_resource r =
     JObj ([(''id'', JStr (json_string (r_id r))), (''topic_id'', JStr (json_string (r_topic_id r)))] @
       resource_permissions_members (r_permissions r))"

definition no_resource :: resource where
  "no_resource = \<lparr>r_id = [], r_topic_id = [], r_permissions = nil_permissions\<rparr>"

definition computed_fields :: "computed_permissions json_field list" where
  "computed_fields =
     (''id'', in_field read_string cp_id (\<lambda>s c. c\<lparr>cp_id := s\<rparr>)) #
     map (\<lambda>(n, rd). (n, in_field rd cp_permissions (\<lambda>p c. c\<lparr>cp_permissions := p\<rparr>)))
       permissions_map_fields"

definition json_computed :: "computed_permissions \<Rightarrow> json" where
  "json_computed c =
     JObj ((''id'', JStr (json_string (cp_id c))) # permissions_map_members (cp_permissions c))"

definition topic_fields :: "topic json_field list" where
  "topic_fields =
     [(''id'', in_field read_string t_id (\<lambda>s t. t\<lparr>t_id := s\<rparr>)),
      (''publish_to_kafka_topic'', in_field read_string t_publish_to_kafka_topic
         (\<lambda>s t. t\<lparr>t_publish_to_kafka_topic := s\<rparr>)),
      (''ensure_kafka_topic_init'', in_field read_bool t_ensure_kafka_topic_init
         (\<lambda>b t. t\<lparr>t_ensure_kafka_topic_init := b\<rparr>)),
      (''ensure_kafka_topic_init_partition_number'',
         in_field read_int t_ensure_kafka_topic_init_partition_number
           (\<lambda>i t. t\<lparr>t_ensure_kafka_topic_init_partition_number := i\<rparr>)),
      (''last_update_unix_timestamp'', in_field read_int t_last_update_unix_timestamp
         (\<lambda>i t. t\<lparr>t_last_update_unix_timestamp := i\<rparr>)),
      (''default_permissions'', in_field read_resource_permissions t_default_permissions
         (\<lambda>p t. t\<lparr>t_default_permissions := p\<rparr>))]"

definition json_topic :: "topic \<Rightarrow> json" where
  "json_topic t =
     JObj [(''id'', JStr (json_string (t_id t))),
       (''publish_to_kafka_topic'', JStr (json_string (t_publish_to_kafka_topic t))),
       (''ensure_kafka_topic_init'', JBool (t_ensure_kafka_topic_init t)),
       (''ensure_kafka_topic_init_partition_number'',
          JNum (t_ensure_kafka_topic_init_partition_number t)),
       (''last_update_unix_timestamp'', JNum (t_last_update_unix_timestamp t)),
       (''default_permissions'', json_resource_permissions (t_default_permissions t))]"

definition no_topic :: topic where
  "no_topic = \<lparr>t_id = [], t_publish_to_kafka_topic = [], t_ensure_kafka_topic_init = False,
     t_ensure_kafka_topic_init_partition_number = 0, t_last_update_unix_timestamp = 0,
     t_default_permissions = nil_permissions\<rparr>"

definition import_export_fields :: "import_export json_field list" where
  "import_export_fields =
     [(''topics'', in_field (read_list (read_struct topic_fields) no_topic) ie_topics
         (\<lambda>l d. d\<lparr>ie_topics := l\<rparr>)),
      (''permissions'', in_field (read_list (read_struct resource_fields) no_resource) ie_permissions
         (\<lambda>l d. d\<lparr>ie_permissions := l\<rparr>))]"

text \<open>Empty lists are left out.\<close>

definition json_import_export :: "import_export \<Rightarrow> json" where
  "json_import_export d =
     JObj ((if ie_topics d = [] then [] else [(''topics'', json_list json_topic (ie_topics d))]) @
       (if ie_permissions d = [] then []
        else [(''permissions'', json_list json_resource (ie_permissions d))]))"

definition no_import_export :: import_export where
  "no_import_export = \<lparr>ie_topics = [], ie_permissions = []\<rparr>"

definition load_request_fields :: "admin_load_request json_field list" where
  "load_request_fields =
     [(''permission_search_url'', in_field read_string lr_permission_search_url
         (\<lambda>s r. r\<lparr>lr_permission_search_url := s\<rparr>)),
      (''token'', in_field read_string lr_token (\<lambda>s r. r\<lparr>lr_token := s\<rparr>)),
      (''topic_id'', in_field read_string lr_topic_id (\<lambda>s r. r\<lparr>lr_topic_id := s\<rparr>)),
      (''overwrite_existing'', in_field read_bool lr_overwrite_existing
         (\<lambda>b r. r\<lparr>lr_overwrite_existing := b\<rparr>)),
      (''dry_run'', in_field read_bool lr_dry_run (\<lambda>b r. r\<lparr>lr_dry_run := b\<rparr>))]"

definition no_load_request :: admin_load_request where
  "no_load_request = \<lparr>lr_permission_search_url = [], lr_token = [], lr_topic_id = [],
     lr_overwrite_existing = False, lr_dry_run = False\<rparr>"


section \<open>Reading what was written\<close>

definition valid_text :: "string \<Rightarrow> bool" where
  "valid_text s \<longleftrightarrow> json_string s = s"

definition valid_keys :: "'v gomap \<Rightarrow> bool" where
  "valid_keys m \<longleftrightarrow> (\<forall>(k, v) \<in> set (m_entries m). valid_text k)"

definition valid_permissions :: "resource_permissions \<Rightarrow> bool" where
  "valid_permissions p \<longleftrightarrow>
     valid_keys (rp_user p) \<and> valid_keys (rp_group p) \<and> valid_keys (rp_role p)"

lemma read_written_bool [simp]: "read_bool (JBool b) c = Inr b"
  by (simp add: read_bool_def)

lemma read_written_string: "valid_text s \<Longrightarrow> read_string (JStr (json_string s)) t = Inr s"
  by (simp add: read_string_def valid_text_def)

lemma read_elements_written:
  "(\<And>x. x \<in> set xs \<Longrightarrow> rd (enc x) zero = Inr x) \<Longrightarrow> read_elements rd zero (map enc xs) = Inr xs"
  by (induction xs) simp_all

lemma read_written_list:
  "(\<And>x. x \<in> set xs \<Longrightarrow> rd (enc x) zero = Inr x) \<Longrightarrow> read_list rd zero (json_list enc xs) ys = Inr xs"
  by (simp add: read_list_def json_list_def read_elements_written)

lemma read_entries_written:
  assumes "\<And>k v. (k, v) \<in> set kvs \<Longrightarrow> valid_text k \<and> rd (enc v) zero = Inr v"
    and "distinct (map fst kvs)"
  shows "\<exists>b. read_entries rd zero (map (\<lambda>(k, v). (json_string k, enc v)) kvs) (Some a) = Inr (Some b) \<and>
     DAList.lookup b = DAList.lookup a ++ map_of kvs"
  using assms
proof (induction kvs arbitrary: a)
  case (Cons kv kvs)
  obtain k v where kv: "kv = (k, v)" by (cases kv)
  obtain b where "read_entries rd zero (map (\<lambda>(k, v). (json_string k, enc v)) kvs) (Some (DAList.update k v a)) =
      Inr (Some b)" and b: "DAList.lookup b = DAList.lookup (DAList.update k v a) ++ map_of kvs"
    using Cons.IH [of "DAList.update k v a"] Cons.prems by auto
  then have "read_entries rd zero (map (\<lambda>(k, v). (json_string k, enc v)) (kv # kvs)) (Some a) = Inr (Some b)"
    using Cons.prems(1) [of k v] by (simp add: kv valid_text_def m_put_def)
  moreover have "map_of kvs k = None" using Cons.prems(2) by (simp add: kv map_of_eq_None_iff)
  then have "DAList.lookup b = DAList.lookup a ++ map_of (kv # kvs)"
    by (auto simp: b kv lookup_update fun_eq_iff map_add_def split: option.split)
  ultimately show ?case by blast
qed simp

lemma map_of_sort_key_fst:
  assumes "distinct (map fst xs)" shows "map_of (sort_key fst xs) = map_of xs"
proof -
  have "distinct (map fst (sort_key fst xs))"
    using assms by (simp add: distinct_map distinct_sort)
  then show ?thesis using assms by (simp add: map_of_inject_set)
qed

lemma read_written_map:
  assumes "valid_keys m" "\<And>v. rd (enc v) zero = Inr v"
  shows "\<exists>n. read_map rd zero (json_map enc m) None = Inr n \<and> m_deep_equal n m"
proof (cases m)
  case (Some a)
  let ?kvs = "sort_key fst (DAList.impl_of a)"
  have "valid_text k \<and> rd (enc v) zero = Inr v" if "(k, v) \<in> set ?kvs" for k v
    using assms that by (auto simp: valid_keys_def m_entries_def Some)
  moreover have dist: "distinct (map fst (DAList.impl_of a))" by simp
  moreover from dist have "distinct (map fst ?kvs)" by (simp add: distinct_map distinct_sort)
  ultimately obtain b where
    "read_entries rd zero (map (\<lambda>(k, v). (json_string k, enc v)) ?kvs) (Some DAList.empty) = Inr (Some b)"
    and "DAList.lookup b = DAList.lookup DAList.empty ++ map_of ?kvs"
    using read_entries_written [of ?kvs rd enc zero DAList.empty] by blast
  moreover have "map_of ?kvs = DAList.lookup a"
    using map_of_sort_key_fst [OF dist] by (simp add: DAList.lookup.rep_eq)
  ultimately show ?thesis
    by (intro exI [of _ "Some b"])
      (auto simp: Some read_map_def json_map_def m_nonnil_def m_empty_def m_deep_equal_Some
        map_add_def fun_eq_iff split: option.split)
qed (simp add: read_map_def json_map_def m_deep_equal_def)

lemma find_field_exact [simp]: "map_of fs k = Some rd \<Longrightarrow> find_field fs k = Some rd"
  by (simp add: find_field_def)

lemma read_written_permissions_map [simp]:
  "read_struct permissions_map_fields (JObj (permissions_map_members p)) no_permissions = Inr p"
  by (simp add: read_struct_def permissions_map_fields_def permissions_map_members_def in_field_def
      no_permissions_def)

lemma read_written_permissions:
  assumes "valid_permissions p"
  shows "\<exists>q. read_resource_permissions (json_resource_permissions p) nil_permissions = Inr q \<and>
     deep_equal_permissions q p"
proof -
  have each: "\<exists>n. read_permissions_map (json_permissions_map m) None = Inr n \<and> m_deep_equal n m"
    if "valid_keys m" for m
    using that unfolding read_permissions_map_def json_permissions_map_def
    by (intro read_written_map) simp_all
  have keys: "valid_keys (rp_user p)" "valid_keys (rp_group p)" "valid_keys (rp_role p)"
    using assms by (simp_all add: valid_permissions_def)
  from each [OF keys(1)] obtain u
    where u: "read_permissions_map (json_permissions_map (rp_user p)) None = Inr u" "m_deep_equal u (rp_user p)"
    by (elim exE conjE)
  from each [OF keys(2)] obtain g
    where g: "read_permissions_map (json_permissions_map (rp_group p)) None = Inr g" "m_deep_equal g (rp_group p)"
    by (elim exE conjE)
  from each [OF keys(3)] obtain r
    where r: "read_permissions_map (json_permissions_map (rp_role p)) None = Inr r" "m_deep_equal r (rp_role p)"
    by (elim exE conjE)
  have "read_resource_permissions (json_resource_permissions p) nil_permissions =
      Inr \<lparr>rp_user = u, rp_group = g, rp_role = r\<rparr>"
    by (simp add: read_resource_permissions_def json_resource_permissions_def read_struct_def
        resource_permissions_fields_def resource_permissions_members_def in_field_def nil_permissions_def
        u g r)
  moreover have "deep_equal_permissions \<lparr>rp_user = u, rp_group = g, rp_role = r\<rparr> p"
    by (simp add: deep_equal_permissions_def u g r)
  ultimately show ?thesis by blast
qed

end
