(* ===== verification/Http.thy ===== *)
theory Http
  imports Json
begin

text \<open>
  The part of \<open>net/http\<close> and \<open>net/url\<close> the API and its client use: URLs with their escaped paths,
  requests, what a handler does to the response writer, the patterns and the matching of
  \<open>http.ServeMux\<close> with its redirects to cleaned paths, and the redirects the default client follows.
  A handler yields what it does to the writer and the new state of the service; \<open>None\<close> is a request
  that is never answered. The guessing of content types and statuses at which \<open>net/http\<close> panics are
  left out.
\<close>

section \<open>Paths\<close>

definition path_char :: "char \<Rightarrow> bool" where
  "path_char c \<longleftrightarrow> unreserved c \<or> c \<in> set ''$&+,/:;=@''"

text \<open>\<open>escape(s, encodePath)\<close> and \<open>validEncoded(s, encodePath)\<close>\<close>

definition escape_path :: "string \<Rightarrow> string" where
  "escape_path s = concat (map (\<lambda>c. if path_char c then [c] else percent c) s)"

definition valid_encoded :: "string \<Rightarrow> bool" where
  "valid_encoded s \<longleftrightarrow> list_all (\<lambda>c. path_char c \<or> c \<in> set ''!()*[]%'' \<or> c = byte 39) s"

fun PathUnescape :: "string \<Rightarrow> string option" where
  "PathUnescape [] = Some []"
| "PathUnescape (c # cs) =
     (if c = CHR ''%'' then
        (case cs of
           a # b # r \<Rightarrow>
             (case (unhex a, unhex b) of
                (Some x, Some y) \<Rightarrow> map_option (Cons (byte (16 * x + y))) (PathUnescape r)
              | _ \<Rightarrow> None)
         | _ \<Rightarrow> None)
      else map_option (Cons c) (PathUnescape cs))"

record url =
  u_path :: string
  u_raw_path :: string
  u_raw_query :: string

definition Query :: "url \<Rightarrow> url_values" where
  "Query u = fst (ParseQuery (u_raw_query u))"

definition EscapedPath :: "url \<Rightarrow> string" where
  "EscapedPath u =
     (if u_raw_path u \<noteq> [] \<and> valid_encoded (u_raw_path u) \<and> PathUnescape (u_raw_path u) = Some (u_path u)
      then u_raw_path u
      else if u_path u = ''*'' then ''*'' else escape_path (u_path u))"

text \<open>The URL of a path and a query, as \<open>url.ParseRequestURI\<close> makes it.\<close>

definition make_url :: "string \<Rightarrow> string \<Rightarrow> error + url" where
  "make_url p q =
     (case PathUnescape p of
        None \<Rightarrow> Inl (ErrLib ''invalid URL escape'')
      | Some path \<Rightarrow>
          Inr \<lparr>u_path = path, u_raw_path = (if escape_path path = p then [] else p), u_raw_query = q\<rparr>)"

text \<open>
  The part after scheme and host that \<open>url.Parse\<close> is given: no control characters, the fragment cut
  off, then the query.
\<close>

definition parse_url :: "string \<Rightarrow> error + url" where
  "parse_url s =
     (if list_ex (\<lambda>c. (of_char c :: int) < 32 \<or> (of_char c :: int) = 127) s
      then Inl (ErrLib ''net/url: invalid control character in URL'')
      else
        let (s, frag) = (case Cut s ''#'' of None \<Rightarrow> (s, []) | Some x \<Rightarrow> x);
            (p, q) = (case Cut s ''?'' of None \<Rightarrow> (s, []) | Some x \<Rightarrow> x)
        in if PathUnescape frag = None then Inl (ErrLib ''invalid URL escape'') else make_url p q)"

definition request_uri :: "url \<Rightarrow> string" where
  "request_uri u =
     (let p = EscapedPath u in if p = [] then ''/'' else p) @
     (if u_raw_query u = [] then [] else ''?'' @ u_raw_query u)"

text \<open>\<open>path.Clean\<close> for a rooted path, and the cleaning done by the multiplexer.\<close>

fun clean_segments :: "string list \<Rightarrow> string list \<Rightarrow> string list" where
  "clean_segments kept [] = rev kept"
| "clean_segments kept (s # ss) =
     (if s = [] \<or> s = ''.'' then clean_segments kept ss
      else if s = ''..'' then clean_segments (tl kept) ss
      else clean_segments (s # kept) ss)"

definition path_Clean :: "string \<Rightarrow> string" where
  "path_Clean p = ''/'' @ Join (clean_segments [] (Split p ''/'')) ''/''"

definition cleanPath :: "string \<Rightarrow> string" where
  "cleanPath p =
     (if p = [] then ''/''
      else
        let p = (if hd p \<noteq> CHR ''/'' then ''/'' @ p else p); np = path_Clean p
        in if last p = CHR ''/'' \<and> np \<noteq> ''/'' then np @ ''/'' else np)"

section \<open>Requests and responses\<close>

text \<open>\<open>http.Header\<close> is the same map of lists as \<open>url.Values\<close>; all names used are canonical.\<close>

type_synonym headers = url_values

record request =
  rq_method :: string
  rq_url :: url
  rq_uri :: string
  rq_header :: headers
  rq_body :: body
  rq_path_values :: "(string \<times> string) list"

definition PathValue :: "request \<Rightarrow> string \<Rightarrow> string" where
  "PathValue r name = (case map_of (rq_path_values r) name of None \<Rightarrow> [] | Some v \<Rightarrow> v)"

text \<open>A writer: the headers, the status and headers that were sent, the bodies that were written.\<close>

record writer =
  wr_header :: headers
  wr_sent :: "(int \<times> headers) option"
  wr_body :: "body list"

definition fresh_writer :: writer where
  "fresh_writer = \<lparr>wr_header = DAList.empty, wr_sent = None, wr_body = []\<rparr>"

definition Header_Set :: "string \<Rightarrow> string \<Rightarrow> writer \<Rightarrow> writer" where
  "Header_Set k v w = w\<lparr>wr_header := Set_value k v (wr_header w)\<rparr>"

definition Header_Add :: "string \<Rightarrow> string \<Rightarrow> writer \<Rightarrow> writer" where
  "Header_Add k v w = w\<lparr>wr_header := Add k v (wr_header w)\<rparr>"

text \<open>The first status counts, and with it the headers at that moment.\<close>

definition WriteHeader :: "int \<Rightarrow> writer \<Rightarrow> writer" where
  "WriteHeader code w =
     (case wr_sent w of None \<Rightarrow> w\<lparr>wr_sent := Some (code, wr_header w)\<rparr> | Some _ \<Rightarrow> w)"

definition Write_body :: "body \<Rightarrow> writer \<Rightarrow> writer" where
  "Write_body b w = (let w = WriteHeader 200 w in w\<lparr>wr_body := wr_body w @ [b]\<rparr>)"

definition newline :: string where
  "newline = [byte 10]"

definition http_Error :: "string \<Rightarrow> int \<Rightarrow> writer \<Rightarrow> writer" where
  "http_Error msg code w =
     Write_body (Raw (msg @ newline))
       (WriteHeader code
         (Header_Set ''X-Content-Type-Options'' ''nosniff''
           (Header_Set ''Content-Type'' ''text/plain; charset=utf-8'' w)))"

record response =
  rs_status :: int
  rs_header :: headers
  rs_body :: body

text \<open>What is sent: 200 where nothing was written. A reader of the body sees what was written first.\<close>

definition response_of :: "writer \<Rightarrow> response" where
  "response_of w =
     (case wr_sent w of
        None \<Rightarrow> \<lparr>rs_status = 200, rs_header = wr_header w, rs_body = Raw []\<rparr>
      | Some (code, h) \<Rightarrow>
          \<lparr>rs_status = code, rs_header = h,
           rs_body = (case wr_body w of [] \<Rightarrow> Raw [] | b # _ \<Rightarrow> b)\<rparr>)"

type_synonym 'w handler = "request \<Rightarrow> 'w \<Rightarrow> ((writer \<Rightarrow> writer) \<times> 'w) option"

text \<open>The answer of a handler as a server sends it: no body for \<open>HEAD\<close>.\<close>

definition serve :: "'w handler \<Rightarrow> request \<Rightarrow> 'w \<Rightarrow> (response \<times> 'w) option" where
  "serve h r w =
     (case h r w of
        None \<Rightarrow> None
      | Some (f, w') \<Rightarrow>
          let resp = response_of (f fresh_writer)
          in Some (if rq_method r = ''HEAD'' then resp\<lparr>rs_body := Raw []\<rparr> else resp, w'))"

section \<open>ServeMux\<close>

datatype seg = Lit string | Wild string | Multi

text \<open>A pattern \<open>METHOD /path\<close>: a segment in braces matches any segment, a final slash the rest.\<close>

fun pattern_segments :: "string list \<Rightarrow> seg list" where
  "pattern_segments [] = []"
| "pattern_segments (s # ss) =
     (if s = [] then [Multi]
      else if hd s = CHR ''{'' then Wild (butlast (tl s)) # pattern_segments ss
      else Lit s # pattern_segments ss)"

definition parse_pattern :: "string \<Rightarrow> string \<times> seg list" where
  "parse_pattern p =
     (case Cut p '' '' of
        None \<Rightarrow> ([], pattern_segments (tl (Split p ''/'')))
      | Some (method, path) \<Rightarrow> (method, pattern_segments (tl (Split path ''/''))))"

definition wild_names :: "seg list \<Rightarrow> string list" where
  "wild_names segs = concat (map (\<lambda>s. case s of Wild n \<Rightarrow> [n] | _ \<Rightarrow> []) segs)"

text \<open>The segments of a path, unescaped where possible; a final slash is a segment of its own.\<close>

fun first_segments :: "string list \<Rightarrow> string list" where
  "first_segments [] = []"
| "first_segments (s # ss) =
     (if s = [] \<and> ss = [] then [''/'']
      else (case PathUnescape s of None \<Rightarrow> s | Some t \<Rightarrow> t) # first_segments ss)"

definition path_segments :: "string \<Rightarrow> string list" where
  "path_segments p = first_segments (tl (Split p ''/''))"

text \<open>
  The search in the tree of patterns: what is left of the patterns that match so far, the segments
  of the path still to match, the matches of wildcards. Literals go before wildcards, these before
  a final slash.
\<close>

type_synonym 'h routes = "(seg list \<times> 'h) list"

definition literal_child :: "string \<Rightarrow> 'h routes \<Rightarrow> 'h routes" where
  "literal_child s rs =
     concat (map (\<lambda>(p, h). case p of Lit l # q \<Rightarrow> if l = s then [(q, h)] else [] | _ \<Rightarrow> []) rs)"

definition wild_child :: "'h routes \<Rightarrow> 'h routes" where
  "wild_child rs = concat (map (\<lambda>(p, h). case p of Wild n # q \<Rightarrow> [(q, h)] | _ \<Rightarrow> []) rs)"

definition multi_child :: "'h routes \<Rightarrow> 'h option" where
  "multi_child rs = map_option snd (find (\<lambda>(p, h). p = [Multi]) rs)"

definition leaf :: "'h routes \<Rightarrow> 'h option" where
  "leaf rs = map_option snd (find (\<lambda>(p, h). p = []) rs)"

fun match_path :: "'h routes \<Rightarrow> string list \<Rightarrow> string list \<Rightarrow> ('h \<times> string list) option" where
  "match_path rs [] matches = map_option (\<lambda>h. (h, matches)) (leaf rs)"
| "match_path rs (s # ss) matches =
     (if rs = [] then None
      else
        case match_path (literal_child s rs) ss matches of
          Some r \<Rightarrow> Some r
        | None \<Rightarrow>
            (case (if s \<noteq> ''/'' then match_path (wild_child rs) ss (matches @ [s]) else None) of
               Some r \<Rightarrow> Some r
             | None \<Rightarrow> map_option (\<lambda>h. (h, matches)) (multi_child rs)))"

type_synonym 'w mux = "(string \<times> 'w handler) list"

text \<open>The registered patterns of a method, each handler with the names of its wildcards.\<close>

definition method_routes :: "'w mux \<Rightarrow> string \<Rightarrow> (string list \<times> 'w handler) routes" where
  "method_routes mux m =
     concat (map (\<lambda>(p, h). let (method, segs) = parse_pattern p
       in if method = m then [(segs, (wild_names segs, h))] else []) mux)"

definition match_method ::
  "'w mux \<Rightarrow> string \<Rightarrow> string \<Rightarrow> ((string list \<times> 'w handler) \<times> string list) option" where
  "match_method mux m p =
     (case match_path (method_routes mux m) (path_segments p) [] of
        Some r \<Rightarrow> Some r
      | None \<Rightarrow>
          if m = ''HEAD'' then match_path (method_routes mux ''GET'') (path_segments p) [] else None)"

definition mux_methods :: "'w mux \<Rightarrow> string list" where
  "mux_methods mux = remdups (map (\<lambda>(p, h). fst (parse_pattern p)) mux)"

definition matching_methods :: "'w mux \<Rightarrow> string \<Rightarrow> string list" where
  "matching_methods mux p =
     (let ms = filter (\<lambda>m. match_path (method_routes mux m) (path_segments p) [] \<noteq> None \<or>
            (last p \<noteq> CHR ''/'' \<and> match_path (method_routes mux m) (path_segments (p @ ''/'')) [] \<noteq> None))
          (mux_methods mux)
      in sort (remdups (ms @ (if ''GET'' \<in> set ms then [''HEAD''] else []))))"

definition redirect :: "string \<Rightarrow> int \<Rightarrow> writer \<Rightarrow> writer" where
  "redirect location code w =
     Write_body (Raw ''Moved Permanently'') (WriteHeader code (Header_Set ''Location'' location w))"

text \<open>
  A path that is not clean is redirected to its clean form; \<open>url.URL\<close> escapes the escaped path once
  more. No pattern but the one for the root ends in a slash, so there is no other redirect.
\<close>

definition ServeMux :: "'w mux \<Rightarrow> 'w handler" where
  "ServeMux mux r w =
     (let escapedPath = EscapedPath (rq_url r); path = cleanPath escapedPath in
      if path \<noteq> escapedPath
      then Some (redirect (escape_path path @
             (if u_raw_query (rq_url r) = [] then [] else ''?'' @ u_raw_query (rq_url r))) 301, w)
      else case match_method mux (rq_method r) path of
             Some ((names, h), matches) \<Rightarrow> h (r\<lparr>rq_path_values := zip names matches\<rparr>) w
           | None \<Rightarrow>
               (case matching_methods mux path of
                  [] \<Rightarrow> Some (http_Error ''404 page not found'' 404, w)
                | allowed \<Rightarrow> Some (http_Error ''Method Not Allowed'' 405 \<circ>
                    Header_Set ''Allow'' (Join allowed '', ''), w)))"

section \<open>The default client\<close>

text \<open>
  Values of headers have no control characters other than the tabulator; a server trims them.
\<close>

definition header_value_ok :: "string \<Rightarrow> bool" where
  "header_value_ok s \<longleftrightarrow>
     list_all (\<lambda>c. (of_char c :: int) = 9 \<or> (32 \<le> (of_char c :: int) \<and> (of_char c :: int) \<noteq> 127)) s"

definition trim_header :: "string \<Rightarrow> string" where
  "trim_header s =
     (let blank = (\<lambda>c. c = CHR '' '' \<or> c = byte 9)
      in rev (dropWhile blank (rev (dropWhile blank s))))"

definition wire_header :: "headers \<Rightarrow> headers" where
  "wire_header h =
     fold (\<lambda>(k, vs). DAList.update k (map trim_header vs)) (DAList.impl_of h) DAList.empty"

text \<open>One request over the wire: the server parses what the client sends.\<close>

definition round_trip :: "'w handler \<Rightarrow> request \<Rightarrow> 'w \<Rightarrow> (response \<times> 'w) option" where
  "round_trip h r w =
     (let uri = request_uri (rq_url r);
          (p, q) = (case Cut uri ''?'' of None \<Rightarrow> (uri, []) | Some x \<Rightarrow> x)
      in case make_url p q of
           Inl err \<Rightarrow> Some (\<lparr>rs_status = 400, rs_header = DAList.empty, rs_body = Raw ''400 Bad Request''\<rparr>, w)
         | Inr u \<Rightarrow> serve h (r\<lparr>rq_url := u, rq_uri := uri,
             rq_header := wire_header (rq_header r), rq_path_values := []\<rparr>) w)"

text \<open>
  \<open>http.DefaultClient.Do\<close>: a 301 is followed, by \<open>GET\<close> without a body, up to the tenth request.
\<close>

fun follow :: "nat \<Rightarrow> 'w handler \<Rightarrow> request \<Rightarrow> 'w \<Rightarrow> ((error + response) \<times> 'w) option" where
  "follow n h r w =
     (case round_trip h r w of
        None \<Rightarrow> None
      | Some (resp, w') \<Rightarrow>
          if rs_status resp = 301 \<and> Get (rs_header resp) ''Location'' \<noteq> []
          then
            (case n of
               0 \<Rightarrow> Some (Inl (ErrLib ''stopped after 10 redirects''), w')
             | Suc m \<Rightarrow>
                 (case parse_url (Get (rs_header resp) ''Location'') of
                    Inl err \<Rightarrow> Some (Inl err, w')
                  | Inr u \<Rightarrow> follow m h
                      (r\<lparr>rq_method := (if rq_method r = ''HEAD'' then ''HEAD'' else ''GET''),
                         rq_url := u, rq_body := Raw []\<rparr>) w'))
          else Some (Inr resp, w'))"

definition http_Do :: "'w handler \<Rightarrow> request \<Rightarrow> 'w \<Rightarrow> ((error + response) \<times> 'w) option" where
  "http_Do h r w =
     (if list_all (\<lambda>(k, vs). list_all header_value_ok vs) (DAList.impl_of (rq_header r))
      then follow 9 h r w
      else Some (Inl (ErrLib ''net/http: invalid header field value''), w))"

section \<open>Paths made of escaped segments\<close>

definition join_path :: "string list \<Rightarrow> string" where
  "join_path segs = concat (map (\<lambda>s. ''/'' @ PathEscape s) segs)"

text \<open>A segment that cleaning does not touch and a wildcard matches.\<close>

definition plain_segment :: "string \<Rightarrow> bool" where
  "plain_segment s \<longleftrightarrow> s \<notin> {[], ''.'', ''..'', ''/''}"

lemma PathUnescape_percent: "PathUnescape (percent c @ s) = map_option (Cons c) (PathUnescape s)"
proof -
  have "0 \<le> (of_char c :: int) div 16" "(of_char c :: int) div 16 < 16"
    using of_char_range [of c] by auto
  moreover have "16 * ((of_char c :: int) div 16) + of_char c mod 16 = of_char c"
    by simp
  ultimately show ?thesis by (simp add: percent_def unhex_hex)
qed

lemma PathUnescape_PathEscape_append:
  "PathUnescape (PathEscape s @ t) = map_option ((@) s) (PathUnescape t)"
  by (induction s)
    (auto simp: PathEscape_def PathUnescape_percent option.map_comp o_def option.map_ident
      dest: unreserved_not_special)

lemma PathUnescape_PathEscape [simp]: "PathUnescape (PathEscape s) = Some s"
  using PathUnescape_PathEscape_append [of s "[]"] by simp

lemma PathEscape_inject [simp]: "PathEscape s = PathEscape t \<longleftrightarrow> s = t"
  by (metis PathUnescape_PathEscape option.inject)

lemma PathEscape_chars:
  assumes "c \<in> set (PathEscape s)"
  shows "c \<noteq> CHR ''/''" "c \<noteq> CHR ''?''" "c \<noteq> CHR ''#''" "path_char c \<or> c = CHR ''%''"
proof -
  from assms obtain d where d: "c = d \<and> (unreserved d \<or> d \<in> set ''$&+:=@'') \<or> c \<in> set (percent d)"
    by (auto simp: PathEscape_def split: if_splits)
  have "unreserved (hex (of_char d div 16))" "unreserved (hex (of_char d mod 16))"
    using of_char_range [of d] by (auto intro!: hex_chars)
  with d have c: "unreserved c \<or> c \<in> set ''$&+:=@%''" by (auto simp: percent_def)
  then show "c \<noteq> CHR ''/''" "c \<noteq> CHR ''?''" "c \<noteq> CHR ''#''"
    by (auto simp: unreserved_def alnum_def)
  from c show "path_char c \<or> c = CHR ''%''" by (auto simp: path_char_def)
qed

lemma PathEscape_fixed: "PathEscape [] = []" "PathEscape ''.'' = ''.''" "PathEscape ''..'' = ''..''"
  by code_simp+

lemma PathEscape_plain:
  "plain_segment s \<Longrightarrow> PathEscape s \<noteq> [] \<and> PathEscape s \<noteq> ''.'' \<and> PathEscape s \<noteq> ''..''"
  using PathEscape_inject [of s "[]"] PathEscape_inject [of s "''.''"] PathEscape_inject [of s "''..''"]
  by (auto simp: plain_segment_def PathEscape_fixed)

lemma join_path_Cons [simp]: "join_path (s # segs) = CHR ''/'' # PathEscape s @ join_path segs"
  by (simp add: join_path_def)

lemma join_path_Nil [simp]: "join_path [] = []"
  by (simp add: join_path_def)

lemma PathUnescape_join_path:
  "PathUnescape (join_path segs) = Some (concat (map (\<lambda>s. CHR ''/'' # s) segs))"
  by (induction segs) (simp_all add: PathUnescape_PathEscape_append)

lemma join_path_chars:
  "c \<in> set (join_path segs) \<Longrightarrow> c \<noteq> CHR ''?'' \<and> c \<noteq> CHR ''#'' \<and> (path_char c \<or> c = CHR ''%'')"
proof (induction segs)
  case (Cons s segs)
  have "path_char CHR ''/''" by (simp add: path_char_def)
  with Cons show ?case using PathEscape_chars [of c s] by auto
qed simp

lemma valid_encoded_join_path: "valid_encoded (join_path segs)"
  using join_path_chars by (fastforce simp: valid_encoded_def list_all_iff)

lemma Split_slash: "CHR ''/'' \<notin> set s \<Longrightarrow> Split (s @ join_path segs) ''/'' = s # map PathEscape segs"
proof (induction segs arbitrary: s)
  case (Cons t segs)
  have "CHR ''/'' \<notin> set (PathEscape t)" using PathEscape_chars(1) by blast
  then show ?case using Cons by (simp add: Split_char_append)
qed (simp add: Split_char_none)

lemma Split_join_path: "Split (join_path segs) ''/'' = [] # map PathEscape segs"
  using Split_slash [of "[]"] by simp

lemma clean_segments_plain:
  "list_all plain_segment segs \<Longrightarrow> clean_segments kept (map PathEscape segs) = rev kept @ map PathEscape segs"
  by (induction segs arbitrary: kept) (auto dest: PathEscape_plain)

lemma Join_slash: "segs \<noteq> [] \<Longrightarrow> CHR ''/'' # Join (map PathEscape segs) ''/'' = join_path segs"
proof (induction segs)
  case (Cons s segs)
  then show ?case by (cases segs) simp_all
qed simp

lemma cleanPath_join_path:
  assumes "list_all plain_segment segs" "segs \<noteq> []"
  shows "cleanPath (join_path segs) = join_path segs"
proof -
  have np: "path_Clean (join_path segs) = join_path segs"
    using clean_segments_plain [OF assms(1), of "[]"] Join_slash [OF assms(2)]
    by (simp add: path_Clean_def Split_join_path)
  obtain ss s where segs: "segs = ss @ [s]" using assms(2) by (metis rev_exhaust)
  then have "PathEscape s \<noteq> []" using assms(1) by (auto dest: PathEscape_plain)
  then have "last (join_path segs) \<in> set (PathEscape s)" by (simp add: segs join_path_def)
  then have "last (join_path segs) \<noteq> CHR ''/''" using PathEscape_chars(1) by blast
  moreover obtain t ts where "segs = t # ts" using assms(2) by (cases segs) auto
  then have "join_path segs \<noteq> []" "hd (join_path segs) = CHR ''/''" by simp_all
  ultimately show ?thesis unfolding cleanPath_def Let_def by (simp add: np)
qed

lemma path_segments_join_path:
  assumes "list_all plain_segment segs" shows "path_segments (join_path segs) = segs"
proof -
  have "first_segments (map PathEscape segs) = segs"
    using assms by (induction segs) (auto dest: PathEscape_plain)
  then show ?thesis by (simp add: path_segments_def Split_join_path)
qed

text \<open>The URL of such a path goes over the wire as it is.\<close>

definition segments_url :: "string list \<Rightarrow> string \<Rightarrow> url" where
  "segments_url segs q =
     (let p = join_path segs; path = concat (map (\<lambda>s. CHR ''/'' # s) segs)
      in \<lparr>u_path = path, u_raw_path = (if escape_path path = p then [] else p), u_raw_query = q\<rparr>)"

lemma make_url_join_path: "make_url (join_path segs) q = Inr (segments_url segs q)"
  by (simp add: make_url_def PathUnescape_join_path segments_url_def Let_def)

lemma segments_url_query [simp]: "u_raw_query (segments_url segs q) = q"
  "(segments_url segs q)\<lparr>u_raw_query := q'\<rparr> = segments_url segs q'"
  by (simp_all add: segments_url_def Let_def)

lemma EscapedPath_segments_url:
  assumes "segs \<noteq> []" shows "EscapedPath (segments_url segs q) = join_path segs"
proof -
  have "concat (map (\<lambda>s. CHR ''/'' # s) segs) \<noteq> ''*''" "join_path segs \<noteq> []"
    using assms by (cases segs; simp)+
  then show ?thesis
    by (simp add: EscapedPath_def segments_url_def Let_def valid_encoded_join_path PathUnescape_join_path)
qed

lemma request_uri_segments_url:
  assumes "segs \<noteq> []"
  shows "request_uri (segments_url segs q) = join_path segs @ (if q = [] then [] else CHR ''?'' # q)"
proof -
  have "join_path segs \<noteq> []" using assms by (cases segs) auto
  then show ?thesis by (simp add: request_uri_def EscapedPath_segments_url [OF assms] Let_def)
qed

lemma round_trip_segments_url:
  assumes "segs \<noteq> []" "rq_url r = segments_url segs q"
  shows "round_trip h r w = serve h (r\<lparr>rq_uri := request_uri (rq_url r),
     rq_header := wire_header (rq_header r), rq_path_values := []\<rparr>) w"
proof -
  have "CHR ''?'' \<notin> set (join_path segs)" using join_path_chars by blast
  then have "(case Cut (request_uri (rq_url r)) ''?'' of None \<Rightarrow> (request_uri (rq_url r), []) | Some x \<Rightarrow> x) =
      (join_path segs, q)"
    by (simp add: assms request_uri_segments_url Cut_char_append Cut_char_None [THEN iffD2])
  then show ?thesis
    by (simp add: round_trip_def Let_def make_url_join_path assms(2) [symmetric])
qed

text \<open>Headers that are not changed on the way.\<close>

definition plain_header :: "string \<Rightarrow> bool" where
  "plain_header s \<longleftrightarrow> header_value_ok s \<and> trim_header s = s"

lemma lookup_wire_header: "DAList.lookup (wire_header h) k = map_option (map trim_header) (DAList.lookup h k)"
proof -
  have "DAList.lookup (fold (\<lambda>(k, vs). DAList.update k (map trim_header vs)) kvs a) k =
      (case map_of kvs k of None \<Rightarrow> DAList.lookup a k | Some vs \<Rightarrow> Some (map trim_header vs))"
    if "distinct (map fst kvs)" for kvs a
    using that
  proof (induction kvs arbitrary: a)
    case (Cons kv kvs)
    obtain j vs where kv: "kv = (j, vs)" by (cases kv)
    have "map_of kvs j = None" using Cons.prems by (simp add: kv map_of_eq_None_iff)
    then show ?case using Cons by (auto simp: kv lookup_update split: option.split)
  qed simp
  from this [of "DAList.impl_of h" DAList.empty] show ?thesis
    by (simp add: wire_header_def DAList.lookup.rep_eq [of h] split: option.split)
qed

text \<open>Characters that are not control characters.\<close>

definition printable :: "string \<Rightarrow> bool" where
  "printable s \<longleftrightarrow> \<not> list_ex (\<lambda>c. (of_char c :: int) < 32 \<or> (of_char c :: int) = 127) s"

lemma printable_append [simp]: "printable (s @ t) \<longleftrightarrow> printable s \<and> printable t"
  by (simp add: printable_def)

lemma printable_Cons: "printable (c # s) \<longleftrightarrow> printable [c] \<and> printable s"
  by (simp add: printable_def)

lemma printable_join_path: "printable (join_path segs)"
proof -
  have "32 \<le> (of_char c :: int) \<and> (of_char c :: int) \<noteq> 127" if "path_char c \<or> c = CHR ''%''" for c
    using that by (auto simp: path_char_def unreserved_def alnum_def Let_def)
  then show ?thesis using join_path_chars by (fastforce simp: printable_def list_ex_iff)
qed

lemma parse_url_join_path:
  shows "printable q \<Longrightarrow> CHR ''#'' \<notin> set q \<Longrightarrow>
      parse_url (join_path segs @ CHR ''?'' # q) = Inr (segments_url segs q)"
    and "parse_url (join_path segs) = Inr (segments_url segs [])"
proof -
  have no: "CHR ''?'' \<notin> set (join_path segs)" "CHR ''#'' \<notin> set (join_path segs)"
    using join_path_chars by blast+
  have *: "parse_url s = (let (s, frag) = (case Cut s ''#'' of None \<Rightarrow> (s, []) | Some x \<Rightarrow> x);
        (p, q) = (case Cut s ''?'' of None \<Rightarrow> (s, []) | Some x \<Rightarrow> x)
     in if PathUnescape frag = None then Inl (ErrLib ''invalid URL escape'') else make_url p q)"
    if "printable s" for s
    using that by (simp add: parse_url_def printable_def del: not_ex list_ex_iff)
  show "parse_url (join_path segs @ CHR ''?'' # q) = Inr (segments_url segs q)"
    if "printable q" "CHR ''#'' \<notin> set q"
  proof -
    have "printable [CHR ''?'']" by (simp add: printable_def)
    then have "printable (join_path segs @ CHR ''?'' # q)"
      using that(1) printable_join_path by (simp only: printable_append printable_Cons [of "CHR ''?''" q])
    moreover have "Cut (join_path segs @ CHR ''?'' # q) ''#'' = None"
      using no that(2) by (simp add: Cut_char_None)
    moreover have "Cut (join_path segs @ CHR ''?'' # q) ''?'' = Some (join_path segs, q)"
      using no by (simp add: Cut_char_append)
    ultimately show ?thesis by (simp only: * option.case prod.case Let_def) (simp add: make_url_join_path)
  qed
  have "Cut (join_path segs) ''#'' = None" "Cut (join_path segs) ''?'' = None"
    using no by (simp_all add: Cut_char_None)
  then show "parse_url (join_path segs) = Inr (segments_url segs [])"
    by (simp only: * [OF printable_join_path] option.case prod.case Let_def) (simp add: make_url_join_path)
qed

end
