(* ===== verification/CtlLoad.thy ===== *)
theory CtlLoad
  imports Samples GoUrl
begin

text \<open>
  Loading permissions from the service permission-search, \<open>pkg/controller/load.go\<close>. The pages of the
  remote service are read until one is short. A remote that never sends a short page keeps the loop
  running, so the loop is a partial function: \<open>None\<close> is a request that never ends.
\<close>

section \<open>Operations\<close>

text \<open>
  The resource an element stands for: the maps of what is stored, or new ones, with the rights of the
  element put on top. The group rights of permission-search become role permissions.
\<close>

definition loaded_resource :: "admin_load_request \<Rightarrow> search_element \<Rightarrow> resource_permissions \<Rightarrow> resource" where
  "loaded_resource req element current =
     \<lparr>r_id = se_resource_id element, r_topic_id = lr_topic_id req, r_permissions =
       \<lparr>rp_user = m_range_put permissions_map_of (se_user_rights element) (m_nonnil (rp_user current)),
        rp_group = m_nonnil (rp_group current),
        rp_role = m_range_put permissions_map_of (se_group_rights element) (m_nonnil (rp_role current))\<rparr>\<rparr>"

text \<open>In a dry run the resource is only printed.\<close>

definition handlePermissionSearchExport ::
  "('s, 'e, 'p) controller \<Rightarrow> admin_load_request \<Rightarrow> topic \<Rightarrow> search_element \<Rightarrow>
   (('s, 'e, 'p) world, error + bool) state" where
  "handlePermissionSearchExport C req topic element = do {
     r \<leftarrow> on_db (GetResource (ctl_db C) (lr_topic_id req) (se_resource_id element) default_get_options);
     case r of
       Inl err \<Rightarrow>
         if \<not> errors_is err ErrNotFound then ret (Inl err)
         else if lr_dry_run req then ret (Inr True)
         else do {
           err \<leftarrow> setPermission C topic (loaded_resource req element nil_permissions);
           case err of Some e \<Rightarrow> ret (Inl e) | None \<Rightarrow> ret (Inr True) }
     | Inr resource \<Rightarrow>
         if lr_overwrite_existing req
         then
           if lr_dry_run req then ret (Inr True)
           else do {
             err \<leftarrow> setPermission C topic (loaded_resource req element (r_permissions resource));
             case err of Some e \<Rightarrow> ret (Inl e) | None \<Rightarrow> ret (Inr True) }
         else ret (Inr False) }"

fun handle_elements ::
  "('s, 'e, 'p) controller \<Rightarrow> admin_load_request \<Rightarrow> topic \<Rightarrow> search_element list \<Rightarrow> int \<Rightarrow>
   (('s, 'e, 'p) world, int reply) state" where
  "handle_elements C req topic [] updateCount = ret (Inr (updateCount, StatusOK))"
| "handle_elements C req topic (element # list) updateCount = do {
     u \<leftarrow> handlePermissionSearchExport C req topic element;
     case u of
       Inl err \<Rightarrow> ret (Inl (err, StatusInternalServerError))
     | Inr updated \<Rightarrow>
         handle_elements C req topic list (if updated then updateCount + 1 else updateCount) }"

text \<open>One request for a page. The status of the response is not looked at.\<close>

definition load_page ::
  "('s, 'e, 'p) controller \<Rightarrow> admin_load_request \<Rightarrow> topic \<Rightarrow> int \<Rightarrow> int \<Rightarrow>
   (('s, 'e, 'p) world, error + search_element list) state" where
  "load_page C req topic limit offset = do {
     r \<leftarrow> on_ext (http_do C
       \<lparr>hr_method = ''GET'',
        hr_url = lr_permission_search_url req @ ''/v3/export/'' @
          PathEscape (t_publish_to_kafka_topic topic) @ ''?limit='' @ FormatInt limit @
          ''&offset='' @ FormatInt offset,
        hr_headers = [(''Authorization'', lr_token req)]\<rparr>);
     case r of
       Inl err \<Rightarrow> ret (Inl err)
     | Inr resp \<Rightarrow> ret (decode_search C (hs_body resp)) }"

definition load_limit :: int where "load_limit = 100"

partial_function (option) load_loop ::
  "('s, 'e, 'p) controller \<Rightarrow> admin_load_request \<Rightarrow> topic \<Rightarrow> int \<Rightarrow> int \<Rightarrow> ('s, 'e, 'p) world \<Rightarrow>
   (int reply \<times> ('s, 'e, 'p) world) option" where
  "load_loop C req topic offset updateCount w =
     (case run_state (load_page C req topic load_limit offset) w of
        (Inl err, w1) \<Rightarrow> Some (Inl (err, StatusInternalServerError), w1)
      | (Inr list, w1) \<Rightarrow>
          (case run_state (handle_elements C req topic list updateCount) w1 of
             (Inl (err, code), w2) \<Rightarrow> Some (Inl (err, code), w2)
           | (Inr (updateCount, code), w2) \<Rightarrow>
               if int (length list) < load_limit then Some (Inr (updateCount, StatusOK), w2)
               else load_loop C req topic (offset + load_limit) updateCount w2))"

definition AdminLoadFromPermissionSearch ::
  "('s, 'e, 'p) controller \<Rightarrow> admin_load_request \<Rightarrow> ('s, 'e, 'p) world \<Rightarrow>
   (int reply \<times> ('s, 'e, 'p) world) option" where
  "AdminLoadFromPermissionSearch C req w =
     (case run_state (on_db (GetTopic (ctl_db C) (lr_topic_id req))) w of
        (Inl err, w1) \<Rightarrow> Some (Inl (err, StatusInternalServerError), w1)
      | (Inr None, w1) \<Rightarrow> Some (Inl (Err ''unknown topic_id'', StatusBadRequest), w1)
      | (Inr (Some topic), w1) \<Rightarrow>
          if t_publish_to_kafka_topic topic = []
          then Some (Inl (Err ''no topic.publish_to_kafka_topic stored'', StatusBadRequest), w1)
          else load_loop C req topic 0 0 w1)"

declare load_loop.simps [code]

section \<open>Lemmas\<close>

text \<open>
  What a load may do to the store: it touches only resources of its topic, without \<open>OverwriteExisting\<close>
  only ones that were not stored, and in a dry run none.
\<close>

definition loaded :: "admin_load_request \<Rightarrow> store \<Rightarrow> store \<Rightarrow> bool" where
  "loaded req st st' \<longleftrightarrow>
     (lr_dry_run req \<longrightarrow> st' = st) \<and> st_topics st' = st_topics st \<and>
     (\<forall>t i. st_resources st' t i = st_resources st t i \<or>
        (t = lr_topic_id req \<and> st_resources st' t i \<noteq> None \<and>
         (st_resources st t i = None \<or> lr_overwrite_existing req)))"

lemma loaded_refl [simp]: "loaded req st st"
  by (simp add: loaded_def)

lemma loaded_trans: "loaded req a b \<Longrightarrow> loaded req b c \<Longrightarrow> loaded req a c"
  unfolding loaded_def by metis

lemma loaded_put:
  "\<not> lr_dry_run req \<Longrightarrow> r_topic_id r = lr_topic_id req \<Longrightarrow>
   st_resources st (lr_topic_id req) (r_id r) = None \<or> lr_overwrite_existing req \<Longrightarrow>
   loaded req st (put_resource r st)"
  by (auto simp: loaded_def)

lemma loaded_resource_simps [simp]:
  "r_id (loaded_resource req element p) = se_resource_id element"
  "r_topic_id (loaded_resource req element p) = lr_topic_id req"
  by (simp_all add: loaded_resource_def)

text \<open>In the loaded permissions the rights of the element go before those that were stored.\<close>

lemma loaded_resource_get:
  "m_get (rp_user (r_permissions (loaded_resource req element p))) u =
     (case m_get (se_user_rights element) u of None \<Rightarrow> m_get (rp_user p) u | Some r \<Rightarrow> Some (permissions_map_of r))"
  "m_get (rp_group (r_permissions (loaded_resource req element p))) u = m_get (rp_group p) u"
  "m_get (rp_role (r_permissions (loaded_resource req element p))) u =
     (case m_get (se_group_rights element) u of None \<Rightarrow> m_get (rp_role p) u | Some r \<Rightarrow> Some (permissions_map_of r))"
  by (simp_all add: loaded_resource_def split: option.split)

context database
begin

lemma handlePermissionSearchExport_store:
  assumes C: "ctl_db C = db" and inv: "invar (w_db w)"
    and run: "run_state (handlePermissionSearchExport C req topic element) w = (u, w')"
  shows "invar (w_db w') \<and> loaded req (store_of (w_db w)) (store_of (w_db w'))"
proof -
  obtain q w1 where get: "run_state (on_db (GetResource db (lr_topic_id req) (se_resource_id element)
      default_get_options)) w = (q, w1)" by fastforce
  then obtain d where d: "run_state (GetResource db (lr_topic_id req) (se_resource_id element)
      default_get_options) (w_db w) = (q, d)" "w1 = w\<lparr>w_db := d\<rparr>" by (auto simp: run_on_db)
  have w1: "invar (w_db w1)" "store_of (w_db w1) = store_of (w_db w)"
    using preservesD [OF reads_GetResource d(1) inv] by (simp_all add: d(2))
  show ?thesis
  proof (cases "w' = w1")
    case True
    then show ?thesis using w1 by simp
  next
    case False
    then obtain p e where set: "run_state (setPermission C topic (loaded_resource req element p)) w1 = (e, w')"
      and dry: "\<not> lr_dry_run req" and why: "(\<exists>err. q = Inl err \<and> errors_is err ErrNotFound) \<or> lr_overwrite_existing req"
      using run get
      by (auto simp: handlePermissionSearchExport_def C split: sum.splits if_splits prod.splits option.splits)
    have "st_resources (store_of (w_db w)) (lr_topic_id req) (se_resource_id element) = None \<or> lr_overwrite_existing req"
      using why GetResource_not_found [OF inv, of _ _ _ _ d] d(1) by blast
    then have "loaded req (store_of (w_db w)) (put_resource (loaded_resource req element p) (store_of (w_db w)))"
      using dry by (intro loaded_put) simp_all
    with setPermission_store [OF C w1(1) set] show ?thesis by (auto simp: w1(2))
  qed
qed

lemma handle_elements_store:
  assumes C: "ctl_db C = db"
  shows "invar (w_db w) \<Longrightarrow> run_state (handle_elements C req topic list n) w = (r, w') \<Longrightarrow>
    invar (w_db w') \<and> loaded req (store_of (w_db w)) (store_of (w_db w'))"
proof (induction list arbitrary: w n)
  case (Cons element list)
  obtain u w1 where one: "run_state (handlePermissionSearchExport C req topic element) w = (u, w1)" by fastforce
  note step = handlePermissionSearchExport_store [OF C Cons.prems(1) one]
  show ?case
  proof (cases u)
    case (Inl err)
    with Cons.prems(2) one step show ?thesis by simp
  next
    case (Inr updated)
    with Cons.prems(2) one
    have "run_state (handle_elements C req topic list (if updated then n + 1 else n)) w1 = (r, w')" by simp
    from Cons.IH [OF conjunct1 [OF step] this] step show ?thesis using loaded_trans by blast
  qed
qed simp

lemma load_page_frame:
  "run_state (load_page C req topic limit offset) w = (r, w1) \<Longrightarrow> w_db w1 = w_db w"
  by (auto simp: load_page_def on_ext_def split: prod.splits sum.splits)

lemma load_loop_store:
  assumes "load_loop C req topic offset n w = Some q"
  shows "ctl_db C = db \<longrightarrow> invar (w_db w) \<longrightarrow>
    invar (w_db (snd q)) \<and> loaded req (store_of (w_db w)) (store_of (w_db (snd q)))"
proof (rule load_loop.raw_induct [where P = "\<lambda>C req topic offset n w q. ctl_db C = db \<longrightarrow> invar (w_db w) \<longrightarrow>
      invar (w_db (snd q)) \<and> loaded req (store_of (w_db w)) (store_of (w_db (snd q)))", OF _ assms], goal_cases)
  case step: (1 load_loop C req topic offset n w q)
  show ?case
  proof (intro impI)
    assume C: "ctl_db C = db" and inv: "invar (w_db w)"
    obtain r w1 where page: "run_state (load_page C req topic load_limit offset) w = (r, w1)" by fastforce
    note same = load_page_frame [OF page]
    show "invar (w_db (snd q)) \<and> loaded req (store_of (w_db w)) (store_of (w_db (snd q)))"
    proof (cases r)
      case (Inl err)
      with step(2) page have "snd q = w1" by auto
      with inv same show ?thesis by simp
    next
      case (Inr list)
      obtain h w2 where els: "run_state (handle_elements C req topic list n) w1 = (h, w2)" by fastforce
      note stored = handle_elements_store [OF C _ els, unfolded same, OF inv]
      show ?thesis
      proof (cases "\<exists>m code. h = Inr (m, code) \<and> \<not> int (length list) < load_limit")
        case True
        then obtain m code where "load_loop C req topic (offset + load_limit) m w2 = Some q"
          using step(2) page Inr els by auto
        from step(1) [OF this] C stored show ?thesis using loaded_trans by blast
      next
        case False
        then have "snd q = w2" using step(2) page Inr els by (cases h) auto
        with stored show ?thesis by simp
      qed
    qed
  qed
qed

lemma AdminLoadFromPermissionSearch_store:
  assumes C: "ctl_db C = db" and inv: "invar (w_db w)"
    and run: "AdminLoadFromPermissionSearch C req w = Some (r, w')"
  shows "invar (w_db w') \<and> loaded req (store_of (w_db w)) (store_of (w_db w'))"
proof -
  obtain q w1 where get: "run_state (on_db (GetTopic db (lr_topic_id req))) w = (q, w1)" by fastforce
  then obtain d where d: "run_state (GetTopic db (lr_topic_id req)) (w_db w) = (q, d)" "w1 = w\<lparr>w_db := d\<rparr>"
    by (auto simp: run_on_db)
  have w1: "invar (w_db w1)" "store_of (w_db w1) = store_of (w_db w)"
    using preservesD [OF reads_GetTopic d(1) inv] by (simp_all add: d(2))
  have "w' = w1 \<or> (\<exists>topic. load_loop C req topic 0 0 w1 = Some (r, w'))"
    using run get
    by (auto simp: AdminLoadFromPermissionSearch_def C split: sum.splits option.splits if_splits)
  then show ?thesis
  proof
    assume "\<exists>topic. load_loop C req topic 0 0 w1 = Some (r, w')"
    then obtain topic where "load_loop C req topic 0 0 w1 = Some (r, w')" ..
    from load_loop_store [OF this] C w1 show ?thesis by simp
  qed (use w1 in simp)
qed

end

text \<open>From some offset on every page is short, or no page comes.\<close>

definition pages_end :: "('s, 'e, 'p) controller \<Rightarrow> admin_load_request \<Rightarrow> int \<Rightarrow> bool" where
  "pages_end C req N \<longleftrightarrow> (\<forall>topic offset w list w'. offset \<ge> N \<longrightarrow>
     run_state (load_page C req topic load_limit offset) w = (Inr list, w') \<longrightarrow> int (length list) < load_limit)"

lemma load_loop_ends:
  assumes "pages_end C req N"
  shows "\<exists>q. load_loop C req topic offset n w = Some q"
proof (induction "nat (N - offset)" arbitrary: offset n w rule: less_induct)
  case less
  obtain r w1 where page: "run_state (load_page C req topic load_limit offset) w = (r, w1)" by fastforce
  show ?case
  proof (cases r)
    case (Inl err)
    with page show ?thesis by (simp add: load_loop.simps)
  next
    case (Inr list)
    obtain h w2 where els: "run_state (handle_elements C req topic list n) w1 = (h, w2)" by fastforce
    show ?thesis
    proof (cases "offset \<ge> N")
      case True
      with assms page Inr have "int (length list) < load_limit" unfolding pages_end_def by blast
      then show ?thesis using page Inr els by (subst load_loop.simps) (auto split: sum.split)
    next
      case False
      then have "\<exists>q. load_loop C req topic (offset + load_limit) m w2 = Some q" for m
        by (intro less) (simp add: load_limit_def)
      then show ?thesis using page Inr els by (subst load_loop.simps) (auto split: sum.split)
    qed
  qed
qed

text \<open>Every page is full, and nothing fails.\<close>

definition pages_full :: "('s, 'e, 'p) controller \<Rightarrow> admin_load_request \<Rightarrow> bool" where
  "pages_full C req \<longleftrightarrow>
     (\<forall>topic offset w. \<exists>list w'. run_state (load_page C req topic load_limit offset) w = (Inr list, w') \<and>
        int (length list) \<ge> load_limit) \<and>
     (\<forall>topic list n w. \<exists>m w'. run_state (handle_elements C req topic list n) w = (Inr m, w'))"

lemma load_loop_diverges:
  assumes full: "pages_full C req"
  shows "load_loop C req topic offset n w = None"
proof (rule ccontr)
  assume "load_loop C req topic offset n w \<noteq> None"
  then obtain q where "load_loop C req topic offset n w = Some q" by blast
  then have "\<not> pages_full C req"
  proof (rule load_loop.raw_induct [where P = "\<lambda>C req topic offset n w q. \<not> pages_full C req", rotated], goal_cases)
    case step: (1 load_loop C req topic offset n w q)
    show ?case
    proof
      assume all: "pages_full C req"
      obtain list w1 where page: "run_state (load_page C req topic load_limit offset) w = (Inr list, w1)"
        and long: "int (length list) \<ge> load_limit" using all unfolding pages_full_def by blast
      obtain m w2 where "run_state (handle_elements C req topic list n) w1 = (Inr m, w2)"
        using all unfolding pages_full_def by blast
      with step(2) page long obtain k where "load_loop C req topic (offset + load_limit) k w2 = Some q"
        by (cases m) auto
      from step(1) [OF this] all show False by simp
    qed
  qed
  with full show False by simp
qed

section \<open>Properties\<close>

text \<open>A remote service that knows one resource, and one that always sends a full page.\<close>

definition remote_device :: search_element where
  "remote_device = \<lparr>se_user_rights = m_put ''carol'' (right_of all_permissions) m_empty,
     se_group_rights = None, se_resource_id = ''remote'', se_creator = ''carol''\<rparr>"

definition load_controller :: "nat \<Rightarrow> (mock, sample_ext, string) controller" where
  "load_controller n = sample_controller\<lparr>http_do := (\<lambda>_. ret (Inr \<lparr>hs_status = 200, hs_body = []\<rparr>)),
     decode_search := (\<lambda>_. Inr (replicate n remote_device))\<rparr>"

definition load_request :: admin_load_request where
  "load_request = \<lparr>lr_permission_search_url = ''http://permsearch'', lr_token = ''Bearer root'',
     lr_topic_id = ''devices'', lr_overwrite_existing = False, lr_dry_run = False\<rparr>"

lemma load_controller_db [simp]: "ctl_db (load_controller n) = mock_db"
  by (simp add: load_controller_def)

lemma load_page_sample [simp]:
  "run_state (load_page (load_controller n) req topic limit offset) w = (Inr (replicate n remote_device), w)"
  by (simp add: load_page_def load_controller_def on_ext_def)


lemma sample_load:
  "map_option fst (AdminLoadFromPermissionSearch (load_controller 1) load_request sample_world) = Some (Inr (1, 200))"
  by code_simp


text \<open>
  C23. A load ends when the remote service runs out of resources: if from some offset on no full page
  comes, the request has an answer.
\<close>

theorem load_terminates:
  assumes "pages_end C req N"
  shows "\<exists>r w'. AdminLoadFromPermissionSearch C req w = Some (r, w')"
  using load_loop_ends [OF assms]
  by (auto simp: AdminLoadFromPermissionSearch_def split: prod.split sum.split option.split)

theorem load_terminates_witness:
  "\<exists>r w'. AdminLoadFromPermissionSearch (load_controller 99) load_request sample_world = Some (r, w')"
  by (rule load_terminates [of _ _ 0]) (simp add: pages_end_def load_limit_def)

text \<open>
  A load does not end against a remote service that sends a full page at every offset, as long as
  nothing fails: the loop has no other way out.
\<close>

theorem load_diverges:
  assumes "pages_full C req"
    and "fst (run_state (GetTopic (ctl_db C) (lr_topic_id req)) (w_db w)) = Inr (Some topic)"
    and "t_publish_to_kafka_topic topic \<noteq> []"
  shows "AdminLoadFromPermissionSearch C req w = None"
  using assms(2,3) load_loop_diverges [OF assms(1)]
  by (auto simp: AdminLoadFromPermissionSearch_def on_db_def split: prod.splits)

lemma mock_dry_run:
  "lr_dry_run req \<Longrightarrow>
   \<exists>m. run_state (handle_elements (load_controller k) req topic list n) w = (Inr (m, StatusOK), w)"
proof (induction list arbitrary: n)
  case (Cons e list)
  then have "\<exists>u. run_state (handlePermissionSearchExport (load_controller k) req topic e) w = (Inr u, w)"
    by (auto simp: handlePermissionSearchExport_def on_db_def mock_db_def Mock_GetResource_def
        default_get_options_def split: option.split)
  then show ?case using Cons by auto
qed simp

theorem load_diverges_witness:
  "AdminLoadFromPermissionSearch (load_controller 100) (load_request\<lparr>lr_dry_run := True\<rparr>) sample_world = None"
proof (rule load_diverges [where topic = devices])
  show "pages_full (load_controller 100) (load_request\<lparr>lr_dry_run := True\<rparr>)"
    using mock_dry_run [of "load_request\<lparr>lr_dry_run := True\<rparr>" 100]
    unfolding pages_full_def by (simp add: load_limit_def) blast
qed (simp_all add: mock_db_def Mock_GetTopic_def load_request_def sample_world_def devices_def device_types_def)

end
