(* ===== verification/Api.thy ===== *)
theory Api
  imports Http CtlImportExport CtlResource CtlLoad
begin

text \<open>
  The HTTP API, \<open>pkg/api\<close>: the interface of the controller (\<open>interfaces.go\<close>), one handler per
  endpoint, the middlewares of \<open>util\<close>, and the router that puts them together (\<open>api.go\<close>). The
  handlers work for anything with the interface: the controller, or a client of another service.
  The libraries for tokens, access logs and tracing are parameters.
\<close>

section \<open>The interface\<close>

text \<open>An operation as a server runs it; \<open>None\<close> is one that never ends.\<close>

type_synonym ('w, 'a) call = "'w \<Rightarrow> ('a reply \<times> 'w) option"

record 'w api =
  api_ListTopics :: "string \<Rightarrow> list_options \<Rightarrow> ('w, topic list) call"
  api_GetTopic :: "string \<Rightarrow> string \<Rightarrow> ('w, topic) call"
  api_RemoveTopic :: "string \<Rightarrow> string \<Rightarrow> ('w, unit) call"
  api_SetTopic :: "string \<Rightarrow> topic \<Rightarrow> ('w, topic) call"
  api_AdminListResourceIds :: "string \<Rightarrow> string \<Rightarrow> list_options \<Rightarrow> ('w, string list) call"
  api_AdminLoadFromPermissionSearch :: "admin_load_request \<Rightarrow> ('w, int) call"
  api_Export :: "string \<Rightarrow> import_export_options \<Rightarrow> ('w, import_export) call"
  api_Import :: "string \<Rightarrow> import_export \<Rightarrow> import_export_options \<Rightarrow> ('w, unit) call"
  api_CheckPermission :: "string \<Rightarrow> string \<Rightarrow> string \<Rightarrow> permission list \<Rightarrow> ('w, bool) call"
  api_CheckMultiplePermissions ::
    "string \<Rightarrow> string \<Rightarrow> string list \<Rightarrow> permission list \<Rightarrow> ('w, bool gomap) call"
  api_ListAccessibleResourceIds ::
    "string \<Rightarrow> string \<Rightarrow> list_options \<Rightarrow> permission list \<Rightarrow> ('w, string list) call"
  api_ListComputedPermissions ::
    "string \<Rightarrow> string \<Rightarrow> string list option \<Rightarrow> ('w, computed_permissions list) call"
  api_ListResourcesWithAdminPermission ::
    "string \<Rightarrow> string \<Rightarrow> list_options \<Rightarrow> ('w, resource list) call"
  api_GetResource :: "string \<Rightarrow> string \<Rightarrow> string \<Rightarrow> ('w, resource) call"
  api_RemoveResource :: "string \<Rightarrow> string \<Rightarrow> string \<Rightarrow> ('w, unit) call"
  api_SetPermission ::
    "string \<Rightarrow> string \<Rightarrow> string \<Rightarrow> resource_permissions \<Rightarrow> ('w, resource_permissions) call"

definition run_call :: "('w, 'a reply) state \<Rightarrow> ('w, 'a) call" where
  "run_call m w = Some (run_state m w)"

text \<open>The controller behind the interface. Its maps are never nil.\<close>

definition not_nil :: "('w, 'a reply) state \<Rightarrow> ('w, 'a option reply) state" where
  "not_nil m = State_Monad.bind m (\<lambda>r. ret (map_sum id (map_prod Some id) r))"

definition controller_api :: "('s, 'e, 'p) controller \<Rightarrow> ('s, 'e, 'p) world api" where
  "controller_api C =
     \<lparr>api_ListTopics = (\<lambda>tok opt. run_call (CtlListTopics C tok opt)),
      api_GetTopic = (\<lambda>tok i. run_call (CtlGetTopic C tok i)),
      api_RemoveTopic = (\<lambda>tok i. run_call (RemoveTopic C tok i)),
      api_SetTopic = (\<lambda>tok t. run_call (CtlSetTopic C tok t)),
      api_AdminListResourceIds = (\<lambda>tok t opt. run_call (CtlAdminListResourceIds C tok t opt)),
      api_AdminLoadFromPermissionSearch = AdminLoadFromPermissionSearch C,
      api_Export = (\<lambda>tok opt. run_call (Export C tok opt)),
      api_Import = (\<lambda>tok d opt. run_call (Import C tok d opt)),
      api_CheckPermission = (\<lambda>tok t i ps. run_call (CheckPermission C tok t i ps)),
      api_CheckMultiplePermissions = (\<lambda>tok t is ps. run_call (not_nil (CheckMultiplePermissions C tok t is ps))),
      api_ListAccessibleResourceIds = (\<lambda>tok t opt ps. run_call (ListAccessibleResourceIds C tok t opt ps)),
      api_ListComputedPermissions = (\<lambda>tok t is. run_call (ListComputedPermissions C tok t is)),
      api_ListResourcesWithAdminPermission =
        (\<lambda>tok t opt. run_call (ListResourcesWithAdminPermission C tok t opt)),
      api_GetResource = (\<lambda>tok t i. run_call (CtlGetResource C tok t i)),
      api_RemoveResource = (\<lambda>tok t i. run_call (RemoveResource C tok t i)),
      api_SetPermission = (\<lambda>tok t i p. run_call (SetPermission C tok t i p))\<rparr>"

text \<open>What the handlers use of the token library and of the generated documentation.\<close>

record api_lib =
  GetAuthToken :: "request \<Rightarrow> string"
  GetParsedToken :: "request \<Rightarrow> error + token"
  ReadDoc :: "error + string"

section \<open>Handlers\<close>

text \<open>What most handlers end with: the error of the call as text, or what to do with its result.\<close>

definition answer :: "('w, 'a) call \<Rightarrow> ('a \<Rightarrow> int \<Rightarrow> writer \<Rightarrow> writer) \<Rightarrow> 'w \<Rightarrow> ((writer \<Rightarrow> writer) \<times> 'w) option" where
  "answer call ok w =
     (case call w of
        None \<Rightarrow> None
      | Some (Inl (err, code), w') \<Rightarrow> Some (http_Error (error_text err) code, w')
      | Some (Inr (result, code), w') \<Rightarrow> Some (ok result code, w'))"

definition write_json :: "json \<Rightarrow> writer \<Rightarrow> writer" where
  "write_json v = Write_body (Json v) \<circ> Header_Set ''Content-Type'' ''application/json''"

definition bad_request :: "string \<Rightarrow> 'w \<Rightarrow> ((writer \<Rightarrow> writer) \<times> 'w) option" where
  "bad_request msg w = Some (http_Error msg StatusBadRequest, w)"

definition json_strings :: "string list \<Rightarrow> json" where
  "json_strings = json_list (\<lambda>s. JStr (json_string s))"

text \<open>\<open>topics.go\<close>\<close>

definition h_ListTopics :: "api_lib \<Rightarrow> 'w api \<Rightarrow> 'w handler" where
  "h_ListTopics L ctrl req =
     (let token = GetAuthToken L req in
      case ListOptionsFromQuery (Query (rq_url req)) of
        Inl err \<Rightarrow> bad_request (error_text err)
      | Inr listOptions \<Rightarrow>
          answer (api_ListTopics ctrl token listOptions)
            (\<lambda>result code. write_json (json_list json_topic result)))"

definition h_GetTopic :: "api_lib \<Rightarrow> 'w api \<Rightarrow> 'w handler" where
  "h_GetTopic L ctrl req =
     (let token = GetAuthToken L req; tid = PathValue req ''id'' in
      if tid = [] then bad_request ''missing id''
      else answer (api_GetTopic ctrl token tid) (\<lambda>result code. write_json (json_topic result)))"

text \<open>The status is sent before the content type is set.\<close>

definition h_SetTopic :: "api_lib \<Rightarrow> 'w api \<Rightarrow> 'w handler" where
  "h_SetTopic L ctrl req =
     (let token = GetAuthToken L req; tid = PathValue req ''id'' in
      if tid = [] then bad_request ''missing id''
      else
        case Decode (read_struct topic_fields) (rq_body req) no_topic of
          Inl err \<Rightarrow> bad_request (error_text err)
        | Inr topic \<Rightarrow>
            let topic = (if t_id topic = [] then topic\<lparr>t_id := tid\<rparr> else topic) in
            if t_id topic \<noteq> tid then bad_request ''topic id mismatch''
            else answer (api_SetTopic ctrl token topic)
              (\<lambda>result code. write_json (json_topic result) \<circ> WriteHeader code))"

definition h_SetTopicByPost :: "api_lib \<Rightarrow> 'w api \<Rightarrow> 'w handler" where
  "h_SetTopicByPost L ctrl req =
     (let token = GetAuthToken L req in
      case Decode (read_struct topic_fields) (rq_body req) no_topic of
        Inl err \<Rightarrow> bad_request (error_text err)
      | Inr topic \<Rightarrow>
          answer (api_SetTopic ctrl token topic)
            (\<lambda>result code. write_json (json_topic result) \<circ> WriteHeader code))"

definition h_DeleteTopic :: "api_lib \<Rightarrow> 'w api \<Rightarrow> 'w handler" where
  "h_DeleteTopic L ctrl req =
     (let token = GetAuthToken L req; tid = PathValue req ''id'' in
      if tid = [] then bad_request ''missing id''
      else answer (api_RemoveTopic ctrl token tid) (\<lambda>_ code. WriteHeader StatusOK))"

text \<open>\<open>admin.go\<close>\<close>

definition h_AdminListResourceIds :: "api_lib \<Rightarrow> 'w api \<Rightarrow> 'w handler" where
  "h_AdminListResourceIds L ctrl req =
     (let token = GetAuthToken L req; topic = PathValue req ''topic'' in
      if topic = [] then bad_request ''missing topic''
      else
        case ListOptionsFromQuery (Query (rq_url req)) of
          Inl err \<Rightarrow> bad_request (error_text err)
        | Inr listOptions \<Rightarrow>
            answer (api_AdminListResourceIds ctrl token topic listOptions)
              (\<lambda>result code. write_json (json_strings result)))"

definition h_AdminLoadFromPermissionSearch :: "api_lib \<Rightarrow> 'w api \<Rightarrow> 'w handler" where
  "h_AdminLoadFromPermissionSearch L ctrl req w =
     (case GetParsedToken L req of
        Inl err \<Rightarrow> Some (http_Error (error_text err) StatusUnauthorized, w)
      | Inr token \<Rightarrow>
          if \<not> IsAdmin token
          then Some (http_Error ''only admins may load from permission-search'' StatusForbidden, w)
          else
            case Decode (read_struct load_request_fields) (rq_body req) no_load_request of
              Inl err \<Rightarrow> bad_request (error_text err) w
            | Inr loadReq \<Rightarrow>
                if lr_permission_search_url loadReq = []
                then bad_request ''missing permission_search_url'' w
                else
                  let loadReq = (if lr_token loadReq = [] then loadReq\<lparr>lr_token := Jwt token\<rparr> else loadReq) in
                  if lr_topic_id loadReq = [] then bad_request ''missing topic_id'' w
                  else answer (api_AdminLoadFromPermissionSearch ctrl loadReq)
                    (\<lambda>updateCount code. Write_body (Json (JNum updateCount))) w)"

text \<open>\<open>list.go\<close>\<close>

text \<open>A comma separated list of ids, each trimmed.\<close>

definition id_list :: "string \<Rightarrow> string list" where
  "id_list ids = map TrimSpace (Split ids '','')"

definition h_ListComputedPermissions :: "api_lib \<Rightarrow> 'w api \<Rightarrow> 'w handler" where
  "h_ListComputedPermissions L ctrl req =
     (let token = GetAuthToken L req; topic = PathValue req ''topic'' in
      if topic = [] then bad_request ''missing topic''
      else
        let ids = Get (Query (rq_url req)) ''ids'' in
        answer (api_ListComputedPermissions ctrl token topic (Some (id_list ids)))
          (\<lambda>result code. write_json (json_list json_computed result)))"

definition h_QueryListComputedPermissions :: "api_lib \<Rightarrow> 'w api \<Rightarrow> 'w handler" where
  "h_QueryListComputedPermissions L ctrl req =
     (let token = GetAuthToken L req; topic = PathValue req ''topic'' in
      if topic = [] then bad_request ''missing topic''
      else
        case Decode (read_slice read_string []) (rq_body req) (Some []) of
          Inl err \<Rightarrow> bad_request (error_text err)
        | Inr idList \<Rightarrow>
            answer (api_ListComputedPermissions ctrl token topic idList)
              (\<lambda>result code. write_json (json_list json_computed result)))"

text \<open>\<open>permissionscheck.go\<close>\<close>

definition permissions_param :: "url_values \<Rightarrow> error + permission list" where
  "permissions_param q =
     (let permissionsStr = Get q ''permissions'';
          permissionsStr = (if permissionsStr = [] then ''r'' else permissionsStr)
      in PermissionListFromString permissionsStr)"

definition h_CheckPermission :: "api_lib \<Rightarrow> 'w api \<Rightarrow> 'w handler" where
  "h_CheckPermission L ctrl req =
     (let token = GetAuthToken L req; topic = PathValue req ''topic'' in
      if topic = [] then bad_request ''missing topic''
      else
        let rid = PathValue req ''id'' in
        if rid = [] then bad_request ''missing id''
        else
          case permissions_param (Query (rq_url req)) of
            Inl err \<Rightarrow> bad_request (error_text err)
          | Inr permissions \<Rightarrow>
              answer (api_CheckPermission ctrl token topic rid permissions)
                (\<lambda>result code. write_json (JBool result)))"

definition h_CheckMultiplePermissions :: "api_lib \<Rightarrow> 'w api \<Rightarrow> 'w handler" where
  "h_CheckMultiplePermissions L ctrl req =
     (let token = GetAuthToken L req; topic = PathValue req ''topic'' in
      if topic = [] then bad_request ''missing topic''
      else
        let idList = id_list (Get (Query (rq_url req)) ''ids'') in
        case permissions_param (Query (rq_url req)) of
          Inl err \<Rightarrow> bad_request (error_text err)
        | Inr permissions \<Rightarrow>
            answer (api_CheckMultiplePermissions ctrl token topic idList permissions)
              (\<lambda>result code. write_json (json_map JBool result)))"

definition h_ListAccessibleResourceIds :: "api_lib \<Rightarrow> 'w api \<Rightarrow> 'w handler" where
  "h_ListAccessibleResourceIds L ctrl req =
     (let token = GetAuthToken L req; topic = PathValue req ''topic'' in
      if topic = [] then bad_request ''missing topic''
      else
        case permissions_param (Query (rq_url req)) of
          Inl err \<Rightarrow> bad_request (error_text err)
        | Inr permissions \<Rightarrow>
            (case ListOptionsFromQuery (Query (rq_url req)) of
               Inl err \<Rightarrow> bad_request (error_text err)
             | Inr listOptions \<Rightarrow>
                 answer (api_ListAccessibleResourceIds ctrl token topic listOptions permissions)
                   (\<lambda>result code. write_json (json_strings result))))"

text \<open>\<open>permissionsmanagement.go\<close>\<close>

definition h_ListResourcesWithAdminPermission :: "api_lib \<Rightarrow> 'w api \<Rightarrow> 'w handler" where
  "h_ListResourcesWithAdminPermission L ctrl req =
     (let token = GetAuthToken L req; topic = PathValue req ''topic'' in
      if topic = [] then bad_request ''missing topic''
      else
        case ListOptionsFromQuery (Query (rq_url req)) of
          Inl err \<Rightarrow> bad_request (error_text err)
        | Inr listOptions \<Rightarrow>
            answer (api_ListResourcesWithAdminPermission ctrl token topic listOptions)
              (\<lambda>result code. write_json (json_list json_resource result)))"

definition h_GetResource :: "api_lib \<Rightarrow> 'w api \<Rightarrow> 'w handler" where
  "h_GetResource L ctrl req =
     (let token = GetAuthToken L req; topic = PathValue req ''topic'' in
      if topic = [] then bad_request ''missing topic''
      else
        let rid = PathValue req ''id'' in
        if rid = [] then bad_request ''missing id''
        else answer (api_GetResource ctrl token topic rid)
          (\<lambda>result code. write_json (json_resource result)))"

definition h_DeleteResource :: "api_lib \<Rightarrow> 'w api \<Rightarrow> 'w handler" where
  "h_DeleteResource L ctrl req =
     (let token = GetAuthToken L req; topic = PathValue req ''topic'' in
      if topic = [] then bad_request ''missing topic''
      else
        let rid = PathValue req ''id'' in
        if rid = [] then bad_request ''missing id''
        else answer (api_RemoveResource ctrl token topic rid) (\<lambda>_ code. WriteHeader code))"

definition h_SetPermission :: "api_lib \<Rightarrow> 'w api \<Rightarrow> 'w handler" where
  "h_SetPermission L ctrl req =
     (let token = GetAuthToken L req; topic = PathValue req ''topic'' in
      if topic = [] then bad_request ''missing topic''
      else
        let rid = PathValue req ''id'' in
        if rid = [] then bad_request ''missing id''
        else
          case Decode read_resource_permissions (rq_body req) nil_permissions of
            Inl err \<Rightarrow> bad_request (error_text err)
          | Inr permissions \<Rightarrow>
              answer (api_SetPermission ctrl token topic rid permissions)
                (\<lambda>result code. write_json (json_resource_permissions result)))"

text \<open>\<open>import_export.go\<close>\<close>

definition filter_param :: "url_values \<Rightarrow> string \<Rightarrow> string list option" where
  "filter_param q name =
     (if Has q name \<and> Get q name \<noteq> [] then Some (Split (Get q name) '','') else None)"

definition import_export_param :: "url_values \<Rightarrow> import_export_options" where
  "import_export_param q =
     \<lparr>ieo_include_topic_config = (Get q ''include_topic_config'' = ''true''),
      ieo_include_permissions = (Get q ''include_permissions'' = ''true''),
      ieo_filter_topics = filter_param q ''filter_topics'',
      ieo_filter_resource_id = filter_param q ''filter_resource_id''\<rparr>"

definition h_Export :: "api_lib \<Rightarrow> 'w api \<Rightarrow> 'w handler" where
  "h_Export L ctrl req =
     (let token = GetAuthToken L req; options = import_export_param (Query (rq_url req)) in
      answer (api_Export ctrl token options)
        (\<lambda>result code. Write_body (Json (json_import_export result)) \<circ>
           Header_Set ''Content-Type'' ''application/json; charset=utf-8''))"

definition h_Import :: "api_lib \<Rightarrow> 'w api \<Rightarrow> 'w handler" where
  "h_Import L ctrl req =
     (let token = GetAuthToken L req in
      case Decode (read_struct import_export_fields) (rq_body req) no_import_export of
        Inl err \<Rightarrow> bad_request (error_text err)
      | Inr importModel \<Rightarrow>
          let options = import_export_param (Query (rq_url req)) in
          answer (api_Import ctrl token importModel options) (\<lambda>_ code. WriteHeader StatusOK))"

text \<open>\<open>health.go\<close>, \<open>swagger.go\<close>\<close>

definition h_HealthCheck :: "'w handler" where
  "h_HealthCheck req w = Some (WriteHeader 200, w)"

fun replace_first :: "string \<Rightarrow> string \<Rightarrow> string \<Rightarrow> string" where
  "replace_first s old new = (case Cut s old of None \<Rightarrow> s | Some (a, b) \<Rightarrow> a @ new @ b)"

definition host_member :: string where
  "host_member = [byte 34] @ ''host'' @ [byte 34] @ '': '' @ [byte 34, byte 34] @ '',''"

definition h_Doc :: "api_lib \<Rightarrow> 'w handler" where
  "h_Doc L req w =
     (case ReadDoc L of
        Inl err \<Rightarrow>
          Some (http_Error ''Internal Server Error'' StatusInternalServerError \<circ>
            Header_Set ''Content-Type'' ''application/json; charset=utf-8'', w)
      | Inr doc \<Rightarrow>
          Some (Write_body (Raw (replace_first doc host_member [])) \<circ>
            Header_Set ''Content-Type'' ''application/json; charset=utf-8'', w))"

section \<open>The router (\<open>api.go\<close>)\<close>

text \<open>\<open>ui\<close> is the handler of the Swagger UI.\<close>

definition swagger_endpoints :: "config \<Rightarrow> api_lib \<Rightarrow> 'w handler \<Rightarrow> 'w mux" where
  "swagger_endpoints cfg L ui =
     (if cfg_EnableSwaggerUi cfg then [(''GET /swagger/:any'', ui)] else []) @
     [(''GET /doc'', h_Doc L)]"

text \<open>
  What the methods of the endpoint types register. The order does not matter to the multiplexer,
  which would refuse two patterns that conflict.
\<close>

definition endpoints :: "config \<Rightarrow> api_lib \<Rightarrow> 'w handler \<Rightarrow> 'w api \<Rightarrow> 'w mux" where
  "endpoints cfg L ui ctrl =
     [(''GET /admin/resources/{topic}'', h_AdminListResourceIds L ctrl),
      (''POST /admin/load/permission-search'', h_AdminLoadFromPermissionSearch L ctrl),
      (''GET /'', h_HealthCheck), (''GET /health'', h_HealthCheck),
      (''GET /export'', h_Export L ctrl), (''PUT /import'', h_Import L ctrl),
      (''GET /permissions/{topic}'', h_ListComputedPermissions L ctrl),
      (''POST /query/permissions/{topic}'', h_QueryListComputedPermissions L ctrl),
      (''GET /check/{topic}/{id}'', h_CheckPermission L ctrl),
      (''GET /check/{topic}'', h_CheckMultiplePermissions L ctrl),
      (''GET /accessible/{topic}'', h_ListAccessibleResourceIds L ctrl),
      (''GET /manage/{topic}'', h_ListResourcesWithAdminPermission L ctrl),
      (''GET /manage/{topic}/{id}'', h_GetResource L ctrl),
      (''DELETE /manage/{topic}/{id}'', h_DeleteResource L ctrl),
      (''PUT /manage/{topic}/{id}'', h_SetPermission L ctrl)] @
     swagger_endpoints cfg L ui @
     [(''GET /admin/topics'', h_ListTopics L ctrl), (''GET /admin/topics/{id}'', h_GetTopic L ctrl),
      (''PUT /admin/topics/{id}'', h_SetTopic L ctrl), (''POST /admin/topics'', h_SetTopicByPost L ctrl),
      (''DELETE /admin/topics/{id}'', h_DeleteTopic L ctrl)]"

definition GetRouterWithoutMiddleware :: "config \<Rightarrow> api_lib \<Rightarrow> 'w handler \<Rightarrow> 'w api \<Rightarrow> 'w handler" where
  "GetRouterWithoutMiddleware cfg L ui ctrl = ServeMux (endpoints cfg L ui ctrl)"

text \<open>\<open>util/version.go\<close>, \<open>util/cors.go\<close>\<close>

definition VersionCheck :: "'w handler \<Rightarrow> string \<Rightarrow> 'w handler" where
  "VersionCheck handler version r w =
     (let v = Get (Query (rq_url r)) ''version'' in
      if v = [] \<or> v = version then handler r w
      else Some (http_Error (''if query-parameter version is set it should be '' @ [byte 39] @ version @
             [byte 39] @ ''; got '' @ [byte 39] @ v @ [byte 39]) StatusUpgradeRequired, w))"

definition cors_headers :: "request \<Rightarrow> writer \<Rightarrow> writer" where
  "cors_headers req =
     (let origin = Get (rq_header req) ''Origin''; origin = (if origin = [] then ''*'' else origin)
      in Header_Set ''Access-Control-Allow-Methods'' ''POST, GET, OPTIONS, PUT, DELETE'' \<circ>
         Header_Set ''Access-Control-Allow-Credentials'' ''true'' \<circ>
         Header_Set ''Access-Control-Allow-Headers''
           ''Origin, X-Requested-With, Content-Type, Accept, authorization, Authorization'' \<circ>
         Header_Set ''Access-Control-Allow-Origin'' origin)"

definition Cors :: "'w handler \<Rightarrow> 'w handler" where
  "Cors handler req w =
     (if rq_method req = ''OPTIONS'' then Some (WriteHeader StatusOK \<circ> cors_headers req, w)
      else map_option (\<lambda>(f, w'). (f \<circ> cors_headers req, w')) (handler req w))"

text \<open>\<open>util/forward.go\<close>; \<open>remote_do\<close> is the request to the remote service.\<close>

type_synonym 'w remote_do = "string \<Rightarrow> string \<Rightarrow> headers \<Rightarrow> body \<Rightarrow> ('w, error + response) state"

definition copyHeader :: "headers \<Rightarrow> writer \<Rightarrow> writer" where
  "copyHeader src = fold (\<lambda>(k, vv). fold (Header_Add k) vv) (DAList.impl_of src)"

definition forward :: "'w remote_do \<Rightarrow> string \<Rightarrow> 'w handler" where
  "forward remote_do remote r w =
     (let url = (if HasPrefix (rq_uri r) ''/'' then remote @ rq_uri r else remote @ ''/'' @ rq_uri r) in
      case parse_url (drop (length remote) url) of
        Inl err \<Rightarrow> Some (http_Error (error_text err) StatusInternalServerError, w)
      | Inr _ \<Rightarrow>
          (case run_state (remote_do (rq_method r) url (rq_header r) (rq_body r)) w of
             (Inl err, w') \<Rightarrow> Some (http_Error (error_text err) StatusBadGateway, w')
           | (Inr resp, w') \<Rightarrow>
               Some (Write_body (rs_body resp) \<circ> WriteHeader (rs_status resp) \<circ>
                 copyHeader (rs_header resp), w')))"

definition ConditionalForward ::
  "'w remote_do \<Rightarrow> 'w handler \<Rightarrow> string \<Rightarrow> (request \<Rightarrow> bool) \<Rightarrow> 'w handler" where
  "ConditionalForward remote_do defaultHandler remote condition r w =
     (if condition r then forward remote_do remote r w else defaultHandler r w)"

text \<open>\<open>otel\<close> and \<open>accesslog\<close> are the handlers of other packages around the router.\<close>

definition GetRouter ::
  "('w handler \<Rightarrow> 'w handler) \<Rightarrow> ('w handler \<Rightarrow> 'w handler) \<Rightarrow> 'w remote_do \<Rightarrow> config \<Rightarrow> api_lib \<Rightarrow>
   'w handler \<Rightarrow> 'w api \<Rightarrow> 'w handler" where
  "GetRouter accesslog otel remote_do cfg L ui command =
     (let handler = GetRouterWithoutMiddleware cfg L ui command;
          handler =
            (if cfg_EditForward cfg \<noteq> [] \<and> cfg_EditForward cfg \<noteq> ''-''
             then ConditionalForward remote_do handler (cfg_EditForward cfg)
               (\<lambda>r. rq_method r = ''POST'' \<or> rq_method r = ''PUT'' \<or> rq_method r = ''DELETE'')
             else handler)
      in accesslog (VersionCheck (Cors (otel handler)) ClientVersion))"

end
