(* ===== verification/ApiRouter.thy ===== *)
theory ApiRouter
  imports Api MongoContract SyncContract
begin

text \<open>
  What the router of \<open>pkg/api\<close> promises: which handler a request reaches, that reading requests change
  nothing, that the guards of the middlewares and of the handlers hold, and what the forwarding of
  edits leaves to the service itself.
\<close>

section \<open>Calls and handlers that change nothing\<close>

text \<open>Every answer of an action leaves the observation \<open>f\<close> and the invariant \<open>I\<close> alone.\<close>

definition leaves :: "('w \<Rightarrow> bool) \<Rightarrow> ('w \<Rightarrow> 'o) \<Rightarrow> ('w \<Rightarrow> ('a \<times> 'w) option) \<Rightarrow> bool" where
  "leaves I f act \<longleftrightarrow> (\<forall>w x w'. I w \<longrightarrow> act w = Some (x, w') \<longrightarrow> I w' \<and> f w' = f w)"

named_theorems leaves_rules \<open>rules that show what an action leaves alone\<close>

lemma leavesD: "leaves I f act \<Longrightarrow> act w = Some (x, w') \<Longrightarrow> I w \<Longrightarrow> I w' \<and> f w' = f w"
  by (auto simp: leaves_def)

lemma leaves_run_call [leaves_rules]: "preserves I f m \<Longrightarrow> leaves I f (run_call m)"
  by (auto simp: leaves_def run_call_def dest: preservesD)

lemma leaves_answer [leaves_rules]: "leaves I f call \<Longrightarrow> leaves I f (answer call ok)"
proof -
  have "\<exists>r. call w = Some (r, w')" if "answer call ok w = Some (x, w')" for x w w'
    using that by (auto simp: answer_def split: option.splits prod.splits sum.splits)
  then show "leaves I f call \<Longrightarrow> leaves I f (answer call ok)" unfolding leaves_def by metis
qed

lemma leaves_bad_request [leaves_rules]: "leaves I f (bad_request msg)"
  by (simp add: leaves_def bad_request_def)

lemma leaves_constant: "leaves I f (\<lambda>w. Some (g, w))"
  by (simp add: leaves_def)

lemma leaves_if [leaves_rules]:
  "(b \<Longrightarrow> leaves I f m) \<Longrightarrow> (\<not> b \<Longrightarrow> leaves I f n) \<Longrightarrow> leaves I f (if b then m else n)"
  by simp

lemma leaves_sum [leaves_rules]:
  "(\<And>e. r = Inl e \<Longrightarrow> leaves I f (m e)) \<Longrightarrow> (\<And>v. r = Inr v \<Longrightarrow> leaves I f (n v)) \<Longrightarrow>
   leaves I f (case r of Inl e \<Rightarrow> m e | Inr v \<Rightarrow> n v)"
  by (cases r) auto

text \<open>The calls behind the reading endpoints.\<close>

definition reads_only :: "('w \<Rightarrow> bool) \<Rightarrow> ('w \<Rightarrow> 'o) \<Rightarrow> 'w api \<Rightarrow> bool" where
  "reads_only I f ctrl \<longleftrightarrow>
     (\<forall>tok opt. leaves I f (api_ListTopics ctrl tok opt)) \<and>
     (\<forall>tok i. leaves I f (api_GetTopic ctrl tok i)) \<and>
     (\<forall>tok t opt. leaves I f (api_AdminListResourceIds ctrl tok t opt)) \<and>
     (\<forall>tok opt. leaves I f (api_Export ctrl tok opt)) \<and>
     (\<forall>tok t i ps. leaves I f (api_CheckPermission ctrl tok t i ps)) \<and>
     (\<forall>tok t is ps. leaves I f (api_CheckMultiplePermissions ctrl tok t is ps)) \<and>
     (\<forall>tok t opt ps. leaves I f (api_ListAccessibleResourceIds ctrl tok t opt ps)) \<and>
     (\<forall>tok t is. leaves I f (api_ListComputedPermissions ctrl tok t is)) \<and>
     (\<forall>tok t opt. leaves I f (api_ListResourcesWithAdminPermission ctrl tok t opt)) \<and>
     (\<forall>tok t i. leaves I f (api_GetResource ctrl tok t i))"

lemma reading_handlers:
  assumes "reads_only I f ctrl"
  shows "leaves I f (h_ListTopics L ctrl r)" "leaves I f (h_GetTopic L ctrl r)"
    "leaves I f (h_AdminListResourceIds L ctrl r)" "leaves I f (h_Export L ctrl r)"
    "leaves I f (h_CheckPermission L ctrl r)" "leaves I f (h_CheckMultiplePermissions L ctrl r)"
    "leaves I f (h_ListAccessibleResourceIds L ctrl r)" "leaves I f (h_ListComputedPermissions L ctrl r)"
    "leaves I f (h_QueryListComputedPermissions L ctrl r)"
    "leaves I f (h_ListResourcesWithAdminPermission L ctrl r)" "leaves I f (h_GetResource L ctrl r)"
  using assms unfolding reads_only_def h_ListTopics_def h_GetTopic_def h_AdminListResourceIds_def
    h_Export_def h_CheckPermission_def h_CheckMultiplePermissions_def h_ListAccessibleResourceIds_def
    h_ListComputedPermissions_def h_QueryListComputedPermissions_def
    h_ListResourcesWithAdminPermission_def h_GetResource_def Let_def
  by (auto intro!: leaves_rules)

lemma constant_handlers: "leaves I f (h_HealthCheck r)" "leaves I f (h_Doc L r)"
  by (auto simp: leaves_def h_HealthCheck_def h_Doc_def split: sum.splits)

section \<open>Which handler a request reaches\<close>

lemma match_path_in: "match_path rs ss ms = Some (h, ms') \<Longrightarrow> h \<in> snd ` set rs"
proof (induction rs ss ms arbitrary: h ms' rule: match_path.induct)
  case (1 rs ms)
  then show ?case by (auto simp: leaf_def dest!: find_SomeD) (metis image_eqI snd_conv)
next
  case (2 rs s ss ms)
  have lit: "snd ` set (literal_child s rs) \<subseteq> snd ` set rs"
    by (force simp: literal_child_def split: list.splits seg.splits if_splits)
  have wild: "snd ` set (wild_child rs) \<subseteq> snd ` set rs"
    by (force simp: wild_child_def split: list.splits seg.splits)
  have multi: "multi_child rs = Some h \<Longrightarrow> h \<in> snd ` set rs" for h
    by (force simp: multi_child_def dest!: find_SomeD)
  show ?case
    using 2 lit wild multi by (force split: if_splits option.splits)
qed

lemma method_routes_in:
  assumes "r \<in> snd ` set (method_routes mux m)"
  shows "\<exists>pat. (pat, snd r) \<in> set mux \<and> fst (parse_pattern pat) = m"
proof -
  from assms obtain pat h where "(pat, h) \<in> set mux"
    and "r \<in> snd ` set (let (verb, segs) = parse_pattern pat
      in if verb = m then [(segs, (wild_names segs, h))] else [])"
    by (auto simp: method_routes_def)
  then show ?thesis by (cases "parse_pattern pat") (auto split: if_splits)
qed

lemma match_method_in:
  assumes "match_method mux m p = Some ((names, h), ms)"
  shows "\<exists>pat. (pat, h) \<in> set mux \<and>
     (fst (parse_pattern pat) = m \<or> (m = ''HEAD'' \<and> fst (parse_pattern pat) = ''GET''))"
proof -
  from assms consider "match_path (method_routes mux m) (path_segments p) [] = Some ((names, h), ms)"
    | "m = ''HEAD''" "match_path (method_routes mux ''GET'') (path_segments p) [] = Some ((names, h), ms)"
    by (auto simp: match_method_def split: option.splits if_splits)
  then show ?thesis
  proof cases
    case 1
    show ?thesis using method_routes_in [OF match_path_in [OF 1]] by auto
  next
    case 2
    show ?thesis using method_routes_in [OF match_path_in [OF 2(2)]] 2(1) by auto
  qed
qed

lemma ServeMux_preserves:
  assumes "\<And>pat h. (pat, h) \<in> set mux \<Longrightarrow> fst (parse_pattern pat) = m \<or>
      (m = ''HEAD'' \<and> fst (parse_pattern pat) = ''GET'') \<Longrightarrow> \<forall>r. leaves I f (h r)"
    and "rq_method r = m" "I w" "ServeMux mux r w = Some (g, w')"
  shows "I w' \<and> f w' = f w"
proof -
  let ?p = "cleanPath (EscapedPath (rq_url r))"
  show ?thesis
  proof (cases "match_method mux m ?p")
    case None
    then show ?thesis
      using assms(2-4) by (auto simp: ServeMux_def Let_def split: if_splits list.splits)
  next
    case (Some x)
    then obtain names h ms where x: "match_method mux m ?p = Some ((names, h), ms)" by (cases x) auto
    then have "\<forall>r. leaves I f (h r)" using match_method_in [OF x] assms(1) by blast
    then show ?thesis
      using assms(2-4) x by (auto simp: ServeMux_def Let_def split: if_splits dest: leavesD)
  qed
qed

text \<open>The registered patterns.\<close>

lemma parse_patterns:
  "parse_pattern ''GET /admin/resources/{topic}'' =
     (''GET'', [Lit ''admin'', Lit ''resources'', Wild ''topic''])"
  "parse_pattern ''POST /admin/load/permission-search'' =
     (''POST'', [Lit ''admin'', Lit ''load'', Lit ''permission-search''])"
  "parse_pattern ''GET /'' =
     (''GET'', [Multi])"
  "parse_pattern ''GET /health'' =
     (''GET'', [Lit ''health''])"
  "parse_pattern ''GET /export'' =
     (''GET'', [Lit ''export''])"
  "parse_pattern ''PUT /import'' =
     (''PUT'', [Lit ''import''])"
  "parse_pattern ''GET /permissions/{topic}'' =
     (''GET'', [Lit ''permissions'', Wild ''topic''])"
  "parse_pattern ''POST /query/permissions/{topic}'' =
     (''POST'', [Lit ''query'', Lit ''permissions'', Wild ''topic''])"
  "parse_pattern ''GET /check/{topic}/{id}'' =
     (''GET'', [Lit ''check'', Wild ''topic'', Wild ''id''])"
  "parse_pattern ''GET /check/{topic}'' =
     (''GET'', [Lit ''check'', Wild ''topic''])"
  "parse_pattern ''GET /accessible/{topic}'' =
     (''GET'', [Lit ''accessible'', Wild ''topic''])"
  "parse_pattern ''GET /manage/{topic}'' =
     (''GET'', [Lit ''manage'', Wild ''topic''])"
  "parse_pattern ''GET /manage/{topic}/{id}'' =
     (''GET'', [Lit ''manage'', Wild ''topic'', Wild ''id''])"
  "parse_pattern ''DELETE /manage/{topic}/{id}'' =
     (''DELETE'', [Lit ''manage'', Wild ''topic'', Wild ''id''])"
  "parse_pattern ''PUT /manage/{topic}/{id}'' =
     (''PUT'', [Lit ''manage'', Wild ''topic'', Wild ''id''])"
  "parse_pattern ''GET /swagger/:any'' =
     (''GET'', [Lit ''swagger'', Lit '':any''])"
  "parse_pattern ''GET /doc'' =
     (''GET'', [Lit ''doc''])"
  "parse_pattern ''GET /admin/topics'' =
     (''GET'', [Lit ''admin'', Lit ''topics''])"
  "parse_pattern ''GET /admin/topics/{id}'' =
     (''GET'', [Lit ''admin'', Lit ''topics'', Wild ''id''])"
  "parse_pattern ''PUT /admin/topics/{id}'' =
     (''PUT'', [Lit ''admin'', Lit ''topics'', Wild ''id''])"
  "parse_pattern ''POST /admin/topics'' =
     (''POST'', [Lit ''admin'', Lit ''topics''])"
  "parse_pattern ''DELETE /admin/topics/{id}'' =
     (''DELETE'', [Lit ''admin'', Lit ''topics'', Wild ''id''])"
  by code_simp+

lemmas endpoint_simps = endpoints_def swagger_endpoints_def parse_patterns

lemma get_endpoints:
  assumes "(pat, h) \<in> set (endpoints cfg L ui ctrl)" "fst (parse_pattern pat) = ''GET''"
    and "reads_only I f ctrl" "\<And>r. leaves I f (ui r)"
  shows "leaves I f (h r)"
  using assms(1,2) reading_handlers [OF assms(3)] constant_handlers assms(4)
  by (auto simp: endpoint_simps split: if_splits)

lemma no_endpoint_methods:
  "(pat, h) \<in> set (endpoints cfg L ui ctrl) \<Longrightarrow>
   fst (parse_pattern pat) \<in> {''GET'', ''POST'', ''PUT'', ''DELETE''}"
  by (auto simp: endpoint_simps split: if_splits)

lemma router_reads:
  assumes "reads_only I f ctrl" "\<And>r. leaves I f (ui r)"
    and "rq_method r \<notin> {''POST'', ''PUT'', ''DELETE''}" "I w"
    and "GetRouterWithoutMiddleware cfg L ui ctrl r w = Some (g, w')"
  shows "I w' \<and> f w' = f w"
proof (rule ServeMux_preserves [where m = "rq_method r" and mux = "endpoints cfg L ui ctrl" and r = r and g = g])
  fix pat h
  assume endpoint: "(pat, h) \<in> set (endpoints cfg L ui ctrl)"
    and "fst (parse_pattern pat) = rq_method r \<or>
      (rq_method r = ''HEAD'' \<and> fst (parse_pattern pat) = ''GET'')"
  then have "fst (parse_pattern pat) = ''GET''"
    using no_endpoint_methods [OF endpoint] assms(3) by auto
  then show "\<forall>r. leaves I f (h r)" using get_endpoints [OF endpoint _ assms(1,2)] by blast
qed (use assms in \<open>simp_all add: GetRouterWithoutMiddleware_def\<close>)

text \<open>The handlers of paths made of plain segments.\<close>

lemmas routing = match_method_def path_segments_join_path method_routes_def endpoint_simps
  wild_names_def literal_child_def wild_child_def leaf_def multi_child_def plain_segment_def

lemma routes:
  assumes "plain_segment t" "plain_segment i"
  shows
  "match_method (endpoints cfg L ui ctrl) ''GET'' (join_path [''admin'', ''topics'']) =
     Some (([], h_ListTopics L ctrl), [])"
  "match_method (endpoints cfg L ui ctrl) ''GET'' (join_path [''admin'', ''topics'', i]) =
     Some (([''id''], h_GetTopic L ctrl), [i])"
  "match_method (endpoints cfg L ui ctrl) ''PUT'' (join_path [''admin'', ''topics'', i]) =
     Some (([''id''], h_SetTopic L ctrl), [i])"
  "match_method (endpoints cfg L ui ctrl) ''DELETE'' (join_path [''admin'', ''topics'', i]) =
     Some (([''id''], h_DeleteTopic L ctrl), [i])"
  "match_method (endpoints cfg L ui ctrl) ''POST'' (join_path [''admin'', ''topics'']) =
     Some (([], h_SetTopicByPost L ctrl), [])"
  "match_method (endpoints cfg L ui ctrl) ''GET'' (join_path [''admin'', ''resources'', t]) =
     Some (([''topic''], h_AdminListResourceIds L ctrl), [t])"
  "match_method (endpoints cfg L ui ctrl) ''POST'' (join_path [''admin'', ''load'', ''permission-search'']) =
     Some (([], h_AdminLoadFromPermissionSearch L ctrl), [])"
  "match_method (endpoints cfg L ui ctrl) ''GET'' (join_path [''check'', t, i]) =
     Some (([''topic'', ''id''], h_CheckPermission L ctrl), [t, i])"
  "match_method (endpoints cfg L ui ctrl) ''GET'' (join_path [''check'', t]) =
     Some (([''topic''], h_CheckMultiplePermissions L ctrl), [t])"
  "match_method (endpoints cfg L ui ctrl) ''GET'' (join_path [''accessible'', t]) =
     Some (([''topic''], h_ListAccessibleResourceIds L ctrl), [t])"
  "match_method (endpoints cfg L ui ctrl) ''GET'' (join_path [''permissions'', t]) =
     Some (([''topic''], h_ListComputedPermissions L ctrl), [t])"
  "match_method (endpoints cfg L ui ctrl) ''POST'' (join_path [''query'', ''permissions'', t]) =
     Some (([''topic''], h_QueryListComputedPermissions L ctrl), [t])"
  "match_method (endpoints cfg L ui ctrl) ''GET'' (join_path [''manage'', t]) =
     Some (([''topic''], h_ListResourcesWithAdminPermission L ctrl), [t])"
  "match_method (endpoints cfg L ui ctrl) ''GET'' (join_path [''manage'', t, i]) =
     Some (([''topic'', ''id''], h_GetResource L ctrl), [t, i])"
  "match_method (endpoints cfg L ui ctrl) ''DELETE'' (join_path [''manage'', t, i]) =
     Some (([''topic'', ''id''], h_DeleteResource L ctrl), [t, i])"
  "match_method (endpoints cfg L ui ctrl) ''PUT'' (join_path [''manage'', t, i]) =
     Some (([''topic'', ''id''], h_SetPermission L ctrl), [t, i])"
  "match_method (endpoints cfg L ui ctrl) ''GET'' (join_path [''export'']) =
     Some (([], h_Export L ctrl), [])"
  "match_method (endpoints cfg L ui ctrl) ''PUT'' (join_path [''import'']) =
     Some (([], h_Import L ctrl), [])"
  using assms by (simp_all add: routing del: join_path_Cons)

section \<open>Reading over the controller\<close>

context database
begin

lemma GetTopics_wpreserves:
  assumes "ctl_db C = db"
  shows "wpreserves (CtlListTopics C s opt)" "wpreserves (CtlGetTopic C s i)"
    "wpreserves (CtlAdminListResourceIds C s t opt)"
  unfolding CtlListTopics_def CtlGetTopic_def CtlAdminListResourceIds_def
  by (auto intro!: preserves_rules simp: reads assms)

lemma lists_wpreserves:
  assumes "ctl_db C = db"
  shows "wpreserves (ListAccessibleResourceIds C s t opt ps)"
    "wpreserves (ListResourcesWithAdminPermission C s t opt)" "wpreserves (CtlGetResource C s t i)"
  using CheckTopicDefaultPermission_wpreserves [OF assms]
  unfolding ListAccessibleResourceIds_def ListResourcesWithAdminPermission_def CtlGetResource_def Let_def
  by (auto intro!: preserves_rules simp: reads assms)

lemma export_loop_wpreserves:
  assumes "ctl_db C = db" shows "wpreserves (export_loop C opt ts ps)"
  by (induction ts arbitrary: ps) (auto intro!: preserves_rules simp: reads assms)

lemma Export_wpreserves:
  assumes "ctl_db C = db" shows "wpreserves (Export C s opt)"
  unfolding Export_def export_permissions_def list_filter_topics_def
  by (auto intro!: preserves_rules export_loop_wpreserves simp: reads assms split: option.splits)

lemma controller_reads_only:
  assumes "ctl_db C = db"
  shows "reads_only (\<lambda>w. invar (w_db w)) (\<lambda>w. store_of (w_db w)) (controller_api C)"
  unfolding reads_only_def controller_api_def not_nil_def
  by (simp add: leaves_run_call preserves_bind GetTopics_wpreserves [OF assms] lists_wpreserves [OF assms]
      Export_wpreserves [OF assms] CheckPermission_wpreserves [OF assms]
      CheckMultiplePermissions_wpreserves [OF assms] ListComputedPermissions_wpreserves [OF assms])

end

lemma ServeMux_segments:
  assumes "rq_url r = segments_url segs q" "segs \<noteq> []" "list_all plain_segment segs"
    and "match_method mux (rq_method r) (join_path segs) = Some ((names, h), ms)"
  shows "ServeMux mux r w = h (r\<lparr>rq_path_values := zip names ms\<rparr>) w"
  using assms
  by (simp add: ServeMux_def EscapedPath_segments_url cleanPath_join_path del: join_path_Cons)

section \<open>Requests without a valid token\<close>

text \<open>
  The token library: the token is the value of the header, and the two ways to parse it agree with
  the one of the controller.
\<close>

definition token_laws :: "api_lib \<Rightarrow> ('s, 'e, 'p) controller \<Rightarrow> bool" where
  "token_laws L C \<longleftrightarrow>
     (\<forall>r. GetAuthToken L r = Get (rq_header r) ''Authorization'' \<and>
          GetParsedToken L r = jwt_Parse C (Get (rq_header r) ''Authorization''))"

text \<open>A call that is given a token that cannot be parsed changes nothing.\<close>

lemma refused:
  assumes "jwt_Parse C tok = Inl err"
  shows "run_state (CtlListTopics C tok opt) w = (Inl (err, StatusUnauthorized), w)"
    "run_state (CtlGetTopic C tok i) w = (Inl (err, StatusUnauthorized), w)"
    "run_state (RemoveTopic C tok i) w = (Inl (err, StatusUnauthorized), w)"
    "run_state (CtlSetTopic C tok topic) w = (Inl (err, StatusUnauthorized), w)"
    "run_state (CtlAdminListResourceIds C tok t opt) w = (Inl (err, StatusUnauthorized), w)"
    "run_state (Export C tok eopt) w = (Inl (err, StatusBadRequest), w)"
    "run_state (Import C tok d eopt) w = (Inl (err, StatusBadRequest), w)"
    "run_state (CheckPermission C tok t i ps) w = (Inl (err, StatusUnauthorized), w)"
    "run_state (not_nil (CheckMultiplePermissions C tok t is ps)) w = (Inl (err, StatusUnauthorized), w)"
    "run_state (ListAccessibleResourceIds C tok t opt ps) w = (Inl (err, StatusUnauthorized), w)"
    "run_state (ListComputedPermissions C tok t ids) w = (Inl (err, StatusUnauthorized), w)"
    "run_state (ListResourcesWithAdminPermission C tok t opt) w = (Inl (err, StatusUnauthorized), w)"
    "run_state (CtlGetResource C tok t i) w = (Inl (err, StatusUnauthorized), w)"
    "run_state (RemoveResource C tok t i) w = (Inl (err, StatusUnauthorized), w)"
    "run_state (SetPermission C tok t i p) w = (Inl (err, StatusUnauthorized), w)"
  using assms
  by (simp_all add: CtlListTopics_def CtlGetTopic_def RemoveTopic_def CtlSetTopic_def
      CtlAdminListResourceIds_def Export_def Import_def CheckPermission_def CheckMultiplePermissions_def not_nil_def
      ListAccessibleResourceIds_def ListComputedPermissions_def ListResourcesWithAdminPermission_def
      CtlGetResource_def RemoveResource_def SetPermission_def)

lemma leaves_refused: "(\<And>w. run_state m w = (x, w)) \<Longrightarrow> leaves (\<lambda>_. True) (\<lambda>w. w) (run_call m)"
  by (auto simp: leaves_def run_call_def)

lemma refused_handlers:
  assumes laws: "token_laws L C" and fail: "jwt_Parse C (Get (rq_header r) ''Authorization'') = Inl err"
    and endpoint: "(pat, h) \<in> set (endpoints cfg L ui (controller_api C))" and ui: "\<And>r w. \<exists>g. ui r w = Some (g, w)"
  shows "leaves (\<lambda>_. True) (\<lambda>w. w) (h r)"
proof -
  have tok: "GetAuthToken L r = Get (rq_header r) ''Authorization''"
    "GetParsedToken L r = Inl err" using laws fail by (simp_all add: token_laws_def)
  note calls = refused [OF fail, THEN leaves_refused]
  have load: "leaves (\<lambda>_. True) (\<lambda>w. w) (h_AdminLoadFromPermissionSearch L (controller_api C) r)"
    by (simp add: h_AdminLoadFromPermissionSearch_def tok leaves_def)
  have ui': "leaves (\<lambda>_. True) (\<lambda>w. w) (ui r)" unfolding leaves_def using ui by (metis option.inject prod.inject)
  have "h r \<in> (\<lambda>h. h r) ` set (map snd (endpoints cfg L ui (controller_api C)))"
    using endpoint by force
  then show ?thesis
    using load ui' constant_handlers
    by (auto simp: endpoints_def swagger_endpoints_def h_ListTopics_def h_GetTopic_def h_SetTopic_def
        h_SetTopicByPost_def h_DeleteTopic_def h_AdminListResourceIds_def h_ListComputedPermissions_def
        h_QueryListComputedPermissions_def h_CheckPermission_def h_CheckMultiplePermissions_def
        h_ListAccessibleResourceIds_def h_ListResourcesWithAdminPermission_def h_GetResource_def
        h_DeleteResource_def h_SetPermission_def h_Export_def h_Import_def controller_api_def tok Let_def
        intro!: leaves_rules calls split: if_splits)
qed

section \<open>Around the router\<close>

text \<open>What the middlewares of other packages do not change, and how \<open>HEAD\<close> and the server answer.\<close>

lemma serve_Some: "serve h r w = Some (resp, w') \<longleftrightarrow>
  (\<exists>g. h r w = Some (g, w') \<and> resp = (let resp = response_of (g fresh_writer)
     in if rq_method r = ''HEAD'' then resp\<lparr>rs_body := Raw []\<rparr> else resp))"
  by (auto simp: serve_def Let_def split: option.splits prod.splits)

lemma VersionCheck_pass: "Get (Query (rq_url r)) ''version'' \<in> {[], v} \<Longrightarrow> VersionCheck h v r w = h r w"
  by (auto simp: VersionCheck_def)

lemma Cors_leaves: "leaves I f (h r) \<Longrightarrow> leaves I f (Cors h r)"
  by (fastforce simp: leaves_def Cors_def split: if_splits)

lemma VersionCheck_leaves: "leaves I f (h r) \<Longrightarrow> leaves I f (VersionCheck h v r)"
  by (auto simp: leaves_def VersionCheck_def Let_def split: if_splits)

definition forwards_edits :: "config \<Rightarrow> bool" where
  "forwards_edits cfg \<longleftrightarrow> cfg_EditForward cfg \<noteq> [] \<and> cfg_EditForward cfg \<noteq> ''-''"

definition is_edit :: "request \<Rightarrow> bool" where
  "is_edit r \<longleftrightarrow> rq_method r \<in> {''POST'', ''PUT'', ''DELETE''}"

text \<open>The other packages' middlewares pass requests on.\<close>

lemma GetRouter_leaves:
  assumes "\<And>h. accesslog h = h" "\<And>h. otel h = h"
    and "\<not> (forwards_edits cfg \<and> is_edit r) \<Longrightarrow> leaves I f (GetRouterWithoutMiddleware cfg L ui ctrl r)"
    and "forwards_edits cfg \<and> is_edit r \<Longrightarrow> leaves I f (forward remote_do (cfg_EditForward cfg) r)"
  shows "leaves I f (GetRouter accesslog otel remote_do cfg L ui ctrl r)"
proof -
  have "leaves I f (\<lambda>w. ConditionalForward remote_do (GetRouterWithoutMiddleware cfg L ui ctrl)
      (cfg_EditForward cfg) (\<lambda>r. rq_method r = ''POST'' \<or> rq_method r = ''PUT'' \<or> rq_method r = ''DELETE'') r w)"
    if "forwards_edits cfg"
    using that assms(3,4) by (auto simp: ConditionalForward_def is_edit_def leaves_def)
  then show ?thesis
    using assms by (auto simp: GetRouter_def Let_def forwards_edits_def intro!: VersionCheck_leaves Cors_leaves)
qed

lemma forward_leaves:
  assumes "\<And>m u h b. preserves I f (remote_do m u h b)"
  shows "leaves I f (forward remote_do remote r)"
  unfolding leaves_def forward_def Let_def
  by (auto split: sum.splits prod.splits dest: preservesD [OF assms])

section \<open>A service to send requests to\<close>

definition sample_lib :: api_lib where
  "sample_lib =
     \<lparr>GetAuthToken = (\<lambda>r. Get (rq_header r) ''Authorization''),
      GetParsedToken = (\<lambda>r. sample_parse (Get (rq_header r) ''Authorization'')),
      ReadDoc = Inl (ErrLib ''no documentation'')\<rparr>"

definition no_ui :: "'w handler" where
  "no_ui r w = Some (\<lambda>writer. writer, w)"

definition no_remote :: "'w remote_do" where
  "no_remote m u h b = ret (Inl (ErrLib ''no route''))"

definition sample_request :: "string \<Rightarrow> string list \<Rightarrow> string \<Rightarrow> string \<Rightarrow> body \<Rightarrow> request" where
  "sample_request m segs query token b =
     \<lparr>rq_method = m, rq_url = segments_url segs query, rq_uri = join_path segs,
      rq_header = Set_value ''Authorization'' token DAList.empty, rq_body = b, rq_path_values = []\<rparr>"

lemma sample_token_laws: "token_laws sample_lib sample_controller"
  by (simp add: token_laws_def sample_lib_def sample_controller_def)

lemma no_ui_constant: "\<exists>g. no_ui r w = Some (g, w)"
  by (simp add: no_ui_def)

text \<open>
  The answers to edits of topics go out without the content type, since the status is sent first; the
  answers to reading ones have it.
\<close>

lemma topic_reply_without_content_type:
  "map_option (\<lambda>(resp, _). (rs_status resp, Get (rs_header resp) ''Content-Type''))
     (serve (GetRouterWithoutMiddleware sample_config sample_lib no_ui (controller_api sample_controller))
        (sample_request ''PUT'' [''admin'', ''topics'', ''new''] [] ''Bearer root'' (Json (JObj [])))
        sample_world) = Some (200, [])"
  "map_option (\<lambda>(resp, _). (rs_status resp, Get (rs_header resp) ''Content-Type''))
     (serve (GetRouterWithoutMiddleware sample_config sample_lib no_ui (controller_api sample_controller))
        (sample_request ''GET'' [''admin'', ''topics'', ''devices''] [] ''Bearer root'' (Raw []))
        sample_world) = Some (200, ''application/json'')"
  by code_simp+

section \<open>Properties\<close>

text \<open>
  C26. Requests that are no edits change nothing, and with \<open>EditForward\<close> set no request does: whatever
  is requested of the whole router with a method other than POST, PUT and DELETE, or with any method
  when edits are forwarded to another service, leaves the store of this service as it is.
\<close>

theorem reading_requests_change_nothing:
  assumes "database db store_of invar" "ctl_db C = db" "invar (w_db w)"
    and "\<And>h. accesslog h = h" "\<And>h. otel h = h" "\<And>r w. \<exists>g. ui r w = Some (g, w)"
    and "\<And>m u h b. preserves (\<lambda>w. invar (w_db w)) (\<lambda>w. store_of (w_db w)) (remote_do m u h b)"
    and "\<not> is_edit r \<or> forwards_edits cfg"
    and "serve (GetRouter accesslog otel remote_do cfg L ui (controller_api C)) r w = Some (resp, w')"
  shows "invar (w_db w') \<and> store_of (w_db w') = store_of (w_db w)"
proof -
  let ?I = "\<lambda>w. invar (w_db w)" and ?f = "\<lambda>w. store_of (w_db w)"
  have ui: "leaves ?I ?f (ui r)" for r
    unfolding leaves_def using assms(6) by (metis option.inject prod.inject)
  have "leaves ?I ?f (GetRouterWithoutMiddleware cfg L ui (controller_api C) r)" if "\<not> is_edit r"
    unfolding leaves_def
    using router_reads [OF database.controller_reads_only [OF assms(1,2)] ui] that
    by (auto simp: is_edit_def)
  then have "leaves ?I ?f (GetRouter accesslog otel remote_do cfg L ui (controller_api C) r)"
    using assms(8) by (intro GetRouter_leaves assms(4,5) forward_leaves assms(7)) auto
  then show ?thesis using assms(3,9) by (auto simp: serve_Some dest: leavesD)
qed

definition check_request :: request where
  "check_request = sample_request ''GET'' [''check'', ''devices'', ''d''] ''permissions=r'' ''Bearer bob'' (Raw [])"

lemma check_request_answer:
  "map_option (\<lambda>(resp, _). (rs_status resp, rs_body resp))
     (serve (GetRouter (\<lambda>h. h) (\<lambda>h. h) no_remote sample_config sample_lib no_ui
        (controller_api sample_controller)) check_request sample_world) =
   Some (200, Json (JBool True))"
  by code_simp

theorem reading_requests_change_nothing_witness:
  "\<exists>resp w'. serve (GetRouter (\<lambda>h. h) (\<lambda>h. h) no_remote sample_config sample_lib no_ui
        (controller_api sample_controller)) check_request sample_world = Some (resp, w') \<and>
     rs_body resp = Json (JBool True) \<and> mock_store (w_db w') = mock_store (w_db sample_world)"
proof -
  obtain resp w' where run: "serve (GetRouter (\<lambda>h. h) (\<lambda>h. h) no_remote sample_config sample_lib no_ui
      (controller_api sample_controller)) check_request sample_world = Some (resp, w')"
    and "rs_body resp = Json (JBool True)"
    using check_request_answer by (auto split: prod.splits)
  moreover have "\<not> is_edit check_request" by (simp add: is_edit_def check_request_def sample_request_def)
  ultimately show ?thesis
    using reading_requests_change_nothing [OF mock.database_axioms sample_db sample_invar refl refl
        no_ui_constant _ _ run] by (simp add: no_remote_def)
qed

text \<open>
  C27. Without a valid token nothing happens: a request whose token cannot be parsed leaves the whole
  world as it is, whatever its path, method and body are.
\<close>

theorem unauthenticated_requests_change_nothing:
  assumes "token_laws L C" "jwt_Parse C (Get (rq_header r) ''Authorization'') = Inl err"
    and "\<And>r w. \<exists>g. ui r w = Some (g, w)"
    and "serve (GetRouterWithoutMiddleware cfg L ui (controller_api C)) r w = Some (resp, w')"
  shows "w' = w"
proof -
  let ?mux = "endpoints cfg L ui (controller_api C)" and ?p = "cleanPath (EscapedPath (rq_url r))"
  from assms(4) obtain g where run: "ServeMux ?mux r w = Some (g, w')"
    by (auto simp: serve_Some GetRouterWithoutMiddleware_def)
  show ?thesis
  proof (cases "match_method ?mux (rq_method r) ?p")
    case None
    then show ?thesis using run by (auto simp: ServeMux_def Let_def split: if_splits list.splits)
  next
    case (Some x)
    then obtain names h ms where x: "match_method ?mux (rq_method r) ?p = Some ((names, h), ms)"
      by (cases x) auto
    obtain pat where "(pat, h) \<in> set ?mux" using match_method_in [OF x] by blast
    then have "leaves (\<lambda>_. True) (\<lambda>w. w) (h (r\<lparr>rq_path_values := zip names ms\<rparr>))"
      using assms(2) by (intro refused_handlers [OF assms(1) _ _ assms(3)]) simp_all
    then show ?thesis
      using run x by (auto simp: ServeMux_def Let_def split: if_splits dest: leavesD)
  qed
qed

definition anonymous_request :: request where
  "anonymous_request = sample_request ''PUT'' [''manage'', ''devices'', ''d''] [] [] (Json JNull)"

lemma anonymous_request_answer:
  "map_option (\<lambda>(resp, _). rs_status resp)
     (serve (GetRouterWithoutMiddleware sample_config sample_lib no_ui (controller_api sample_controller))
        anonymous_request sample_world) = Some 401"
  by code_simp

theorem unauthenticated_requests_change_nothing_witness:
  "\<exists>resp. serve (GetRouterWithoutMiddleware sample_config sample_lib no_ui (controller_api sample_controller))
      anonymous_request sample_world = Some (resp, sample_world) \<and> rs_status resp = 401"
proof -
  obtain resp w' where run: "serve (GetRouterWithoutMiddleware sample_config sample_lib no_ui
      (controller_api sample_controller)) anonymous_request sample_world = Some (resp, w')"
    and "rs_status resp = 401"
    using anonymous_request_answer by (auto split: prod.splits)
  moreover have "jwt_Parse sample_controller (Get (rq_header anonymous_request) ''Authorization'') =
      Inl (ErrLib ''invalid token'')"
    by (simp add: anonymous_request_def sample_request_def sample_controller_def sample_parse_def Get_def
        Set_value_def values_list_def lookup_update)
  note unauthenticated_requests_change_nothing [OF sample_token_laws this no_ui_constant run]
  ultimately show ?thesis by simp
qed

end
