(* ===== verification/Client.thy ===== *)
theory Client
  imports ApiRouter
begin

text \<open>
  The client of the service, \<open>pkg/client\<close>: \<open>client.go\<close> and \<open>import_export.go\<close>. It has the interface of
  the controller and sends each operation as a request. The theorems say that a client in front of a
  router in front of a controller does what the controller does, and where it does not.
\<close>

section \<open>Operations\<close>

text \<open>
  A client: \<open>ci_net\<close> is the default HTTP client towards \<open>serverUrl\<close>, \<open>ci_inject\<close> adds the headers for
  tracing, \<open>ci_text\<close> is the text of a JSON body.
\<close>

record 'w ClientImpl =
  ci_net :: "request \<Rightarrow> 'w \<Rightarrow> ((error + response) \<times> 'w) option"
  ci_inject :: "request \<Rightarrow> error + request"
  ci_text :: "json \<Rightarrow> string"

text \<open>\<open>http.NewRequest\<close> for the part of the URL after \<open>serverUrl\<close>.\<close>

definition NewRequest :: "string \<Rightarrow> string \<Rightarrow> body \<Rightarrow> error + request" where
  "NewRequest m rest b =
     (case parse_url rest of
        Inl err \<Rightarrow> Inl err
      | Inr u \<Rightarrow> Inr \<lparr>rq_method = m, rq_url = u, rq_uri = [], rq_header = DAList.empty, rq_body = b,
                     rq_path_values = []\<rparr>)"

definition read_text :: "'w ClientImpl \<Rightarrow> body \<Rightarrow> string" where
  "read_text K b = (case b of Raw s \<Rightarrow> s | Json v \<Rightarrow> ci_text K v)"

text \<open>The token and the version are set, the request is sent.\<close>

definition versioned :: "string \<Rightarrow> request \<Rightarrow> request" where
  "versioned token req =
     (let q = Set_value ''version'' ClientVersion (Query (rq_url req))
      in req\<lparr>rq_header := Set_value ''Authorization'' token (rq_header req),
             rq_url := (rq_url req)\<lparr>u_raw_query := Encode q\<rparr>\<rparr>)"

definition unexpected_status :: "'w ClientImpl \<Rightarrow> response \<Rightarrow> error" where
  "unexpected_status K resp =
     Err (''unexpected statuscode '' @ FormatInt (rs_status resp) @ '': '' @ read_text K (rs_body resp))"

definition do_request :: "'w ClientImpl \<Rightarrow> 'a reader \<Rightarrow> 'a \<Rightarrow> string \<Rightarrow> request \<Rightarrow> ('w, 'a) call" where
  "do_request K rd zero token req w =
     (case ci_net K (versioned token req) w of
        None \<Rightarrow> None
      | Some (Inl err, w') \<Rightarrow> Some (Inl (err, StatusInternalServerError), w')
      | Some (Inr resp, w') \<Rightarrow>
          if rs_status resp > 299 then Some (Inl (unexpected_status K resp, rs_status resp), w')
          else
            case Decode rd (rs_body resp) zero of
              Inl err \<Rightarrow> Some (Inl (err, StatusInternalServerError), w')
            | Inr result \<Rightarrow> Some (Inr (result, rs_status resp), w'))"

definition doVoid :: "'w ClientImpl \<Rightarrow> string \<Rightarrow> request \<Rightarrow> ('w, unit) call" where
  "doVoid K token req w =
     (case ci_net K (versioned token req) w of
        None \<Rightarrow> None
      | Some (Inl err, w') \<Rightarrow> Some (Inl (err, StatusInternalServerError), w')
      | Some (Inr resp, w') \<Rightarrow>
          if rs_status resp > 299 then Some (Inl (unexpected_status K resp, rs_status resp), w')
          else Some (Inr ((), rs_status resp), w'))"

definition doWithContext :: "'w ClientImpl \<Rightarrow> 'a reader \<Rightarrow> 'a \<Rightarrow> string \<Rightarrow> request \<Rightarrow> ('w, 'a) call" where
  "doWithContext K rd zero token req w =
     (case ci_inject K req of
        Inl err \<Rightarrow> Some (Inl (err, StatusInternalServerError), w)
      | Inr req \<Rightarrow> do_request K rd zero token req w)"

definition doVoidWithContext :: "'w ClientImpl \<Rightarrow> string \<Rightarrow> request \<Rightarrow> ('w, unit) call" where
  "doVoidWithContext K token req w =
     (case ci_inject K req of
        Inl err \<Rightarrow> Some (Inl (err, StatusInternalServerError), w)
      | Inr req \<Rightarrow> doVoid K token req w)"

text \<open>The request made by most operations; one that cannot be made is answered with \<open>code\<close>.\<close>

definition call_api ::
  "'w ClientImpl \<Rightarrow> 'a reader \<Rightarrow> 'a \<Rightarrow> string \<Rightarrow> int \<Rightarrow> error + request \<Rightarrow> ('w, 'a) call" where
  "call_api K rd zero token code request w =
     (case request of
        Inl err \<Rightarrow> Some (Inl (err, code), w)
      | Inr req \<Rightarrow> doWithContext K rd zero token req w)"

definition call_void :: "'w ClientImpl \<Rightarrow> string \<Rightarrow> int \<Rightarrow> error + request \<Rightarrow> ('w, unit) call" where
  "call_void K token code request w =
     (case request of
        Inl err \<Rightarrow> Some (Inl (err, code), w)
      | Inr req \<Rightarrow> doVoidWithContext K token req w)"

definition list_query :: "list_options \<Rightarrow> url_values \<Rightarrow> url_values" where
  "list_query options query =
     (let query = (if lo_limit options > 0
            then Set_value ''limit'' (FormatInt (lo_limit options)) query else query)
      in if lo_offset options > 0
         then Set_value ''offset'' (FormatInt (lo_offset options)) query else query)"

definition client_ListTopics :: "'w ClientImpl \<Rightarrow> string \<Rightarrow> list_options \<Rightarrow> ('w, topic list) call" where
  "client_ListTopics K token options =
     call_api K (read_list (read_struct topic_fields) no_topic) [] token 0
       (NewRequest ''GET'' (''/admin/topics?'' @ Encode (list_query options DAList.empty)) (Raw []))"

definition client_GetTopic :: "'w ClientImpl \<Rightarrow> string \<Rightarrow> string \<Rightarrow> ('w, topic) call" where
  "client_GetTopic K token i =
     call_api K (read_struct topic_fields) no_topic token 0
       (NewRequest ''GET'' (''/admin/topics/'' @ PathEscape i) (Raw []))"

definition client_RemoveTopic :: "'w ClientImpl \<Rightarrow> string \<Rightarrow> string \<Rightarrow> ('w, unit) call" where
  "client_RemoveTopic K token i =
     call_void K token 0 (NewRequest ''DELETE'' (''/admin/topics/'' @ PathEscape i) (Raw []))"

definition client_SetTopic :: "'w ClientImpl \<Rightarrow> string \<Rightarrow> topic \<Rightarrow> ('w, topic) call" where
  "client_SetTopic K token topic =
     call_api K (read_struct topic_fields) no_topic token 0
       (NewRequest ''PUT'' (''/admin/topics/'' @ PathEscape (t_id topic)) (Json (json_topic topic)))"

definition client_CheckPermission ::
  "'w ClientImpl \<Rightarrow> string \<Rightarrow> string \<Rightarrow> string \<Rightarrow> permission list \<Rightarrow> ('w, bool) call" where
  "client_CheckPermission K token topicId i permissions =
     call_api K read_bool False token 0
       (NewRequest ''GET'' (''/check/'' @ PathEscape topicId @ ''/'' @ PathEscape i @ ''?permissions='' @
          PermissionList_Encode permissions) (Raw []))"

definition client_CheckMultiplePermissions ::
  "'w ClientImpl \<Rightarrow> string \<Rightarrow> string \<Rightarrow> string list \<Rightarrow> permission list \<Rightarrow> ('w, bool gomap) call" where
  "client_CheckMultiplePermissions K token topicId ids permissions =
     (let query = Set_value ''permissions'' (PermissionList_Encode permissions) DAList.empty;
          query = Set_value ''ids'' (Join ids '','') query
      in call_api K (read_map read_bool False) None token 0
           (NewRequest ''GET'' (''/check/'' @ PathEscape topicId @ ''?'' @ Encode query) (Raw [])))"

definition client_ListComputedPermissions ::
  "'w ClientImpl \<Rightarrow> string \<Rightarrow> string \<Rightarrow> string list option \<Rightarrow> ('w, computed_permissions list) call" where
  "client_ListComputedPermissions K token topicId ids =
     call_api K (read_list (read_struct computed_fields) \<lparr>cp_id = [], cp_permissions = no_permissions\<rparr>) [] token 0
       (NewRequest ''POST'' (''/query/permissions/'' @ PathEscape topicId)
          (Json (json_slice (\<lambda>s. JStr (json_string s)) ids)))"

definition client_AdminListResourceIds ::
  "'w ClientImpl \<Rightarrow> string \<Rightarrow> string \<Rightarrow> list_options \<Rightarrow> ('w, string list) call" where
  "client_AdminListResourceIds K token topicId options =
     call_api K (read_list read_string []) [] token 0
       (NewRequest ''GET'' (''/admin/resources/'' @ PathEscape topicId @ ''?'' @
          Encode (list_query options DAList.empty)) (Raw []))"

definition client_ListAccessibleResourceIds ::
  "'w ClientImpl \<Rightarrow> string \<Rightarrow> string \<Rightarrow> list_options \<Rightarrow> permission list \<Rightarrow> ('w, string list) call" where
  "client_ListAccessibleResourceIds K token topicId options permissions =
     (let query = Set_value ''permissions'' (PermissionList_Encode permissions) DAList.empty
      in call_api K (read_list read_string []) [] token 0
           (NewRequest ''GET'' (''/accessible/'' @ PathEscape topicId @ ''?'' @
              Encode (list_query options query)) (Raw [])))"

definition client_ListResourcesWithAdminPermission ::
  "'w ClientImpl \<Rightarrow> string \<Rightarrow> string \<Rightarrow> list_options \<Rightarrow> ('w, resource list) call" where
  "client_ListResourcesWithAdminPermission K token topicId options =
     call_api K (read_list (read_struct resource_fields) no_resource) [] token 0
       (NewRequest ''GET'' (''/manage/'' @ PathEscape topicId @ ''?'' @
          Encode (list_query options DAList.empty)) (Raw []))"

definition client_GetResource ::
  "'w ClientImpl \<Rightarrow> string \<Rightarrow> string \<Rightarrow> string \<Rightarrow> ('w, resource) call" where
  "client_GetResource K token topicId i =
     call_api K (read_struct resource_fields) no_resource token 0
       (NewRequest ''GET'' (''/manage/'' @ PathEscape topicId @ ''/'' @ PathEscape i) (Raw []))"

definition client_RemoveResource ::
  "'w ClientImpl \<Rightarrow> string \<Rightarrow> string \<Rightarrow> string \<Rightarrow> ('w, unit) call" where
  "client_RemoveResource K token topicId i =
     call_void K token 0
       (NewRequest ''DELETE'' (''/manage/'' @ PathEscape topicId @ ''/'' @ PathEscape i) (Raw []))"

definition client_SetPermission ::
  "'w ClientImpl \<Rightarrow> string \<Rightarrow> string \<Rightarrow> string \<Rightarrow> resource_permissions \<Rightarrow> ('w, resource_permissions) call" where
  "client_SetPermission K token topicId i permissions =
     call_api K read_resource_permissions nil_permissions token 0
       (NewRequest ''PUT'' (''/manage/'' @ PathEscape topicId @ ''/'' @ PathEscape i)
          (Json (json_resource_permissions permissions)))"

text \<open>\<open>import_export.go\<close>\<close>

definition import_export_query :: "import_export_options \<Rightarrow> string" where
  "import_export_query options =
     (let query = DAList.empty;
          query = (if ieo_include_topic_config options
            then Set_value ''include_topic_config'' ''true'' query else query);
          query = (if ieo_include_permissions options
            then Set_value ''include_permissions'' ''true'' query else query);
          query = (case ieo_filter_topics options of None \<Rightarrow> query
            | Some l \<Rightarrow> Set_value ''filter_topics'' (Join l '','') query);
          query = (case ieo_filter_resource_id options of None \<Rightarrow> query
            | Some l \<Rightarrow> Set_value ''filter_resource_id'' (Join l '','') query)
      in if length (DAList.impl_of query) > 0 then ''?'' @ Encode query else [])"

definition client_Export :: "'w ClientImpl \<Rightarrow> string \<Rightarrow> import_export_options \<Rightarrow> ('w, import_export) call" where
  "client_Export K token options =
     call_api K (read_struct import_export_fields) no_import_export token StatusInternalServerError
       (NewRequest ''GET'' (''/export'' @ import_export_query options) (Raw []))"

definition client_Import ::
  "'w ClientImpl \<Rightarrow> string \<Rightarrow> import_export \<Rightarrow> import_export_options \<Rightarrow> ('w, unit) call" where
  "client_Import K token importModel options =
     call_void K token StatusInternalServerError
       (NewRequest ''PUT'' (''/import'' @ import_export_query options)
          (Json (json_import_export importModel)))"

text \<open>
  \<open>AdminLoadFromPermissionSearch\<close> panics, so the request it is called for is not answered. The
  interface the client shares with the controller:
\<close>

definition client_AdminLoadFromPermissionSearch ::
  "'w ClientImpl \<Rightarrow> admin_load_request \<Rightarrow> ('w, int) call" where
  "client_AdminLoadFromPermissionSearch K req w = None"

definition client_api :: "'w ClientImpl \<Rightarrow> 'w api" where
  "client_api K =
     \<lparr>api_ListTopics = client_ListTopics K, api_GetTopic = client_GetTopic K,
      api_RemoveTopic = client_RemoveTopic K, api_SetTopic = client_SetTopic K,
      api_AdminListResourceIds = client_AdminListResourceIds K,
      api_AdminLoadFromPermissionSearch = client_AdminLoadFromPermissionSearch K,
      api_Export = client_Export K, api_Import = client_Import K,
      api_CheckPermission = client_CheckPermission K,
      api_CheckMultiplePermissions = client_CheckMultiplePermissions K,
      api_ListAccessibleResourceIds = client_ListAccessibleResourceIds K,
      api_ListComputedPermissions = client_ListComputedPermissions K,
      api_ListResourcesWithAdminPermission = client_ListResourcesWithAdminPermission K,
      api_GetResource = client_GetResource K, api_RemoveResource = client_RemoveResource K,
      api_SetPermission = client_SetPermission K\<rparr>"

section \<open>From the client to the handler\<close>

lemma Get_values: "values_list p = values_list q \<Longrightarrow> Get p k = Get q k"
  by (simp add: Get_def)

lemma values_list_Set_value [simp]:
  "values_list (Set_value k v q) j = (if j = k then [v] else values_list q j)"
  by (simp add: values_list_def Set_value_def lookup_update)

lemma Get_Set_value [simp]: "Get (Set_value k v q) j = (if j = k then v else Get q j)"
  by (simp add: Get_def)

lemma values_list_wire_header: "values_list (wire_header h) k = map trim_header (values_list h k)"
  by (simp add: values_list_def lookup_wire_header split: option.split)

text \<open>A writer to which nothing was written, and what becomes of it.\<close>

definition unwritten :: "writer \<Rightarrow> bool" where
  "unwritten w \<longleftrightarrow> wr_sent w = None \<and> wr_body w = []"

lemma unwritten_cors: "unwritten (cors_headers r fresh_writer)"
  by (simp add: unwritten_def cors_headers_def Header_Set_def fresh_writer_def Let_def)

lemma response_write_json:
  "unwritten w \<Longrightarrow> rs_status (response_of (write_json v w)) = 200 \<and> rs_body (response_of (write_json v w)) = Json v"
  by (simp add: unwritten_def response_of_def write_json_def Write_body_def WriteHeader_def Header_Set_def Let_def)

lemma response_http_Error:
  "unwritten w \<Longrightarrow> rs_status (response_of (http_Error msg code w)) = code \<and>
     rs_body (response_of (http_Error msg code w)) = Raw (msg @ newline)"
  by (simp add: unwritten_def response_of_def http_Error_def Write_body_def WriteHeader_def Header_Set_def Let_def)

text \<open>The request a handler gets when a client has sent one.\<close>

definition from_client ::
  "api_lib \<Rightarrow> string \<Rightarrow> string list \<Rightarrow> string \<Rightarrow> body \<Rightarrow> (string \<times> string) list \<Rightarrow> request \<Rightarrow> bool" where
  "from_client L token segs q b path_values r \<longleftrightarrow>
     GetAuthToken L r = token \<and> rq_body r = b \<and> rq_path_values r = path_values \<and>
     values_list (Query (rq_url r)) =
       values_list (Set_value ''version'' ClientVersion (fst (ParseQuery q)))"

text \<open>
  A client in front of the router of a service that does not forward edits. The middlewares of other
  packages pass requests on, the tracing only adds headers.
\<close>

locale remote_service =
  fixes K :: "('s, 'e, 'p) world ClientImpl" and C :: "('s, 'e, 'p) controller"
    and accesslog otel :: "('s, 'e, 'p) world handler \<Rightarrow> ('s, 'e, 'p) world handler"
    and remote_do cfg L ui
  assumes net: "ci_net K = http_Do (GetRouter accesslog otel remote_do cfg L ui (controller_api C))"
    and inject: "rq_header r = DAList.empty \<Longrightarrow> \<exists>h. ci_inject K r = Inr (r\<lparr>rq_header := h\<rparr>) \<and>
      list_all (\<lambda>(k, vs). list_all header_value_ok vs) (DAList.impl_of h)"
    and passed_on: "accesslog h = h" "otel h = h"
    and no_forward: "\<not> forwards_edits cfg"
    and laws: "token_laws L C"
begin

lemma version_sent: "Get (Query (rq_url (versioned tok req))) ''version'' = ClientVersion"
  using Get_values [OF ext, OF ParseQuery_Encode_values(2)]
  by (simp add: versioned_def Query_def Let_def)

lemma net_segments:
  assumes url: "rq_url req = segments_url segs q" and segs: "segs \<noteq> []" "list_all plain_segment segs"
    and verb: "rq_method req \<in> {''GET'', ''PUT'', ''POST'', ''DELETE''}"
    and headers: "list_all (\<lambda>(k, vs). list_all header_value_ok vs) (DAList.impl_of (rq_header req))"
    and tok: "plain_header tok"
    and route: "match_method (endpoints cfg L ui (controller_api C)) (rq_method req) (join_path segs) =
      Some ((names, h), ms)"
  shows "\<exists>r writer. from_client L tok segs q (rq_body req) (zip names ms) r \<and> unwritten writer \<and>
    (\<forall>w g w'. h r w = Some (g, w') \<longrightarrow> rs_status (response_of (g writer)) \<noteq> 301 \<longrightarrow>
       ci_net K (versioned tok req) w = Some (Inr (response_of (g writer)), w'))"
proof -
  let ?req = "versioned tok req"
  let ?q = "Encode (Set_value ''version'' ClientVersion (Query (rq_url req)))"
  define sreq where "sreq = ?req\<lparr>rq_uri := request_uri (rq_url ?req),
    rq_header := wire_header (rq_header ?req), rq_path_values := []\<rparr>"
  define r where "r = sreq\<lparr>rq_path_values := zip names ms\<rparr>"
  have req_url: "rq_url ?req = segments_url segs ?q"
    by (simp add: versioned_def url Let_def)
  have sreq_is: "rq_url sreq = segments_url segs ?q" "rq_method sreq = rq_method req" "rq_body r = rq_body req"
    using req_url by (simp_all add: sreq_def r_def versioned_def Let_def)
  have "Get (rq_header sreq) ''Authorization'' = tok"
    using tok by (simp add: sreq_def versioned_def Let_def Get_def values_list_wire_header plain_header_def)
  then have token: "GetAuthToken L r = tok" using laws by (simp add: r_def token_laws_def)
  have "values_list (Query (rq_url r)) = values_list (Set_value ''version'' ClientVersion (fst (ParseQuery q)))"
    using ParseQuery_Encode_values(2) by (auto simp: r_def sreq_is Query_def url)
  then have sent: "from_client L tok segs q (rq_body req) (zip names ms) r"
    using token sreq_is by (simp add: from_client_def r_def)
  have ok: "list_all (\<lambda>(k, vs). list_all header_value_ok vs) (DAList.impl_of (rq_header ?req))"
  proof -
    have "list_all (\<lambda>(k, vs). list_all header_value_ok vs) (AList.update ''Authorization'' [tok] xs)"
      if "list_all (\<lambda>(k, vs). list_all header_value_ok vs) xs" for xs
      using that tok by (induction xs) (auto simp: plain_header_def)
    then show ?thesis
      using headers by (simp add: versioned_def Let_def Set_value_def DAList.update.rep_eq)
  qed
  have version: "Get (Query (rq_url sreq)) ''version'' = ClientVersion"
    using version_sent [of tok req] by (simp add: sreq_def)
  have router: "GetRouter accesslog otel remote_do cfg L ui (controller_api C) sreq w =
      map_option (\<lambda>(f, w'). (f \<circ> cors_headers sreq, w')) (h r w)" for w
  proof -
    have "ServeMux (endpoints cfg L ui (controller_api C)) sreq w = h r w"
      unfolding r_def using route sreq_is by (intro ServeMux_segments [OF _ segs]) simp_all
    moreover have "rq_method sreq \<noteq> ''OPTIONS''" using verb sreq_is(2) by auto
    ultimately show ?thesis
      using no_forward version
      by (auto simp: GetRouter_def Let_def passed_on VersionCheck_pass Cors_def GetRouterWithoutMiddleware_def
          forwards_edits_def)
  qed
  let ?writer = "cors_headers sreq fresh_writer"
  have "ci_net K ?req w = Some (Inr (response_of (g ?writer)), w')"
    if run: "h r w = Some (g, w')" and status: "rs_status (response_of (g ?writer)) \<noteq> 301" for w g w'
  proof -
    have "rq_method sreq \<noteq> ''HEAD''" using verb sreq_is(2) by auto
    then have "round_trip (GetRouter accesslog otel remote_do cfg L ui (controller_api C)) ?req w =
        Some (response_of (g ?writer), w')"
      using round_trip_segments_url [OF segs(1) req_url,
          of "GetRouter accesslog otel remote_do cfg L ui (controller_api C)" w] router [of w] run
      by (simp add: sreq_def [symmetric] serve_def Let_def)
    then show ?thesis
      using ok status by (simp add: net http_Do_def)
  qed
  then show ?thesis using sent unwritten_cors by blast
qed

lemma call_api_answer:
  assumes request: "NewRequest m rest b = Inr req" "rq_url req = segments_url segs q"
    and segs: "segs \<noteq> []" "list_all plain_segment segs" and m: "m \<in> {''GET'', ''PUT'', ''POST'', ''DELETE''}"
    and tok: "plain_header tok"
    and route: "match_method (endpoints cfg L ui (controller_api C)) m (join_path segs) = Some ((names, h), ms)"
    and handler: "\<And>r. from_client L tok segs q b (zip names ms) r \<Longrightarrow>
      h r = answer call (\<lambda>x code. write_json (enc x))"
  shows "call w = Some (Inr (x, code), w') \<Longrightarrow> rd (enc x) zero = Inr y \<Longrightarrow>
      call_api K rd zero tok c (NewRequest m rest b) w = Some (Inr (y, 200), w')"
    and "call w = Some (Inl (err, code), w') \<Longrightarrow> code > 299 \<Longrightarrow> code \<noteq> 301 \<Longrightarrow>
      call_api K rd zero tok c (NewRequest m rest b) w = Some (Inl (Err (''unexpected statuscode '' @
        FormatInt code @ '': '' @ error_text err @ newline), code), w')"
proof -
  have req: "rq_method req = m" "rq_body req = b" "rq_header req = DAList.empty"
    using request(1) by (auto simp: NewRequest_def split: sum.splits)
  obtain hd where inj: "ci_inject K req = Inr (req\<lparr>rq_header := hd\<rparr>)"
    "list_all (\<lambda>(k, vs). list_all header_value_ok vs) (DAList.impl_of hd)"
    using inject [of req] req(3) by blast
  obtain r writer where sent: "from_client L tok segs q b (zip names ms) r" "unwritten writer"
    and net: "\<And>w g w'. h r w = Some (g, w') \<Longrightarrow> rs_status (response_of (g writer)) \<noteq> 301 \<Longrightarrow>
      ci_net K (versioned tok (req\<lparr>rq_header := hd\<rparr>)) w = Some (Inr (response_of (g writer)), w')"
    using net_segments [where req = "req\<lparr>rq_header := hd\<rparr>" and q = q and segs = segs and tok = tok and
        names = names and h = h and ms = ms] request(2) segs m tok route inj req
    by auto
  note run = handler [OF sent(1)]
  show "call_api K rd zero tok c (NewRequest m rest b) w = Some (Inr (y, 200), w')"
    if call: "call w = Some (Inr (x, code), w')" and rd: "rd (enc x) zero = Inr y"
  proof -
    have "h r w = Some (write_json (enc x), w')" by (simp add: run answer_def call)
    from net [OF this] response_write_json [OF sent(2)]
    show ?thesis
      by (simp add: request call_api_def doWithContext_def inj do_request_def Decode_def rd)
  qed
  show "call_api K rd zero tok c (NewRequest m rest b) w = Some (Inl (Err (''unexpected statuscode '' @
        FormatInt code @ '': '' @ error_text err @ newline), code), w')"
    if call: "call w = Some (Inl (err, code), w')" and code: "code > 299" "code \<noteq> 301"
  proof -
    have "h r w = Some (http_Error (error_text err) code, w')" by (simp add: run answer_def call)
    from net [OF this] response_http_Error [OF sent(2)] code
    show ?thesis
      by (simp add: request call_api_def doWithContext_def inj do_request_def unexpected_status_def read_text_def)
  qed
qed

end

section \<open>The requests of the client\<close>

lemma literal_segments:
  "PathEscape ''check'' = ''check''" "PathEscape ''manage'' = ''manage''" "PathEscape ''admin'' = ''admin''"
  "PathEscape ''topics'' = ''topics''" "PathEscape ''resources'' = ''resources''"
  "PathEscape ''accessible'' = ''accessible''" "PathEscape ''query'' = ''query''"
  "PathEscape ''permissions'' = ''permissions''" "PathEscape ''export'' = ''export''"
  "PathEscape ''import'' = ''import''"
  by code_simp+

lemma NewRequest_path:
  "\<exists>req. NewRequest m (join_path segs) b = Inr req \<and> rq_url req = segments_url segs []"
  by (simp add: NewRequest_def parse_url_join_path)

lemma NewRequest_query:
  "printable q \<Longrightarrow> CHR ''#'' \<notin> set q \<Longrightarrow>
   \<exists>req. NewRequest m (join_path segs @ CHR ''?'' # q) b = Inr req \<and> rq_url req = segments_url segs q"
  by (simp add: NewRequest_def parse_url_join_path)

lemma known_permission_chars:
  "list_all known_permission ps \<Longrightarrow> set (PermissionList_Encode ps) \<subseteq> set ''rwxa''"
proof (induction ps)
  case (Cons p ps)
  have "set (string_of_runes [p]) \<subseteq> set ''rwxa''" if "known_permission p"
  proof -
    have "p \<in> {114, 119, 120, 97}" using that by (auto simp: known_permission_def permission_defs)
    moreover have "string_of_runes [114] = ''r''" "string_of_runes [119] = ''w''"
      "string_of_runes [120] = ''x''" "string_of_runes [97] = ''a''" by code_simp+
    ultimately show ?thesis by auto
  qed
  then show ?case using Cons by (auto simp: PermissionList_Encode_def string_of_runes_def)
qed (simp add: PermissionList_Encode_def string_of_runes_def)

lemma ParseQuery_permissions:
  assumes "set s \<subseteq> set ''rwxa''"
  shows "Get (fst (ParseQuery (''permissions='' @ s))) ''permissions'' = s"
proof -
  have "CHR ''&'' \<notin> set (''permissions='' @ s)" using assms by auto
  moreover have "QueryUnescape s = Some s" using assms by (induction s) auto
  moreover have "QueryUnescape ''permissions'' = Some ''permissions''" by code_simp
  moreover have "Cut (''permissions='' @ s) ''='' = Some (''permissions'', s)"
    using Cut_char_append [of "CHR ''=''" "''permissions''" s] by simp
  moreover have "CHR '';'' \<notin> set (''permissions='' @ s)" using assms by auto
  ultimately show ?thesis
    by (simp add: ParseQuery_def Split_char_none parse_piece_def Get_def values_list_Add)
      (simp add: values_list_def)
qed

section \<open>Checks and edits through a client\<close>

text \<open>What a client makes of a reply: the status of a success is 200, an error is the text of the response.\<close>

definition client_error :: "error \<Rightarrow> int \<Rightarrow> error" where
  "client_error err code =
     Err (''unexpected statuscode '' @ FormatInt code @ '': '' @ error_text err @ newline)"

text \<open>The codes with which the controller reports errors.\<close>

definition error_code :: "'a reply \<Rightarrow> bool" where
  "error_code r \<longleftrightarrow> (\<forall>err code. r = Inl (err, code) \<longrightarrow> code \<in> {400, 401, 403, 404, 500})"

definition yields :: "('a \<Rightarrow> bool) \<Rightarrow> ('s, 'a) state \<Rightarrow> bool" where
  "yields P m \<longleftrightarrow> (\<forall>s. P (fst (run_state m s)))"

named_theorems yields_rules \<open>rules that show what a program returns\<close>

lemma yieldsD: "yields P m \<Longrightarrow> run_state m s = (r, s') \<Longrightarrow> P r"
  by (metis fst_conv yields_def)

lemma yields_ret [yields_rules]: "P x \<Longrightarrow> yields P (ret x)"
  by (simp add: yields_def)

lemma yields_bind [yields_rules]: "(\<And>x. yields P (k x)) \<Longrightarrow> yields P (State_Monad.bind m k)"
  by (simp add: yields_def split: prod.split)

lemma yields_bind_if: "yields Q m \<Longrightarrow> (\<And>x. Q x \<Longrightarrow> yields P (k x)) \<Longrightarrow> yields P (State_Monad.bind m k)"
  by (simp add: yields_def split: prod.split) (metis fst_conv)

lemma yields_if [yields_rules]:
  "(b \<Longrightarrow> yields P m) \<Longrightarrow> (\<not> b \<Longrightarrow> yields P n) \<Longrightarrow> yields P (if b then m else n)"
  by simp

lemma yields_sum [yields_rules]:
  "(\<And>e. r = Inl e \<Longrightarrow> yields P (m e)) \<Longrightarrow> (\<And>v. r = Inr v \<Longrightarrow> yields P (n v)) \<Longrightarrow>
   yields P (case r of Inl e \<Rightarrow> m e | Inr v \<Rightarrow> n v)"
  by (cases r) auto

lemma yields_option [yields_rules]:
  "(r = None \<Longrightarrow> yields P m) \<Longrightarrow> (\<And>v. r = Some v \<Longrightarrow> yields P (n v)) \<Longrightarrow>
   yields P (case r of None \<Rightarrow> m | Some v \<Rightarrow> n v)"
  by (cases r) auto

lemma yields_prod [yields_rules]:
  "(\<And>x y. r = (x, y) \<Longrightarrow> yields P (m x y)) \<Longrightarrow> yields P (case r of (x, y) \<Rightarrow> m x y)"
  by (cases r) auto

lemma error_code_simps [simp]:
  "error_code (Inr x)" "error_code (Inl (e, c)) \<longleftrightarrow> c \<in> {400, 401, 403, 404, 500}"
  by (simp_all add: error_code_def)

lemma CheckTopicDefaultPermission_codes: "yields error_code (CheckTopicDefaultPermission C token t ps)"
  unfolding CheckTopicDefaultPermission_def by (intro yields_rules) simp_all

lemma checkPermission_codes: "yields error_code (checkPermission C token t i ps)"
  unfolding checkPermission_def Let_def
  by (intro yields_rules yields_bind_if [OF CheckTopicDefaultPermission_codes]) simp_all

lemma CheckPermission_codes: "yields error_code (CheckPermission C tok t i ps)"
  unfolding CheckPermission_def by (intro yields_rules checkPermission_codes) simp_all

lemma checkEditPermission_codes: "yields error_code (checkEditPermission C token t i p)"
  unfolding checkEditPermission_def check_added_def Let_def by (intro yields_rules) simp_all

lemma SetPermission_codes: "yields error_code (SetPermission C tok t i p)"
  unfolding SetPermission_def Let_def
  by (intro yields_rules yields_bind_if [OF checkEditPermission_codes]) simp_all

lemma permissions_sent:
  assumes "list_all known_permission ps" "ps \<noteq> []"
  shows "permissions_param (fst (ParseQuery (''permissions='' @ PermissionList_Encode ps))) = Inr ps"
proof -
  have "PermissionList_Encode ps \<noteq> []"
  proof
    assume "PermissionList_Encode ps = []"
    moreover have "PermissionListFromString [] = Inr []" by code_simp
    ultimately show False using PermissionListFromString_Encode [OF assms(1)] assms(2) by simp
  qed
  then show ?thesis
    using ParseQuery_permissions [OF known_permission_chars [OF assms(1)]] PermissionListFromString_Encode [OF assms(1)]
    by (simp add: permissions_param_def)
qed

context remote_service
begin

lemma client_check:
  assumes "plain_segment t" "plain_segment i" "plain_header tok" "all_known ps" "ps \<noteq> []"
    and run: "run_state (CheckPermission C tok t i ps) w = (r, w')"
  shows "client_CheckPermission K tok t i ps w =
    Some (case r of Inr (b, code) \<Rightarrow> Inr (b, 200) | Inl (err, code) \<Rightarrow> Inl (client_error err code, code), w')"
proof -
  let ?s = "PermissionList_Encode ps" and ?segs = "[''check'', t, i]"
  have known: "list_all known_permission ps" using assms(4) .
  note chars = known_permission_chars [OF known]
  have "printable (''permissions='' @ ?s)" "CHR ''#'' \<notin> set (''permissions='' @ ?s)"
    using chars by (auto simp: printable_def list_ex_iff)
  from NewRequest_query [OF this, of "''GET''" ?segs "Raw []"] obtain req
    where req: "NewRequest ''GET'' (join_path ?segs @ CHR ''?'' # ''permissions='' @ ?s) (Raw []) = Inr req"
      "rq_url req = segments_url ?segs (''permissions='' @ ?s)" by blast
  have plain: "list_all plain_segment ?segs" using assms(1,2) by (simp add: plain_segment_def)
  have handler: "h_CheckPermission L (controller_api C) r =
      answer (run_call (CheckPermission C tok t i ps)) (\<lambda>x code. write_json (JBool x))"
    if "from_client L tok ?segs (''permissions='' @ ?s) (Raw []) (zip [''topic'', ''id''] [t, i]) r" for r
  proof -
    have "Get (Query (rq_url r)) ''permissions'' =
        Get (Set_value ''version'' ClientVersion (fst (ParseQuery (''permissions='' @ ?s)))) ''permissions''"
      using that by (intro Get_values) (simp add: from_client_def)
    then have "permissions_param (Query (rq_url r)) = Inr ps"
      using permissions_sent [OF known assms(5)] by (simp add: permissions_param_def)
    then show ?thesis
      using that assms(1,2)
      by (simp add: h_CheckPermission_def from_client_def PathValue_def plain_segment_def controller_api_def)
  qed
  note call = call_api_answer [where rd = read_bool and zero = False and enc = JBool and c = 0,
      OF req _ plain _ assms(3) routes(8) [OF assms(1,2)] handler]
  have path: "client_CheckPermission K tok t i ps = call_api K read_bool False tok 0
      (NewRequest ''GET'' (join_path ?segs @ CHR ''?'' # ''permissions='' @ ?s) (Raw []))"
    by (simp add: client_CheckPermission_def literal_segments)
  have codes: "error_code r" by (rule yieldsD [OF CheckPermission_codes run])
  show ?thesis
  proof (cases r)
    case (Inl e)
    obtain err code where e: "e = (err, code)" by (cases e)
    with codes Inl have "code > 299" "code \<noteq> 301" by auto
    moreover have "run_call (CheckPermission C tok t i ps) w = Some (Inl (err, code), w')"
      using run by (simp add: run_call_def Inl e)
    ultimately show ?thesis
      unfolding path using call(2) [of w err code w'] by (simp add: Inl e client_error_def)
  next
    case (Inr x)
    obtain b code where x: "x = (b, code)" by (cases x)
    have "run_call (CheckPermission C tok t i ps) w = Some (Inr (b, code), w')"
      using run by (simp add: run_call_def Inr x)
    then show ?thesis unfolding path using call(1) [of w b code w' b] by (simp add: Inr x)
  qed
qed

text \<open>Permissions arrive as they were sent up to the order in which the entries of the maps are visited.\<close>

lemma client_set_permission:
  assumes "plain_segment t" "plain_segment i" "plain_header tok" "valid_permissions p"
  shows "\<exists>q. deep_equal_permissions q p \<and>
    (\<forall>w r w'. run_state (SetPermission C tok t i q) w = (r, w') \<longrightarrow>
       (\<forall>err code. r = Inl (err, code) \<longrightarrow>
          client_SetPermission K tok t i p w = Some (Inl (client_error err code, code), w')) \<and>
       (\<forall>x code. r = Inr (x, code) \<longrightarrow> valid_permissions x \<longrightarrow>
          (\<exists>y. deep_equal_permissions y x \<and> client_SetPermission K tok t i p w = Some (Inr (y, 200), w'))))"
proof -
  let ?segs = "[''manage'', t, i]"
  obtain q where q: "read_resource_permissions (json_resource_permissions p) nil_permissions = Inr q"
    "deep_equal_permissions q p" using read_written_permissions [OF assms(4)] by blast
  from NewRequest_path [of "''PUT''" ?segs "Json (json_resource_permissions p)"] obtain req
    where req: "NewRequest ''PUT'' (join_path ?segs) (Json (json_resource_permissions p)) = Inr req"
      "rq_url req = segments_url ?segs []" by blast
  have plain: "list_all plain_segment ?segs" using assms(1,2) by (simp add: plain_segment_def)
  have handler: "h_SetPermission L (controller_api C) r =
      answer (run_call (SetPermission C tok t i q)) (\<lambda>x code. write_json (json_resource_permissions x))"
    if "from_client L tok ?segs [] (Json (json_resource_permissions p)) (zip [''topic'', ''id''] [t, i]) r" for r
    using that assms(1,2) q(1)
    by (simp add: h_SetPermission_def from_client_def PathValue_def plain_segment_def controller_api_def
        Decode_def)
  note call = call_api_answer [where rd = read_resource_permissions and zero = nil_permissions
      and enc = json_resource_permissions and c = 0,
      OF req _ plain _ assms(3) routes(16) [OF assms(1,2)] handler]
  have path: "client_SetPermission K tok t i p = call_api K read_resource_permissions nil_permissions tok 0
      (NewRequest ''PUT'' (join_path ?segs) (Json (json_resource_permissions p)))"
    by (simp add: client_SetPermission_def literal_segments)
  show ?thesis
  proof (rule exI [of _ q], intro conjI q(2) allI impI)
    fix w r w' err code assume run: "run_state (SetPermission C tok t i q) w = (r, w')" "r = Inl (err, code)"
    have "code > 299" "code \<noteq> 301" using yieldsD [OF SetPermission_codes run(1)] run(2) by auto
    then show "client_SetPermission K tok t i p w = Some (Inl (client_error err code, code), w')"
      unfolding path using call(2) [of w err code w'] run by (simp add: run_call_def client_error_def)
  next
    fix w r w' x code assume run: "run_state (SetPermission C tok t i q) w = (r, w')" "r = Inr (x, code)"
      and "valid_permissions x"
    then obtain y where y: "read_resource_permissions (json_resource_permissions x) nil_permissions = Inr y"
      "deep_equal_permissions y x" using read_written_permissions by blast
    then show "\<exists>y. deep_equal_permissions y x \<and> client_SetPermission K tok t i p w = Some (Inr (y, 200), w')"
      unfolding path using call(1) [of w x code w' y] run by (auto simp: run_call_def)
  qed
qed

end

section \<open>A client of the sample service\<close>

definition sample_client :: "(mock, sample_ext, string) world ClientImpl" where
  "sample_client =
     \<lparr>ci_net = http_Do (GetRouter (\<lambda>h. h) (\<lambda>h. h) no_remote sample_config sample_lib no_ui
        (controller_api sample_controller)),
      ci_inject = Inr, ci_text = (\<lambda>_. [])\<rparr>"

interpretation sample_remote: remote_service sample_client sample_controller "\<lambda>h. h" "\<lambda>h. h" no_remote
  sample_config sample_lib no_ui
proof (unfold_locales, goal_cases)
  case (2 r)
  then show ?case by (intro exI [of _ DAList.empty]) (simp add: sample_client_def DAList.empty.rep_eq)
qed (simp_all add: sample_client_def sample_token_laws forwards_edits_def sample_config_def empty_config_def)

definition dots_world :: "(mock, sample_ext, string) world" where
  "dots_world = sample_world\<lparr>w_db := \<lparr>mk_resources = [\<lparr>rt_resource = device\<lparr>r_id := ''..''\<rparr>, rt_time = 1\<rparr>],
     mk_topics = [devices]\<rparr>\<rparr>"

lemma remove_dots:
  "map_option (\<lambda>(r, w). (map_sum (\<lambda>_. ()) (\<lambda>x. x) r, map (\<lambda>x. r_id (rt_resource x)) (mk_resources (w_db w))))
     (client_RemoveResource sample_client ''Bearer root'' ''devices'' ''..'' dots_world) =
   Some (Inr ((), 200), [''..''])"
  by code_simp

section \<open>Properties\<close>



text \<open>
  C29. An edit through the client is an edit of the controller with the same permissions: what arrives
  differs from what was sent at most in the order in which the entries of its maps are visited, the
  service does what it does for it, and the client returns the result, or the error with its code.
\<close>

theorem client_edits_like_controller:
  assumes "remote_service K C accesslog otel remote_do cfg L ui"
    and "plain_segment t" "plain_segment i" "plain_header tok" "valid_permissions p"
  shows "\<exists>q. deep_equal_permissions q p \<and>
    (\<forall>w r w'. run_state (SetPermission C tok t i q) w = (r, w') \<longrightarrow>
       (\<forall>err code. r = Inl (err, code) \<longrightarrow>
          client_SetPermission K tok t i p w = Some (Inl (client_error err code, code), w')) \<and>
       (\<forall>x code. r = Inr (x, code) \<longrightarrow> valid_permissions x \<longrightarrow>
          (\<exists>y. deep_equal_permissions y x \<and> client_SetPermission K tok t i p w = Some (Inr (y, 200), w'))))"
  by (rule remote_service.client_set_permission [OF assms])

definition alices :: resource_permissions where
  "alices = \<lparr>rp_user = m_put ''alice'' all_permissions m_empty, rp_group = None, rp_role = None\<rparr>"

lemma deep_equal_alices: "deep_equal_permissions q alices \<longleftrightarrow> q = alices"
proof -
  let ?a = "DAList.update ''alice'' all_permissions DAList.empty"
  have "b = ?a" if "m_deep_equal (Some b) (Some ?a)" for b
  proof -
    have "length (DAList.impl_of b) = 1"
      using that by (simp add: m_deep_equal_def DAList.update.rep_eq DAList.empty.rep_eq)
    then obtain k v where b: "DAList.impl_of b = [(k, v)]"
      by (metis One_nat_def length_0_conv length_Suc_conv old.prod.exhaust)
    have "DAList.lookup ?a k = Some v" using that b by (simp add: m_deep_equal_def)
    then have "DAList.impl_of b = DAList.impl_of ?a"
      by (simp add: b lookup_update DAList.update.rep_eq DAList.empty.rep_eq split: if_splits)
    then show ?thesis by (simp add: DAList.impl_of_inject)
  qed
  moreover have "m_deep_equal m None \<longleftrightarrow> m = None" for m :: "permissions_map gomap"
    by (cases m) (simp_all add: m_deep_equal_def)
  moreover have "\<not> m_deep_equal None (Some ?a)" by (simp add: m_deep_equal_def)
  moreover have "m_deep_equal (Some ?a) (Some ?a)" by (simp add: m_deep_equal_Some)
  ultimately show ?thesis
    by (cases q; cases "rp_user q")
      (auto simp: deep_equal_permissions_def alices_def m_put_def m_empty_def)
qed

definition alices_result :: resource_permissions where
  "alices_result = alices\<lparr>rp_role := m_put ''user'' read_only m_empty\<rparr>"

lemma alices_edit:
  "fst (run_state (SetPermission sample_controller ''Bearer alice'' ''devices'' ''d'' alices) sample_world) =
     Inr (alices_result, 200)"
  by code_simp

theorem client_edits_like_controller_witness:
  "\<exists>y w'. deep_equal_permissions y alices_result \<and>
     client_SetPermission sample_client ''Bearer alice'' ''devices'' ''d'' alices sample_world =
       Some (Inr (y, 200), w')"
proof -
  have plain: "plain_segment ''devices''" "plain_segment ''d''" "plain_header ''Bearer alice''"
    "valid_permissions alices" "valid_permissions alices_result" by code_simp+
  obtain w' where "run_state (SetPermission sample_controller ''Bearer alice'' ''devices'' ''d'' alices)
      sample_world = (Inr (alices_result, 200), w')"
    using alices_edit by (metis prod.collapse)
  then show ?thesis
    using client_edits_like_controller [OF sample_remote.remote_service_axioms plain(1-4)] plain(5)
    unfolding deep_equal_alices by blast
qed

text \<open>
  The client reports a removal that did not happen: for the resource with the id \<open>..\<close> the
  multiplexer redirects the request to a cleaned path, the HTTP client follows with \<open>GET\<close>, the health
  check answers 200, and the resource is still there; the controller itself would have removed it.
\<close>

theorem client_removes_nothing:
  "\<exists>w'. client_RemoveResource sample_client ''Bearer root'' ''devices'' ''..'' dots_world =
       Some (Inr ((), 200), w') \<and>
     map (\<lambda>x. r_id (rt_resource x)) (mk_resources (w_db w')) = [''..''] \<and>
     mk_resources (w_db (snd (run_state (RemoveResource sample_controller ''Bearer root'' ''devices'' ''..'')
       dots_world))) = []"
proof -
  from remove_dots obtain r w' where run:
    "client_RemoveResource sample_client ''Bearer root'' ''devices'' ''..'' dots_world = Some (r, w')"
    and r: "map_sum (\<lambda>_. ()) (\<lambda>x. x) r = Inr ((), 200)"
    and "map (\<lambda>x. r_id (rt_resource x)) (mk_resources (w_db w')) = [''..'']"
    by (auto split: prod.splits)
  moreover from r have "r = Inr ((), 200)" by (cases r) simp_all
  moreover have "mk_resources (w_db (snd (run_state (RemoveResource sample_controller ''Bearer root''
      ''devices'' ''..'') dots_world))) = []" by code_simp
  ultimately show ?thesis by simp
qed

end
