(* ===== verification/Embed.thy ===== *)
theory Embed
  imports Client
begin

text \<open>
  A service that offers the API of the permissions service below a prefix of its own paths and passes
  the requests on with a client, \<open>pkg/client/httprouterembed.go\<close>: the router it gets, and what a
  request goes through from there to the controller.
\<close>

section \<open>The router\<close>

definition trimPrefixPath :: "string \<Rightarrow> string \<Rightarrow> string" where
  "trimPrefixPath path prefix =
     (let newPath = TrimPrefix path prefix
      in if \<not> HasPrefix newPath ''/'' then ''/'' @ newPath else newPath)"

definition EmbedPermissionsClientIntoRouter ::
  "api_lib \<Rightarrow> 'w handler \<Rightarrow> 'w api \<Rightarrow> 'w handler \<Rightarrow> string \<Rightarrow> (string \<Rightarrow> string \<Rightarrow> bool) option \<Rightarrow> 'w handler"
where
  "EmbedPermissionsClientIntoRouter L ui client router prefix pathFilter r w =
     (let permRouter = GetRouterWithoutMiddleware (empty_config\<lparr>cfg_EnableSwaggerUi := False\<rparr>) L ui client;
          u = rq_url r
      in if HasPrefix (u_path u) prefix \<and>
            (case pathFilter of None \<Rightarrow> True | Some f \<Rightarrow> f (rq_method r) (u_path u))
         then permRouter (r\<lparr>rq_url := u\<lparr>u_path := trimPrefixPath (u_path u) prefix,
                u_raw_path := trimPrefixPath (u_raw_path u) prefix\<rparr>,
              rq_uri := trimPrefixPath (rq_uri r) prefix\<rparr>) w
         else router r w)"

section \<open>Paths below a prefix\<close>

lemma TrimPrefix_append [simp]: "TrimPrefix (p @ s) p = s"
  by (simp add: TrimPrefix_def)

lemma escape_path_append [simp]: "escape_path (s @ t) = escape_path s @ escape_path t"
  by (simp add: escape_path_def)

lemma join_path_append [simp]: "join_path (ss @ ts) = join_path ss @ join_path ts"
  by (simp add: join_path_def)

text \<open>A prefix of segments without special characters, and the URL that is left of one below it.\<close>

definition plain_prefix :: "string list \<Rightarrow> bool" where
  "plain_prefix pre \<longleftrightarrow> list_all (list_all unreserved) pre"

lemma plain_prefix_path:
  assumes "plain_prefix pre"
  shows "concat (map (\<lambda>s. CHR ''/'' # s) pre) = join_path pre" "escape_path (join_path pre) = join_path pre"
proof -
  have "PathEscape s = s" "escape_path s = s" if "list_all unreserved s" for s
    using that by (induction s) (auto simp: PathEscape_def escape_path_def path_char_def)
  moreover have "escape_path ''/'' = ''/''" by code_simp
  then have "escape_path (CHR ''/'' # s) = CHR ''/'' # escape_path s" for s
    using escape_path_append [of "''/''" s] by simp
  ultimately show "concat (map (\<lambda>s. CHR ''/'' # s) pre) = join_path pre" "escape_path (join_path pre) = join_path pre"
    using assms by (induction pre) (simp_all add: plain_prefix_def escape_path_def)
qed

lemma trimmed_escaped_path:
  fixes pre segs :: "string list" and q
  defines "u \<equiv> segments_url (pre @ segs) q"
  assumes "plain_prefix pre" "segs \<noteq> []"
  shows "HasPrefix (u_path u) (join_path pre)"
    and "EscapedPath (u\<lparr>u_path := trimPrefixPath (u_path u) (join_path pre),
        u_raw_path := trimPrefixPath (u_raw_path u) (join_path pre)\<rparr>) = join_path segs"
proof -
  let ?path = "concat (map (\<lambda>s. CHR ''/'' # s) segs)"
  obtain s ss where segs: "segs = s # ss" using assms(3) by (cases segs) auto
  have path: "u_path u = join_path pre @ ?path"
    by (simp add: u_def segments_url_def Let_def plain_prefix_path(1) [OF assms(2)])
  then show "HasPrefix (u_path u) (join_path pre)" by simp
  have trimmed: "trimPrefixPath (u_path u) (join_path pre) = ?path"
    by (simp add: path trimPrefixPath_def segs HasPrefix_def)
  have not_root: "?path \<noteq> ''/'' \<or> join_path segs = ''/''" "?path \<noteq> ''*''"
    by (auto simp: segs PathEscape_fixed)
  show "EscapedPath (u\<lparr>u_path := trimPrefixPath (u_path u) (join_path pre),
        u_raw_path := trimPrefixPath (u_raw_path u) (join_path pre)\<rparr>) = join_path segs"
  proof (cases "u_raw_path u = []")
    case True
    then have "escape_path (u_path u) = join_path (pre @ segs)"
      by (simp add: u_def segments_url_def Let_def segs split: if_splits)
    then have "escape_path (join_path pre) @ escape_path ?path = join_path pre @ join_path segs"
      by (simp add: path)
    then have "escape_path ?path = join_path segs"
      using plain_prefix_path(2) [OF assms(2)] by simp
    moreover have "trimPrefixPath (u_raw_path u) (join_path pre) = ''/''"
      by (simp add: True trimPrefixPath_def TrimPrefix_def HasPrefix_def)
    moreover have "PathUnescape ''/'' = Some ''/''" by simp
    ultimately show ?thesis
      using not_root unfolding trimmed by (auto simp: EscapedPath_def simp del: PathUnescape.simps)
  next
    case False
    then have "u_raw_path u = join_path pre @ join_path segs"
      by (simp add: u_def segments_url_def Let_def split: if_splits)
    then have "trimPrefixPath (u_raw_path u) (join_path pre) = join_path segs"
      by (simp add: trimPrefixPath_def segs HasPrefix_def)
    moreover have "join_path segs \<noteq> []" by (simp add: segs)
    ultimately show ?thesis
      by (simp add: trimmed EscapedPath_def valid_encoded_join_path PathUnescape_join_path)
  qed
qed

text \<open>A request below the prefix that the filter lets pass reaches the handler of what is left.\<close>

abbreviation passes :: "(string \<Rightarrow> string \<Rightarrow> bool) option \<Rightarrow> request \<Rightarrow> bool" where
  "passes pathFilter r \<equiv>
     (case pathFilter of None \<Rightarrow> True | Some f \<Rightarrow> f (rq_method r) (u_path (rq_url r)))"

lemma embedded_segments:
  assumes "plain_prefix pre" "segs \<noteq> []" "list_all plain_segment segs"
    and url: "rq_url r = segments_url (pre @ segs) q" and pass: "passes pathFilter r"
    and "match_method (endpoints (empty_config\<lparr>cfg_EnableSwaggerUi := False\<rparr>) L ui client)
      (rq_method r) (join_path segs) = Some ((names, h), ms)"
  obtains r' where
    "EmbedPermissionsClientIntoRouter L ui client router (join_path pre) pathFilter r w = h r' w"
    and "rq_path_values r' = zip names ms" and "rq_header r' = rq_header r" and "rq_body r' = rq_body r"
    and "u_raw_query (rq_url r') = q"
proof -
  let ?u = "rq_url r"
  let ?r = "r\<lparr>rq_url := ?u\<lparr>u_path := trimPrefixPath (u_path ?u) (join_path pre),
      u_raw_path := trimPrefixPath (u_raw_path ?u) (join_path pre)\<rparr>,
    rq_uri := trimPrefixPath (rq_uri r) (join_path pre)\<rparr>"
  have path: "HasPrefix (u_path ?u) (join_path pre)" "EscapedPath (rq_url ?r) = join_path segs"
    using trimmed_escaped_path [OF assms(1,2), of q] by (simp_all add: url)
  have "EmbedPermissionsClientIntoRouter L ui client router (join_path pre) pathFilter r w =
      h (?r\<lparr>rq_path_values := zip names ms\<rparr>) w"
    using path pass assms(6) cleanPath_join_path [OF assms(3,2)]
    by (simp add: EmbedPermissionsClientIntoRouter_def Let_def GetRouterWithoutMiddleware_def ServeMux_def)
  then show thesis by (rule that) (simp_all add: url)
qed

section \<open>Reading through the client\<close>

lemma leaves_then:
  assumes "leaves I f act" "\<And>x. leaves I f (k x)"
  shows "leaves I f (\<lambda>w. case act w of None \<Rightarrow> None | Some (x, w') \<Rightarrow> k x w')"
  unfolding leaves_def
proof (intro allI impI)
  fix w x w' assume "I w" and run: "(case act w of None \<Rightarrow> None | Some (x, w') \<Rightarrow> k x w') = Some (x, w')"
  then obtain y v where "act w = Some (y, v)" "k y v = Some (x, w')" by (auto split: option.splits prod.splits)
  with \<open>I w\<close> leavesD [OF assms(1)] leavesD [OF assms(2)] show "I w' \<and> f w' = f w" by metis
qed

lemma leaves_serve: "leaves I f (h r) \<Longrightarrow> leaves I f (serve h r)"
  by (auto simp: leaves_def serve_Some)

lemma round_trip_leaves:
  assumes "\<And>r'. rq_method r' = rq_method r \<Longrightarrow> leaves I f (h r')"
  shows "leaves I f (round_trip h r)"
proof -
  let ?uri = "request_uri (rq_url r)"
  obtain p q where pq: "(case Cut ?uri ''?'' of None \<Rightarrow> (?uri, []) | Some x \<Rightarrow> x) = (p, q)"
    by (rule prod.exhaust)
  show ?thesis
  proof (cases "make_url p q")
    case (Inl err)
    then show ?thesis unfolding round_trip_def Let_def pq by (simp add: leaves_constant)
  next
    case (Inr u)
    then show ?thesis unfolding round_trip_def Let_def pq by (simp add: leaves_serve assms)
  qed
qed

lemma follow_leaves:
  assumes get: "\<And>r. rq_method r \<in> {''GET'', ''HEAD''} \<Longrightarrow> leaves I f (h r)"
  shows "leaves I f (round_trip h r) \<Longrightarrow> leaves I f (follow n h r)"
proof (induction n arbitrary: r)
  case 0
  have "follow 0 h r = (\<lambda>w. case round_trip h r w of None \<Rightarrow> None
      | Some (resp, w') \<Rightarrow>
          Some (if rs_status resp = 301 \<and> Get (rs_header resp) ''Location'' \<noteq> []
                then Inl (ErrLib ''stopped after 10 redirects'') else Inr resp, w'))"
    by (rule ext) (subst follow.simps, auto split: option.split)
  then show ?case
    by (simp add: leaves_then [OF 0] leaves_constant)
next
  case (Suc n)
  have "leaves I f (follow n h (r\<lparr>rq_method := if rq_method r = ''HEAD'' then ''HEAD'' else ''GET'',
      rq_url := u, rq_body := Raw []\<rparr>))" for u
    by (intro Suc.IH round_trip_leaves get) simp
  note next_leaves = this
  have "follow (Suc n) h r = (\<lambda>w. case round_trip h r w of None \<Rightarrow> None
      | Some (resp, w') \<Rightarrow>
          (if rs_status resp = 301 \<and> Get (rs_header resp) ''Location'' \<noteq> []
           then (case parse_url (Get (rs_header resp) ''Location'') of
                   Inl err \<Rightarrow> \<lambda>w'. Some (Inl err, w')
                 | Inr u \<Rightarrow> follow n h (r\<lparr>rq_method := if rq_method r = ''HEAD'' then ''HEAD'' else ''GET'',
                     rq_url := u, rq_body := Raw []\<rparr>))
           else (\<lambda>w'. Some (Inr resp, w'))) w')"
    by (rule ext) (subst follow.simps, auto split: option.split sum.split)
  then show ?case
    by (simp only:) (intro leaves_then [OF Suc.prems] leaves_if leaves_sum leaves_constant next_leaves)
qed

lemma http_Do_leaves:
  assumes "\<And>r. rq_method r \<in> {''GET'', ''HEAD''} \<Longrightarrow> leaves I f (h r)" and "leaves I f (round_trip h r)"
  shows "leaves I f (http_Do h r)"
  using follow_leaves [OF assms(1) assms(2), of 9] by (auto simp: http_Do_def leaves_def)

lemma path_segments_query:
  "path_segments (join_path [''query'', ''permissions'', t]) =
     [''query'', ''permissions'', if t = [] then ''/'' else t]"
  using PathEscape_inject [of t "[]"]
  unfolding path_segments_def Split_join_path by (simp add: literal_segments PathEscape_fixed)

lemma query_handler:
  assumes "match_method (endpoints cfg L ui ctrl) ''POST'' (join_path [''query'', ''permissions'', t]) =
    Some ((names, h), ms)"
  shows "h = h_QueryListComputedPermissions L ctrl"
  using assms unfolding match_method_def path_segments_query
  by (simp add: method_routes_def endpoint_simps wild_names_def literal_child_def wild_child_def leaf_def
      multi_child_def split: if_splits)

context remote_service
begin

lemma net_reads:
  assumes reads: "reads_only I f (controller_api C)" and ui: "\<And>r. leaves I f (ui r)"
    and req: "rq_method req = ''GET'' \<or>
      (rq_method req = ''POST'' \<and> (\<exists>t q. rq_url req = segments_url [''query'', ''permissions'', t] q))"
  shows "leaves I f (ci_net K req)"
proof -
  let ?R = "GetRouter accesslog otel remote_do cfg L ui (controller_api C)"
  have get: "leaves I f (?R r)" if "rq_method r \<in> {''GET'', ''HEAD''}" for r
  proof (rule GetRouter_leaves)
    show "leaves I f (GetRouterWithoutMiddleware cfg L ui (controller_api C) r)"
      using router_reads [OF reads ui, of r] that unfolding leaves_def by force
  qed (use no_forward passed_on in auto)
  have "leaves I f (round_trip ?R req)"
  proof (cases "rq_method req = ''GET''")
    case True
    then show ?thesis by (intro round_trip_leaves get) simp
  next
    case False
    then obtain t q where url: "rq_url req = segments_url [''query'', ''permissions'', t] q"
      and post: "rq_method req = ''POST''" using req by auto
    let ?sreq = "req\<lparr>rq_uri := request_uri (rq_url req), rq_header := wire_header (rq_header req), rq_path_values := []\<rparr>"
    have "leaves I f (?R ?sreq)"
    proof (rule GetRouter_leaves)
      show "leaves I f (GetRouterWithoutMiddleware cfg L ui (controller_api C) ?sreq)"
        unfolding leaves_def GetRouterWithoutMiddleware_def ServeMux_def Let_def
        using reading_handlers(9) [OF reads]
        by (auto simp: url post EscapedPath_segments_url simp del: join_path_Cons
            split: option.splits list.splits if_splits dest!: query_handler dest: leavesD)
    qed (use no_forward passed_on in auto)
    moreover have "round_trip ?R req = serve ?R ?sreq"
      using round_trip_segments_url [OF _ url, of ?R] by auto
    ultimately show ?thesis
      by (auto simp: leaves_def serve_Some)
  qed
  then show ?thesis unfolding net by (intro http_Do_leaves get)
qed

lemma call_reads:
  assumes "reads_only I f (controller_api C)" "\<And>r. leaves I f (ui r)"
    and request: "m = ''GET'' \<or> (m = ''POST'' \<and> rest = join_path [''query'', ''permissions'', t])"
  shows "leaves I f (call_api K rd zero tok c (NewRequest m rest b))"
proof (cases "NewRequest m rest b")
  case (Inl err)
  then show ?thesis by (simp add: leaves_def call_api_def)
next
  case (Inr req)
  then have req: "rq_method req = m" "rq_header req = DAList.empty"
    by (auto simp: NewRequest_def split: sum.splits)
  obtain hd where inj: "ci_inject K req = Inr (req\<lparr>rq_header := hd\<rparr>)" using inject [OF req(2)] by blast
  have "rq_url (versioned tok (req\<lparr>rq_header := hd\<rparr>)) = segments_url [''query'', ''permissions'', t]
      (Encode (Set_value ''version'' ClientVersion (Query (segments_url [''query'', ''permissions'', t] []))))"
    if "m = ''POST''"
  proof -
    have "rq_url req = segments_url [''query'', ''permissions'', t] []"
      using Inr request that parse_url_join_path(2) [of "[''query'', ''permissions'', t]"]
      by (auto simp: NewRequest_def simp del: join_path_Cons)
    then show ?thesis by (simp add: versioned_def Let_def)
  qed
  moreover have "rq_method (versioned tok (req\<lparr>rq_header := hd\<rparr>)) = m" using req by (simp add: versioned_def Let_def)
  ultimately have net: "leaves I f (ci_net K (versioned tok (req\<lparr>rq_header := hd\<rparr>)))"
    using request by (intro net_reads [OF assms(1,2)]) metis
  have "\<exists>x. ci_net K (versioned tok (req\<lparr>rq_header := hd\<rparr>)) w = Some (x, w')"
    if "call_api K rd zero tok c (NewRequest m rest b) w = Some (y, w')" for w y w'
    using that by (auto simp: Inr inj call_api_def doWithContext_def do_request_def
        split: option.splits sum.splits prod.splits if_splits)
  then show ?thesis using net unfolding leaves_def by metis
qed

lemma client_reads_only:
  assumes "reads_only I f (controller_api C)" "\<And>r. leaves I f (ui r)"
  shows "reads_only I f (client_api K)"
proof -
  note rule = call_reads [OF assms]
  have query: "''/query/permissions/'' @ PathEscape t = join_path [''query'', ''permissions'', t]" for t
    by (simp add: literal_segments)
  show ?thesis
    unfolding reads_only_def client_api_def
    by (simp add: client_ListTopics_def client_GetTopic_def client_AdminListResourceIds_def client_Export_def
        client_CheckPermission_def client_CheckMultiplePermissions_def client_ListAccessibleResourceIds_def
        client_ListResourcesWithAdminPermission_def client_GetResource_def Let_def rule)
      (auto simp only: client_ListComputedPermissions_def query intro!: rule)
qed

end

lemma embedded_check:
  assumes "remote_service K C accesslog otel remote_do cfg L ui"
    and "plain_prefix pre" "plain_segment t" "plain_segment i" "plain_header tok" "all_known ps" "ps \<noteq> []"
    and "rq_method r = ''GET''"
    and "rq_url r = segments_url (pre @ [''check'', t, i]) (''permissions='' @ PermissionList_Encode ps)"
    and "GetAuthToken L' = (\<lambda>r. Get (rq_header r) ''Authorization'')" "Get (rq_header r) ''Authorization'' = tok"
    and "passes pathFilter r"
    and "run_state (CheckPermission C tok t i ps) w = (res, w')"
  shows "EmbedPermissionsClientIntoRouter L' ui' (client_api K) router (join_path pre) pathFilter r w =
    Some (case res of
        Inr (b, code) \<Rightarrow> write_json (JBool b)
      | Inl (err, code) \<Rightarrow> http_Error (error_text (client_error err code)) code, w')"
proof -
  have known: "list_all known_permission ps" using assms(6) .
  have plain: "list_all plain_segment [''check'', t, i]" using assms(3,4) by (simp add: plain_segment_def)
  obtain r' where run: "EmbedPermissionsClientIntoRouter L' ui' (client_api K) router (join_path pre) pathFilter r w =
      h_CheckPermission L' (client_api K) r' w"
    and r': "rq_path_values r' = zip [''topic'', ''id''] [t, i]" "rq_header r' = rq_header r"
      "u_raw_query (rq_url r') = ''permissions='' @ PermissionList_Encode ps"
    by (rule embedded_segments [OF assms(2) _ plain assms(9,12)
          routes(8) [OF assms(3,4), folded assms(8)]]) simp_all
  have "permissions_param (Query (rq_url r')) = Inr ps"
    using permissions_sent [OF known assms(7)] by (simp add: Query_def r'(3))
  then have "h_CheckPermission L' (client_api K) r' =
      answer (client_CheckPermission K tok t i ps) (\<lambda>b code. write_json (JBool b))"
    using r' assms(3,4,10,11)
    by (simp add: h_CheckPermission_def PathValue_def plain_segment_def client_api_def)
  then show ?thesis
    using remote_service.client_check [OF assms(1,3-7,13)]
    by (auto simp: run answer_def split: sum.splits prod.splits)
qed

section \<open>Properties\<close>


definition embedded_request :: "string \<Rightarrow> request" where
  "embedded_request m =
     sample_request m ([''permissions''] @ [''check'', ''devices'', ''d'']) ''permissions=r'' ''Bearer bob'' (Raw [])"

lemma sample_embedding:
  "join_path [''permissions''] = ''/permissions''" "plain_prefix [''permissions'']"
  "plain_segment ''devices''" "plain_segment ''d''" "plain_header ''Bearer bob''" "all_known [Read]"
  "''permissions='' @ PermissionList_Encode [Read] = ''permissions=r''"
  by code_simp+

lemma embedded_request_fields:
  "rq_method (embedded_request m) = m"
  "rq_url (embedded_request m) = segments_url ([''permissions''] @ [''check'', ''devices'', ''d'']) ''permissions=r''"
  "Get (rq_header (embedded_request m)) ''Authorization'' = ''Bearer bob''"
  "GetAuthToken sample_lib = (\<lambda>r. Get (rq_header r) ''Authorization'')"
  by (simp_all add: embedded_request_def sample_request_def sample_lib_def Get_def Set_value_def
      values_list_def lookup_update)


text \<open>
  C31. A filter that lets no edits pass protects the service: whatever is requested of an embedding
  service, whose own handler leaves the store of the permissions service alone, changes nothing there.
\<close>

theorem embedded_filter_protects_service:
  assumes "remote_service K C accesslog otel remote_do cfg L ui"
    and "database db store_of invar" "ctl_db C = db" "invar (w_db w)"
    and "\<And>r w. \<exists>g. ui r w = Some (g, w)" "\<And>r w. \<exists>g. ui' r w = Some (g, w)"
    and "\<And>m p. allowed m p \<Longrightarrow> m \<notin> {''POST'', ''PUT'', ''DELETE''}"
    and "\<And>r. leaves (\<lambda>w. invar (w_db w)) (\<lambda>w. store_of (w_db w)) (router r)"
    and "EmbedPermissionsClientIntoRouter L' ui' (client_api K) router prefix (Some allowed) r w = Some (g, w')"
  shows "invar (w_db w') \<and> store_of (w_db w') = store_of (w_db w)"
proof -
  let ?I = "\<lambda>w. invar (w_db w)" and ?f = "\<lambda>w. store_of (w_db w)"
  have ui: "leaves ?I ?f (ui r)" "leaves ?I ?f (ui' r)" for r
    unfolding leaves_def using assms(5,6) by (metis option.inject prod.inject)+
  have reads: "reads_only ?I ?f (client_api K)"
    by (intro remote_service.client_reads_only [OF assms(1)] database.controller_reads_only [OF assms(2,3)] ui)
  show ?thesis
  proof (cases "HasPrefix (u_path (rq_url r)) prefix \<and> allowed (rq_method r) (u_path (rq_url r))")
    case True
    then show ?thesis
      using assms(7) [of "rq_method r"] assms(9)
      by (intro router_reads [OF reads ui(2) _ assms(4)]) (auto simp: EmbedPermissionsClientIntoRouter_def Let_def)
  next
    case False
    then have "router r w = Some (g, w')"
      using assms(9) by (auto simp: EmbedPermissionsClientIntoRouter_def Let_def)
    then show ?thesis using leavesD [OF assms(8)] assms(4) by blast
  qed
qed

definition reads_allowed :: "string \<Rightarrow> string \<Rightarrow> bool" where
  "reads_allowed m p \<longleftrightarrow> m = ''GET''"

theorem embedded_filter_protects_service_witness:
  "\<exists>g w'. EmbedPermissionsClientIntoRouter sample_lib no_ui (client_api sample_client) no_ui ''/permissions''
      (Some reads_allowed) (embedded_request ''GET'') sample_world = Some (g, w') \<and>
    mock_store (w_db w') = mock_store (w_db sample_world)"
proof -
  have passes: "passes (Some reads_allowed) (embedded_request ''GET'')"
    by (simp add: reads_allowed_def embedded_request_fields)
  obtain res w' where "run_state (CheckPermission sample_controller ''Bearer bob'' ''devices'' ''d''
      [Read]) sample_world = (res, w')"
    by (rule prod.exhaust)
  from embedded_check [OF sample_remote.remote_service_axioms sample_embedding(2-6) _
        embedded_request_fields(1) _ embedded_request_fields(4,3) passes this, unfolded sample_embedding(1,7),
        OF _ embedded_request_fields(2)]
  obtain g where run: "EmbedPermissionsClientIntoRouter sample_lib no_ui (client_api sample_client) no_ui
      ''/permissions'' (Some reads_allowed) (embedded_request ''GET'') sample_world = Some (g, w')"
    by blast
  have "leaves (\<lambda>w. mock_invar (w_db w)) (\<lambda>w. mock_store (w_db w)) (no_ui r)" for r
    by (simp add: leaves_def no_ui_def)
  then show ?thesis
    using embedded_filter_protects_service [OF sample_remote.remote_service_axioms mock.database_axioms
        sample_db sample_invar no_ui_constant no_ui_constant _ _ run] run
    by (auto simp: reads_allowed_def)
qed

text \<open>
  A path below the prefix that is not clean is redirected without the prefix, that is to the other
  handlers of the embedding service.
\<close>

lemma redirect_drops_prefix:
  assumes "rq_url r = \<lparr>u_path = ''/permissions/manage//devices'', u_raw_path = [], u_raw_query = []\<rparr>"
  shows "EmbedPermissionsClientIntoRouter L ui client router ''/permissions'' None r w =
    Some (redirect ''/manage/devices'' 301, w)"
proof -
  have "trimPrefixPath ''/permissions/manage//devices'' ''/permissions'' = ''/manage//devices''"
    "trimPrefixPath [] ''/permissions'' = ''/''" "HasPrefix ''/permissions/manage//devices'' ''/permissions''"
    "EscapedPath \<lparr>u_path = ''/manage//devices'', u_raw_path = ''/'', u_raw_query = []\<rparr> = ''/manage//devices''"
    "cleanPath ''/manage//devices'' = ''/manage/devices''" "escape_path ''/manage/devices'' = ''/manage/devices''"
    by code_simp+
  then show ?thesis
    by (simp add: EmbedPermissionsClientIntoRouter_def Let_def assms GetRouterWithoutMiddleware_def ServeMux_def)
qed

end
