(* ===== verification/SwaggerGen.thy ===== *)
theory SwaggerGen
  imports GoStrings
begin

text \<open>
  The generator of the documentation of an embedded client, \<open>pkg/client/swaggergen.go\<close>: what it
  makes of the comments of the API's handlers. The parsed package is the argument of \<open>getElements\<close>;
  reading it and writing the file with the template are left out. A panic is \<open>None\<close>. Slices of
  elements share their arrays the way Go has it, because the loop of \<open>getElements\<close> appends to a slice
  while it ranges over another one with the same array.
\<close>

section \<open>Strings\<close>

text \<open>
  \<open>strings.ReplaceAll\<close> for a text that is not empty, \<open>strings.Lines\<close>, and \<open>strings.Trim\<close> of
  one character.
\<close>

definition ReplaceAll :: "string \<Rightarrow> string \<Rightarrow> string \<Rightarrow> string" where
  "ReplaceAll s old new = Join (Split s old) new"

definition line_end :: string where
  "line_end = [byte 10]"

function Lines :: "string \<Rightarrow> string list" where
  "Lines s =
     (case Cut s line_end of
        None \<Rightarrow> if s = [] then [] else [s]
      | Some (a, b) \<Rightarrow> (a @ line_end) # Lines b)"
  by pat_completeness auto
termination
  by (relation "measure length") (auto dest: Cut_length simp: line_end_def)

declare Lines.simps [simp del]

definition Trim_char :: "char \<Rightarrow> string \<Rightarrow> string" where
  "Trim_char c s = rev (dropWhile (\<lambda>x. x = c) (rev (dropWhile (\<lambda>x. x = c) s)))"

text \<open>
  The expressions \<open>\s*@Tags\<close> and so on only ask for the word; the one for the parameter \<open>topic\<close>
  allows white space between its words.
\<close>

definition re_space :: "char \<Rightarrow> bool" where
  "re_space c \<longleftrightarrow> c \<in> set [byte 9, byte 10, byte 12, byte 13, CHR '' '']"

definition topic_param :: "string \<Rightarrow> bool" where
  "topic_param line \<longleftrightarrow>
     list_ex (\<lambda>i.
       let s = drop i line; t = dropWhile re_space (drop 6 s); u = dropWhile re_space (drop 5 t)
       in HasPrefix s ''@Param'' \<and> HasPrefix t ''topic'' \<and> HasPrefix u ''path'') [0..<length line]"

section \<open>Comments\<close>

record element =
  e_Name :: string
  e_Doc :: string

definition parseEndpoint :: "string \<Rightarrow> (string \<times> string) option" where
  "parseEndpoint s =
     (let s = TrimSpace s; s = hd (Split s '']''); parts = Split s ''[''
      in if length parts \<noteq> 2 then None else Some (ToUpper (TrimSpace (parts ! 1)), TrimSpace (parts ! 0)))"

definition updateEndpoint :: "string \<Rightarrow> string \<Rightarrow> (string \<times> string \<times> string) option" where
  "updateEndpoint doc prefix =
     (let splitByRouter = SplitN2 doc ''@Router'' in
      if 2 \<le> length splitByRouter
      then
        let parts = Split (splitByRouter ! 1) ''/'';
            parts = (if 2 \<le> length parts \<and> TrimSpace (parts ! 0) = []
                     then parts ! 0 # prefix # drop 1 parts
                     else (''/'' @ prefix) # parts);
            splitByRouter = splitByRouter[1 := Join parts ''/'']
        in map_option (\<lambda>(verb, path). (Join splitByRouter ''@Router'', verb, path))
             (parseEndpoint (splitByRouter ! 1))
      else Some (Join splitByRouter ''@Router'', [], []))"

definition replaceMethodNameInDoc :: "string \<Rightarrow> string \<Rightarrow> string \<Rightarrow> string" where
  "replaceMethodNameInDoc doc oldName name =
     Join (map (\<lambda>line. ''// '' @ ReplaceAll line (oldName @ '' godoc'') (name @ '' godoc''))
       (filter (\<lambda>line. TrimSpace line \<noteq> []) (Split doc line_end))) line_end"

definition prefixTags :: "string \<Rightarrow> string \<Rightarrow> string" where
  "prefixTags doc prefix =
     Join (map (\<lambda>line.
       if Contains line ''@Tags''
       then ''// @Tags         '' @
         Join (map (\<lambda>tag. prefix @ ''-'' @ TrimSpace tag)
           (Split (TrimSpace (Split line ''@Tags'' ! 1)) '','')) '',''
       else TrimSpace line) (Lines doc)) line_end"

definition topic_line :: "string \<Rightarrow> string option" where
  "topic_line line =
     (if topic_param line then None
      else if Contains line ''@Summary'' then Some (ReplaceAll line ''topic'' ''topic ({topic})'')
      else if Contains line ''@Description'' then Some (ReplaceAll line ''topic'' ''topic ({topic})'')
      else if Contains line ''@Tags'' then Some ''@Tags         {topic}''
      else Some line)"

definition topic_suffix :: "string \<Rightarrow> string" where
  "topic_suffix topic =
     fold (\<lambda>c s. ReplaceAll s c []) [''-'', ''+'', ''/'', ''.'', '':''] topic"

definition handleTopicList :: "string \<Rightarrow> string \<Rightarrow> string list \<Rightarrow> element list" where
  "handleTopicList doc name topics =
     (if \<not> Contains doc ''{topic}'' then [\<lparr>e_Name = ''Generated'' @ name, e_Doc = doc\<rparr>]
      else
        let doc = Join (List.map_filter topic_line (Lines doc)) line_end
        in map (\<lambda>topic. \<lparr>e_Name = ''Generated'' @ name @ ''_'' @ topic_suffix topic,
             e_Doc = ReplaceAll doc ''{topic}'' topic\<rparr>) topics)"

section \<open>Slices\<close>

text \<open>
  The arrays of slices, each as long as its capacity, and a slice of the first elements of one of
  them. \<open>grow\<close> is the capacity the runtime allocates for an \<open>append\<close> to a full array.
\<close>

type_synonym arrays = "element list list"

record slice =
  sl_array :: nat
  sl_len :: nat

definition slice_values :: "arrays \<Rightarrow> slice \<Rightarrow> element list" where
  "slice_values h s = take (sl_len s) (h ! sl_array s)"

definition slice_of :: "element list \<Rightarrow> arrays \<Rightarrow> arrays \<times> slice" where
  "slice_of xs h = (h @ [xs], \<lparr>sl_array = length h, sl_len = length xs\<rparr>)"

definition append_element :: "(nat \<Rightarrow> nat) \<Rightarrow> element \<Rightarrow> arrays \<times> slice \<Rightarrow> arrays \<times> slice" where
  "append_element grow x = (\<lambda>(h, s).
     let a = h ! sl_array s in
     if sl_len s < length a
     then (h[sl_array s := a[sl_len s := x]], s\<lparr>sl_len := sl_len s + 1\<rparr>)
     else (h @ [slice_values h s @ [x] @
             replicate (grow (length a) - sl_len s - 1) \<lparr>e_Name = [], e_Doc = []\<rparr>],
           \<lparr>sl_array = length h, sl_len = sl_len s + 1\<rparr>))"

section \<open>The elements\<close>

record func_decl =
  fd_Recv :: "string list option"
  fd_Name :: string
  fd_Doc :: string

datatype decl = FuncDecl func_decl | OtherDecl

text \<open>Packages and files come in the order in which Go happens to visit the maps they are in.\<close>

definition filterMethods :: "decl list list list \<Rightarrow> func_decl list" where
  "filterMethods dirAst =
     concat (map (\<lambda>packageAst. concat (map (List.map_filter (\<lambda>d.
       case d of
         FuncDecl fdecl \<Rightarrow>
           if fd_Recv fdecl \<noteq> None \<and> fd_Recv fdecl \<noteq> Some [] then Some fdecl else None
       | OtherDecl \<Rightarrow> None)) packageAst)) dirAst)"

definition finished :: "string \<Rightarrow> string \<Rightarrow> element \<Rightarrow> element" where
  "finished name prefix sub =
     sub\<lparr>e_Doc := prefixTags (replaceMethodNameInDoc (e_Doc sub) name (e_Name sub)) prefix\<rparr>"

text \<open>The loop over \<open>docsWithReplacedTopics\<close>: each element is read when its turn comes.\<close>

definition add_elements ::
  "(nat \<Rightarrow> nat) \<Rightarrow> (element \<Rightarrow> element) \<Rightarrow> slice \<Rightarrow> arrays \<times> slice \<Rightarrow> arrays \<times> slice" where
  "add_elements grow f docs =
     fold (\<lambda>i (h, s). append_element grow (f (h ! sl_array docs ! i)) (h, s)) [0..<sl_len docs]"

fun elements_loop ::
  "(nat \<Rightarrow> nat) \<Rightarrow> string \<Rightarrow> string list option \<Rightarrow> (string \<Rightarrow> string \<Rightarrow> bool) option \<Rightarrow>
   func_decl list \<Rightarrow> arrays \<times> slice \<Rightarrow> (arrays \<times> slice) option" where
  "elements_loop grow prefix topicList path_filter [] hs = Some hs"
| "elements_loop grow prefix topicList path_filter (d # ds) (h, s) =
     (let name = fd_Name d in
      if Contains name ''HealthCheck'' then elements_loop grow prefix topicList path_filter ds (h, s)
      else
        case updateEndpoint (fd_Doc d) prefix of
          None \<Rightarrow> None
        | Some (doc, routeMethod, routePath) \<Rightarrow>
            (case path_filter of
               None \<Rightarrow> None
             | Some allowed \<Rightarrow>
                 if \<not> allowed routeMethod routePath
                 then elements_loop grow prefix topicList path_filter ds (h, s)
                 else
                   let (h, docs) = (case topicList of
                         Some topics \<Rightarrow> slice_of (handleTopicList doc name topics) h
                       | None \<Rightarrow>
                           append_element grow \<lparr>e_Name = ''Generated'' @ name, e_Doc = doc\<rparr> (h, s))
                   in elements_loop grow prefix topicList path_filter ds
                        (add_elements grow (finished name prefix) docs (h, s))))"

definition getElements ::
  "(nat \<Rightarrow> nat) \<Rightarrow> decl list list list \<Rightarrow> string \<Rightarrow> string list option \<Rightarrow>
   (string \<Rightarrow> string \<Rightarrow> bool) option \<Rightarrow> element list option" where
  "getElements grow f prefixWithoutSlash topicList path_filter =
     map_option (\<lambda>(h, s). slice_values h s)
       (elements_loop grow prefixWithoutSlash topicList path_filter (filterMethods f)
         (slice_of [] []))"

text \<open>The elements written to the file, from the parsed package.\<close>

definition generated_elements ::
  "(nat \<Rightarrow> nat) \<Rightarrow> decl list list list \<Rightarrow> string \<Rightarrow> string list option \<Rightarrow>
   (string \<Rightarrow> string \<Rightarrow> bool) option \<Rightarrow> element list option" where
  "generated_elements grow f prefix topicList path_filter =
     getElements grow f (Trim_char (CHR ''/'') prefix) topicList path_filter"


section \<open>Appending to slices\<close>

definition slice_ok :: "arrays \<Rightarrow> slice \<Rightarrow> bool" where
  "slice_ok h s \<longleftrightarrow> sl_array s < length h \<and> sl_len s \<le> length (h ! sl_array s)"

abbreviation capacity :: "arrays \<Rightarrow> slice \<Rightarrow> nat" where
  "capacity h s \<equiv> length (h ! sl_array s)"

lemma append_element_ok:
  assumes "append_element grow x (h, s) = (h', s')" and "slice_ok h s"
  shows "slice_ok h' s'" and "slice_values h' s' = slice_values h s @ [x]"
    and "sl_len s' = Suc (sl_len s)" and "length h \<le> length h'"
    and "sl_array s' = sl_array s \<or> length h \<le> sl_array s'"
  using assms
  by (auto simp: append_element_def slice_ok_def slice_values_def Let_def nth_append take_Suc_conv_app_nth
      split: if_splits)

text \<open>Only the element behind the slice may be overwritten.\<close>

lemma append_element_frame:
  assumes "append_element grow x (h, s) = (h', s')" and "slice_ok h s" and "a < length h"
    and "a \<noteq> sl_array s \<or> i \<noteq> sl_len s"
  shows "h' ! a ! i = h ! a ! i"
  using assms
  by (cases "a = sl_array s")
    (auto simp: append_element_def Let_def nth_append nth_list_update split: if_splits)

lemma append_element_other:
  assumes "append_element grow x (h, s) = (h', s')" and "a < length h" and "a \<noteq> sl_array s"
  shows "h' ! a = h ! a"
  using assms by (auto simp: append_element_def Let_def nth_append split: if_splits)

lemma add_elements_length:
  assumes "add_elements grow f docs (h, s) = (h', s')" and "slice_ok h s"
  shows "slice_ok h' s' \<and> sl_len s' = sl_len s + sl_len docs"
proof -
  have "slice_ok h' s' \<and> sl_len s' = sl_len s + length is"
    if "fold (\<lambda>i (h, s). append_element grow (f (h ! sl_array docs ! i)) (h, s)) is (h, s) = (h', s')"
      and "slice_ok h s" for "is" :: "nat list" and h s
    using that
  proof (induction "is" arbitrary: h s)
    case (Cons i "is")
    obtain h1 s1 where step: "append_element grow (f (h ! sl_array docs ! i)) (h, s) = (h1, s1)"
      by fastforce
    show ?case
      using Cons.IH [of h1 s1] Cons.prems append_element_ok [OF step Cons.prems(2)] step by simp
  qed simp
  then show ?thesis
    using assms by (simp add: add_elements_def)
qed

text \<open>With an array of its own, \<open>docs\<close> is appended element by element.\<close>

lemma add_elements_apart:
  assumes "add_elements grow f docs (h, s) = (h', s')" and "slice_ok h s" and "slice_ok h docs"
    and "sl_array docs \<noteq> sl_array s"
  shows "slice_values h' s' = slice_values h s @ map f (slice_values h docs)"
proof -
  have "slice_values h' s' = slice_values h s @ map (\<lambda>i. f (h ! sl_array docs ! i)) is"
    if "fold (\<lambda>i (h, s). append_element grow (f (h ! sl_array docs ! i)) (h, s)) is (h, s) = (h', s')"
      and "slice_ok h s" "sl_array docs < length h" "sl_array docs \<noteq> sl_array s" for "is" :: "nat list" and h s
    using that
  proof (induction "is" arbitrary: h s)
    case (Cons i "is")
    obtain h1 s1 where step: "append_element grow (f (h ! sl_array docs ! i)) (h, s) = (h1, s1)"
      by fastforce
    note ok = append_element_ok [OF step Cons.prems(2)]
    have "h1 ! sl_array docs = h ! sl_array docs" "sl_array docs \<noteq> sl_array s1" "sl_array docs < length h1"
      using append_element_other [OF step Cons.prems(3,4)] ok(4,5) Cons.prems(3,4) by auto
    then show ?case
      using Cons.IH [of h1 s1] Cons.prems(1) ok(1,2) step by simp
  qed simp
  then have "slice_values h' s' =
      slice_values h s @ map (\<lambda>i. f (h ! sl_array docs ! i)) [0..<sl_len docs]"
    using assms by (simp add: add_elements_def slice_ok_def)
  moreover have "map (\<lambda>i. h ! sl_array docs ! i) [0..<sl_len docs] = slice_values h docs"
    using assms(3) by (simp add: slice_values_def slice_ok_def list_eq_iff_nth_eq)
  then have "map (\<lambda>i. f (h ! sl_array docs ! i)) [0..<sl_len docs] = map f (slice_values h docs)"
    by (simp flip: map_map [unfolded comp_def])
  ultimately show ?thesis by simp
qed

section \<open>What is generated\<close>

text \<open>
  Whether the endpoint of a method is documented, \<open>None\<close> where reading its route panics, and the
  elements that belong into the file for a list of topics.
\<close>

definition kept :: "string \<Rightarrow> (string \<Rightarrow> string \<Rightarrow> bool) \<Rightarrow> func_decl \<Rightarrow> bool option" where
  "kept prefix allowed d =
     (if Contains (fd_Name d) ''HealthCheck'' then Some False
      else map_option (\<lambda>(doc, verb, path). allowed verb path) (updateEndpoint (fd_Doc d) prefix))"

definition wanted ::
  "string \<Rightarrow> string list \<Rightarrow> (string \<Rightarrow> string \<Rightarrow> bool) \<Rightarrow> func_decl \<Rightarrow> element list option" where
  "wanted prefix topics allowed d =
     (case kept prefix allowed d of
        None \<Rightarrow> None
      | Some False \<Rightarrow> Some []
      | Some True \<Rightarrow>
          map_option (\<lambda>(doc, verb, path). map (finished (fd_Name d) prefix) (handleTopicList doc (fd_Name d) topics))
            (updateEndpoint (fd_Doc d) prefix))"

lemma slice_of_ok:
  assumes "slice_of xs h = (h', docs)"
  shows "slice_ok h' docs" and "slice_values h' docs = xs" and "sl_array docs = length h"
    and "slice_ok h s \<Longrightarrow> slice_ok h' s \<and> slice_values h' s = slice_values h s \<and> sl_array s < length h"
  using assms by (auto simp: slice_of_def slice_ok_def slice_values_def nth_append)

lemma elements_loop_topics:
  "slice_ok h s \<Longrightarrow>
   map_option (\<lambda>(h, s). slice_values h s)
     (elements_loop grow prefix (Some topics) (Some allowed) ds (h, s)) =
   map_option (\<lambda>xs. slice_values h s @ concat xs) (those (map (wanted prefix topics allowed) ds))"
proof (induction ds arbitrary: h s)
  case (Cons d ds)
  show ?case
  proof (cases "wanted prefix topics allowed d")
    case None
    then show ?thesis
      by (auto simp: wanted_def kept_def Let_def split: if_splits option.splits bool.splits)
  next
    case (Some xs)
    show ?thesis
    proof (cases "kept prefix allowed d = Some True")
      case False
      then have "xs = []" "elements_loop grow prefix (Some topics) (Some allowed) (d # ds) (h, s) =
          elements_loop grow prefix (Some topics) (Some allowed) ds (h, s)"
        using Some by (auto simp: wanted_def kept_def Let_def split: if_splits option.splits bool.splits)
      then show ?thesis using Cons Some by (simp add: option.map_comp comp_def)
    next
      case True
      then obtain doc verb path where d: "updateEndpoint (fd_Doc d) prefix = Some (doc, verb, path)"
        "allowed verb path" "\<not> Contains (fd_Name d) ''HealthCheck''"
        by (auto simp: kept_def split: if_splits)
      obtain h1 docs where one: "slice_of (handleTopicList doc (fd_Name d) topics) h = (h1, docs)"
        by fastforce
      obtain h2 s2 where two: "add_elements grow (finished (fd_Name d) prefix) docs (h1, s) = (h2, s2)"
        by fastforce
      note ok = slice_of_ok(1-3) [OF one] slice_of_ok(4) [OF one Cons.prems]
      have "slice_values h2 s2 = slice_values h s @ xs"
        using add_elements_apart [OF two _ ok(1)] ok Some d True by (simp add: wanted_def)
      moreover have "slice_ok h2 s2" using add_elements_length [OF two] ok by blast
      moreover have "elements_loop grow prefix (Some topics) (Some allowed) (d # ds) (h, s) =
          elements_loop grow prefix (Some topics) (Some allowed) ds (h2, s2)"
        using d one two by (simp add: Let_def)
      ultimately show ?thesis
        using Cons.IH [of h2 s2] Some by (simp add: option.map_comp comp_def)
    qed
  qed
qed simp

lemma slice_of_empty: "slice_of [] [] = ([[]], \<lparr>sl_array = 0, sl_len = 0\<rparr>)"
  by (simp add: slice_of_def)



section \<open>Without topics\<close>

definition is_kept :: "string \<Rightarrow> (string \<Rightarrow> string \<Rightarrow> bool) \<Rightarrow> func_decl \<Rightarrow> bool" where
  "is_kept prefix allowed d \<longleftrightarrow> kept prefix allowed d = Some True"

text \<open>One round of the loop: the new element is appended to \<open>list\<close> itself, then all are added.\<close>

lemma elements_loop_kept:
  assumes "is_kept prefix allowed d"
  obtains doc where
    "elements_loop grow prefix None (Some allowed) (d # ds) (h, s) =
       (let (h1, docs) = append_element grow \<lparr>e_Name = ''Generated'' @ fd_Name d, e_Doc = doc\<rparr> (h, s)
        in elements_loop grow prefix None (Some allowed) ds
             (add_elements grow (finished (fd_Name d) prefix) docs (h1, s)))"
  using assms by (auto simp: is_kept_def kept_def Let_def split: if_splits)

lemma elements_loop_skipped:
  "kept prefix allowed d = Some False \<Longrightarrow>
   elements_loop grow prefix topics (Some allowed) (d # ds) (h, s) =
     elements_loop grow prefix topics (Some allowed) ds (h, s)"
  by (auto simp: kept_def Let_def split: if_splits)

lemma elements_loop_panic:
  "kept prefix allowed d = None \<Longrightarrow>
   elements_loop grow prefix topics (Some allowed) (d # ds) (h, s) = None"
  by (auto simp: kept_def Let_def split: if_splits)

lemma elements_loop_round:
  assumes "is_kept prefix allowed d" and "slice_ok h s"
  obtains e h1 docs h2 s2 where "e_Name e = ''Generated'' @ fd_Name d"
    and "append_element grow e (h, s) = (h1, docs)"
    and "add_elements grow (finished (fd_Name d) prefix) docs (h1, s) = (h2, s2)"
    and "slice_ok h1 s" and "slice_ok h1 docs" and "slice_ok h2 s2" and "sl_len s2 = 2 * sl_len s + 1"
    and "elements_loop grow prefix None (Some allowed) (d # ds) (h, s) =
      elements_loop grow prefix None (Some allowed) ds (h2, s2)"
proof -
  obtain doc where loop: "elements_loop grow prefix None (Some allowed) (d # ds) (h, s) =
       (let (h1, docs) = append_element grow \<lparr>e_Name = ''Generated'' @ fd_Name d, e_Doc = doc\<rparr> (h, s)
        in elements_loop grow prefix None (Some allowed) ds
             (add_elements grow (finished (fd_Name d) prefix) docs (h1, s)))"
    using elements_loop_kept [OF assms(1)] by blast
  let ?e = "\<lparr>e_Name = ''Generated'' @ fd_Name d, e_Doc = doc\<rparr>"
  obtain h1 docs where one: "append_element grow ?e (h, s) = (h1, docs)" by fastforce
  obtain h2 s2 where two: "add_elements grow (finished (fd_Name d) prefix) docs (h1, s) = (h2, s2)"
    by fastforce
  have "slice_ok h1 s"
    using one assms(2) by (auto simp: append_element_def slice_ok_def Let_def nth_append split: if_splits)
  with add_elements_length [OF two] append_element_ok [OF one assms(2)] loop one two that [of ?e]
  show thesis by simp
qed

lemma elements_loop_length:
  "slice_ok h s \<Longrightarrow>
   map_option (\<lambda>(h, s). (slice_ok h s, Suc (sl_len s)))
     (elements_loop grow prefix None (Some allowed) ds (h, s)) =
   map_option (\<lambda>bs. (True, 2 ^ length (filter id bs) * Suc (sl_len s))) (those (map (kept prefix allowed) ds))"
proof (induction ds arbitrary: h s)
  case (Cons d ds)
  consider "kept prefix allowed d = None" | "kept prefix allowed d = Some False" | "is_kept prefix allowed d"
    unfolding is_kept_def by (metis option.exhaust)
  then show ?case
  proof cases
    case 1
    then show ?thesis using elements_loop_panic [OF 1, of grow None ds h s] by simp
  next
    case 2
    then show ?thesis
      using elements_loop_skipped [OF 2, of grow None ds h s] Cons
      by (simp add: option.map_comp comp_def)
  next
    case 3
    obtain h2 s2 where "slice_ok h2 s2" "sl_len s2 = 2 * sl_len s + 1"
      "elements_loop grow prefix None (Some allowed) (d # ds) (h, s) =
        elements_loop grow prefix None (Some allowed) ds (h2, s2)"
      using elements_loop_round [OF 3 Cons.prems] by metis
    then show ?thesis
      using Cons.IH [of h2 s2] 3 by (simp add: is_kept_def option.map_comp comp_def algebra_simps)
  qed
qed auto

lemma elements_loop_values:
  "map_option (\<lambda>(h, s). (slice_ok h s, Suc (sl_len s)))
     (elements_loop grow prefix None (Some allowed) ds (slice_of [] [])) =
   map_option (\<lambda>bs. (True, 2 ^ length (filter id bs))) (those (map (kept prefix allowed) ds))"
  unfolding slice_of_empty by (subst elements_loop_length) (simp_all add: slice_ok_def)

text \<open>
  Without topics the number of generated elements doubles with every endpoint: \<open>n\<close> documented
  endpoints give \<open>2 ^ n - 1\<close> elements, however the runtime grows its slices.
\<close>

theorem elements_without_topics_double:
  "map_option length (getElements grow f prefix None (Some allowed)) =
     map_option (\<lambda>bs. 2 ^ length (filter id bs) - 1) (those (map (kept prefix allowed) (filterMethods f)))"
  using elements_loop_values [of grow prefix allowed "filterMethods f"]
  by (cases "elements_loop grow prefix None (Some allowed) (filterMethods f) (slice_of [] [])";
      cases "those (map (kept prefix allowed) (filterMethods f))")
    (auto simp: getElements_def slice_values_def slice_ok_def)

text \<open>
  The laws of the runtime used below: a first array holds one element, a larger one has an even
  number, because it fills whole multiples of 64 bytes.
\<close>

definition growth_laws :: "(nat \<Rightarrow> nat) \<Rightarrow> bool" where
  "growth_laws grow \<longleftrightarrow> grow 0 = 1 \<and> (\<forall>c > 0. even (grow c) \<and> c < grow c)"

definition doubling :: "nat \<Rightarrow> nat" where
  "doubling c = (if c = 0 then 1 else 2 * c)"

lemma growth_laws_doubling: "growth_laws doubling"
  by (simp add: growth_laws_def doubling_def)

lemma append_element_capacity:
  assumes "append_element grow x (h, s) = (h', s')" and "slice_ok h s" and "growth_laws grow"
  shows "capacity h' s' =
    (if sl_len s < capacity h s then capacity h s else grow (capacity h s))"
proof -
  have "Suc (capacity h s) \<le> grow (capacity h s)"
    using assms(3) by (cases "capacity h s = 0") (auto simp: growth_laws_def Suc_le_eq)
  then show ?thesis
    using assms(1,2)
    by (auto simp: append_element_def slice_ok_def slice_values_def Let_def nth_append split: if_splits)
qed

text \<open>Appending leads to an even capacity from an even one and from a full array.\<close>

definition soon_even :: "arrays \<Rightarrow> slice \<Rightarrow> bool" where
  "soon_even h s \<longleftrightarrow> even (capacity h s) \<and> 0 < capacity h s \<or> 0 < capacity h s \<and> sl_len s = capacity h s"

lemma append_element_even:
  assumes "append_element grow x (h, s) = (h', s')" and "slice_ok h s" and "growth_laws grow"
    and "soon_even h s"
  shows "even (capacity h' s') \<and> 0 < capacity h' s'"
  using assms(3,4) append_element_capacity [OF assms(1-3)]
  by (auto simp: soon_even_def growth_laws_def)

lemma add_elements_even:
  assumes "add_elements grow f docs (h, s) = (h', s')" and "slice_ok h s" and "growth_laws grow"
    and "soon_even h s" and "0 < sl_len docs"
  shows "even (capacity h' s') \<and> 0 < capacity h' s'"
proof -
  have "even (capacity h' s') \<and> 0 < capacity h' s'"
    if "fold (\<lambda>i (h, s). append_element grow (f (h ! sl_array docs ! i)) (h, s)) is (h, s) = (h', s')"
      and "slice_ok h s" "soon_even h s" "is \<noteq> []" for "is" :: "nat list" and h s
    using that
  proof (induction "is" arbitrary: h s)
    case (Cons i "is")
    obtain h1 s1 where step: "append_element grow (f (h ! sl_array docs ! i)) (h, s) = (h1, s1)"
      by fastforce
    have "even (capacity h1 s1) \<and> 0 < capacity h1 s1"
      using append_element_even [OF step Cons.prems(2) assms(3) Cons.prems(3)] .
    moreover have "slice_ok h1 s1" using append_element_ok [OF step Cons.prems(2)] by blast
    ultimately show ?case
      using Cons.IH [of h1 s1] Cons.prems(1) step
      by (cases "is = []") (simp_all add: soon_even_def)
  qed simp
  then show ?thesis
    using assms by (simp add: add_elements_def)
qed

text \<open>
  When \<open>list\<close> has room, \<open>docs\<close> lies in its array and the first element added overwrites the new one,
  so only names that were there are read.
\<close>

definition names_in :: "string set \<Rightarrow> arrays \<Rightarrow> slice \<Rightarrow> bool" where
  "names_in N h s \<longleftrightarrow> e_Name ` set (slice_values h s) \<subseteq> N"

lemma names_in_nth: "names_in N h s \<Longrightarrow> slice_ok h s \<Longrightarrow> i < sl_len s \<Longrightarrow> e_Name (h ! sl_array s ! i) \<in> N"
  using nth_mem [of i "slice_values h s"]
  by (auto simp: names_in_def slice_ok_def slice_values_def image_subset_iff)

lemma names_in_append:
  assumes "append_element grow x (h, s) = (h', s')" and "slice_ok h s"
  shows "names_in N h' s' \<longleftrightarrow> names_in N h s \<and> e_Name x \<in> N"
  using append_element_ok [OF assms] assms(2) by (auto simp: names_in_def)

lemma add_elements_shared:
  assumes room: "sl_len s < capacity h s" "0 < sl_len s" and ok: "slice_ok h s"
    and one: "append_element grow e (h, s) = (h1, docs)"
    and two: "add_elements grow f docs (h1, s) = (h2, s2)"
    and names: "names_in N h s" "\<And>x. e_Name (f x) = e_Name x"
  shows "names_in N h2 s2"
proof -
  let ?a = "sl_array s" and ?n = "sl_len s"
  have rest: "names_in N h2 s2"
    if "fold (\<lambda>i (h, s). append_element grow (f (h ! ?a ! i)) (h, s)) is (h, s') = (h2, s2)"
      and "slice_ok h s'" "?a < length h" "\<forall>i \<le> ?n. e_Name (h ! ?a ! i) \<in> N" "?n < sl_len s'"
      and "names_in N h s'" "set is \<subseteq> {..?n}" for "is" h s'
    using that
  proof (induction "is" arbitrary: h s')
    case (Cons i "is")
    obtain h1 s1 where step: "append_element grow (f (h ! ?a ! i)) (h, s') = (h1, s1)" by fastforce
    note ok = append_element_ok [OF step Cons.prems(2)]
    have "\<forall>i \<le> ?n. e_Name (h1 ! ?a ! i) \<in> N"
      using append_element_frame [OF step Cons.prems(2,3)] Cons.prems(4,5) by auto
    moreover have "names_in N h1 s1"
      using names_in_append [OF step Cons.prems(2)] Cons.prems(4,6,7) names(2) by auto
    ultimately show ?case
      using Cons.IH [of h1 s1] Cons.prems ok step by auto
  qed simp
  have docs: "docs = \<lparr>sl_array = ?a, sl_len = ?n + 1\<rparr>" and h1: "h1 = h[?a := (h ! ?a)[?n := e]]"
    using one room by (auto simp: append_element_def Let_def)
  have ok1: "slice_ok h1 s" "names_in N h1 s" "e_Name (h1 ! ?a ! 0) \<in> N"
    using ok room names(1) names_in_nth [OF names(1) ok room(2)]
    by (simp_all add: h1 slice_ok_def names_in_def slice_values_def)
  obtain h' s' where first: "append_element grow (f (h1 ! ?a ! 0)) (h1, s) = (h', s')" by fastforce
  have at: "sl_array s' = ?a" "sl_len s' = Suc ?n"
    using first ok1(1) room by (auto simp: append_element_def Let_def h1 slice_ok_def)
  have "names_in N h' s'" and ok': "slice_ok h' s'"
    using names_in_append [OF first ok1(1)] append_element_ok [OF first ok1(1)] ok1 names(2) by simp_all
  moreover have "\<forall>i \<le> ?n. e_Name (h' ! ?a ! i) \<in> N"
    using names_in_nth [OF calculation] at by simp
  moreover have "?a < length h'" using ok' at by (simp add: slice_ok_def)
  moreover have "fold (\<lambda>i (h, s). append_element grow (f (h ! ?a ! i)) (h, s)) [1..<Suc ?n] (h', s') = (h2, s2)"
    using two first by (simp add: add_elements_def docs upt_conv_Cons [of 0] del: upt_Suc)
  moreover have "set [1..<Suc ?n] \<subseteq> {..?n}" by auto
  ultimately show ?thesis
    using rest [of "[1..<Suc ?n]" h' s'] at by simp
qed

lemma elements_loop_lost:
  assumes "growth_laws grow"
  shows "slice_ok h s \<Longrightarrow> odd (sl_len s) \<Longrightarrow> even (capacity h s) \<Longrightarrow> names_in N h s \<Longrightarrow>
    elements_loop grow prefix None (Some allowed) ds (h, s) = Some (h', s') \<Longrightarrow> names_in N h' s'"
proof (induction ds arbitrary: h s)
  case (Cons d ds)
  consider "kept prefix allowed d = None" | "kept prefix allowed d = Some False" | "is_kept prefix allowed d"
    unfolding is_kept_def by (metis option.exhaust)
  then show ?case
  proof cases
    case 1
    then show ?thesis using elements_loop_panic [OF 1, of grow None ds h s] Cons.prems by simp
  next
    case 2
    then show ?thesis using elements_loop_skipped [OF 2, of grow None ds h s] Cons by simp
  next
    case 3
    obtain e h1 docs h2 s2 where one: "append_element grow e (h, s) = (h1, docs)"
      and two: "add_elements grow (finished (fd_Name d) prefix) docs (h1, s) = (h2, s2)"
      and ok: "slice_ok h1 s" "slice_ok h1 docs" "slice_ok h2 s2" "sl_len s2 = 2 * sl_len s + 1"
      and loop: "elements_loop grow prefix None (Some allowed) (d # ds) (h, s) =
        elements_loop grow prefix None (Some allowed) ds (h2, s2)"
      using elements_loop_round [OF 3 Cons.prems(1)] by metis
    have room: "sl_len s < capacity h s" "0 < sl_len s"
      using Cons.prems(1-3) by (auto simp: slice_ok_def intro: le_neq_trans elim: odd_pos)
    have "capacity h1 s = capacity h s"
      using one room Cons.prems(1) by (auto simp: append_element_def Let_def slice_ok_def)
    then have "soon_even h1 s" using Cons.prems(3) room by (metis less_trans soon_even_def)
    then have "even (capacity h2 s2)"
      using add_elements_even [OF two ok(1) assms] append_element_ok(3) [OF one Cons.prems(1)] by simp
    moreover have "names_in N h2 s2"
      using add_elements_shared [OF room Cons.prems(1) one two Cons.prems(4)] by (simp add: finished_def)
    ultimately show ?thesis
      using Cons.IH [of h2 s2] ok Cons.prems(5) loop by simp
  qed
qed simp

lemma elements_loop_filter:
  "elements_loop grow prefix topics (Some allowed) ds (h, s) = Some r \<Longrightarrow>
   elements_loop grow prefix topics (Some allowed) (filter (is_kept prefix allowed) ds) (h, s) = Some r"
proof (induction ds arbitrary: h s)
  case (Cons d ds)
  consider "kept prefix allowed d = None" | "kept prefix allowed d = Some False" | "is_kept prefix allowed d"
    unfolding is_kept_def by (metis option.exhaust)
  then show ?case
  proof cases
    case 1
    then show ?thesis using elements_loop_panic [OF 1, of grow topics ds h s] Cons.prems by simp
  next
    case 2
    then have "\<not> is_kept prefix allowed d" by (simp add: is_kept_def)
    then show ?thesis using elements_loop_skipped [OF 2, of grow topics ds h s] Cons by simp
  next
    case 3
    then obtain doc verb path where d: "updateEndpoint (fd_Doc d) prefix = Some (doc, verb, path)"
      "allowed verb path" "\<not> Contains (fd_Name d) ''HealthCheck''"
      by (auto simp: is_kept_def kept_def split: if_splits)
    obtain h1 docs where "(case topics of Some topics \<Rightarrow> slice_of (handleTopicList doc (fd_Name d) topics) h
        | None \<Rightarrow> append_element grow \<lparr>e_Name = ''Generated'' @ fd_Name d, e_Doc = doc\<rparr> (h, s)) = (h1, docs)"
      by (rule prod.exhaust)
    moreover obtain h2 s2 where "add_elements grow (finished (fd_Name d) prefix) docs (h1, s) = (h2, s2)"
      by (rule prod.exhaust)
    ultimately have "elements_loop grow prefix topics (Some allowed) (d # ds') (h, s) =
        elements_loop grow prefix topics (Some allowed) ds' (h2, s2)" for ds'
      using d by (simp add: Let_def)
    then show ?thesis using Cons 3 by simp
  qed
qed simp

text \<open>
  C32. Without topics only the first two endpoints that are documented at all appear in the result:
  the loop appends the element of a later one to \<open>list\<close>, whose array has room, and overwrites it with
  the first element it adds.
\<close>

theorem later_endpoints_lost:
  assumes "growth_laws grow" and "getElements grow f prefix None (Some allowed) = Some xs"
    and "filter (is_kept prefix allowed) (filterMethods f) = d1 # d2 # ds"
  shows "e_Name ` set xs \<subseteq> {''Generated'' @ fd_Name d1, ''Generated'' @ fd_Name d2}" (is "_ \<subseteq> ?N")
proof -
  obtain h s where loop: "elements_loop grow prefix None (Some allowed) (d1 # d2 # ds)
      ([[]], \<lparr>sl_array = 0, sl_len = 0\<rparr>) = Some (h, s)" and xs: "xs = slice_values h s"
    using assms(2) elements_loop_filter assms(3) by (fastforce simp: getElements_def slice_of_empty)
  have kept: "is_kept prefix allowed d1" "is_kept prefix allowed d2"
    using assms(3) by (metis Cons_eq_filterD, metis Cons_eq_filterD)
  let ?s0 = "\<lparr>sl_array = 0, sl_len = 0\<rparr>"
  have ok0: "slice_ok [[]] ?s0" by (simp add: slice_ok_def)
  obtain e1 h1 docs1 h2 s2 where e1: "e_Name e1 = ''Generated'' @ fd_Name d1"
    and one: "append_element grow e1 ([[]], ?s0) = (h1, docs1)"
    and two: "add_elements grow (finished (fd_Name d1) prefix) docs1 (h1, ?s0) = (h2, s2)"
    and "slice_ok h2 s2" "sl_len s2 = 2 * sl_len ?s0 + 1"
    and loop1: "elements_loop grow prefix None (Some allowed) (d1 # d2 # ds) ([[]], ?s0) =
      elements_loop grow prefix None (Some allowed) (d2 # ds) (h2, s2)"
    using elements_loop_round [OF kept(1) ok0, of grow "d2 # ds"] by metis
  then have ok2: "slice_ok h2 s2" "sl_len s2 = 1" by simp_all
  have h1: "h1 = [[], [e1]]" "docs1 = \<lparr>sl_array = 1, sl_len = 1\<rparr>"
    using one assms(1) by (auto simp: append_element_def growth_laws_def slice_values_def)
  have state2: "capacity h2 s2 = 1" "names_in ?N h2 s2"
    using two assms(1) e1
    by (auto simp: h1 add_elements_def append_element_def growth_laws_def slice_values_def names_in_def finished_def)
  obtain e2 h3 docs2 h4 s4 where e2: "e_Name e2 = ''Generated'' @ fd_Name d2"
    and three: "append_element grow e2 (h2, s2) = (h3, docs2)"
    and four: "add_elements grow (finished (fd_Name d2) prefix) docs2 (h3, s2) = (h4, s4)"
    and ok4: "slice_ok h3 s2" "slice_ok h3 docs2" "slice_ok h4 s4" "sl_len s4 = 2 * sl_len s2 + 1"
    and loop2: "elements_loop grow prefix None (Some allowed) (d2 # ds) (h2, s2) =
      elements_loop grow prefix None (Some allowed) ds (h4, s4)"
    using elements_loop_round [OF kept(2) ok2(1), of grow ds] by metis
  have full: "h3 ! sl_array s2 = h2 ! sl_array s2" "sl_array docs2 \<noteq> sl_array s2"
    using three state2(1) ok2 by (auto simp: append_element_def slice_ok_def Let_def nth_append)
  have "names_in ?N h3 docs2"
    using names_in_append [OF three ok2(1)] state2(2) e2 by simp
  moreover have "names_in ?N h3 s2" using state2(2) full(1) by (simp add: names_in_def slice_values_def)
  ultimately have "names_in ?N h4 s4"
    using add_elements_apart [OF four ok4(1,2) full(2)] by (auto simp: names_in_def finished_def)
  moreover have "even (capacity h4 s4)"
    using add_elements_even [OF four ok4(1) assms(1)] append_element_ok(3) [OF three ok2(1)]
      full(1) state2(1) ok2(2) by (simp add: soon_even_def)
  ultimately have "names_in ?N h s"
    using elements_loop_lost [OF assms(1) ok4(3), of ?N prefix allowed ds h s] ok4(4) loop loop1 loop2 by simp
  then show ?thesis by (simp add: xs names_in_def)
qed

text \<open>A package with three documented endpoints, a health check and a function without receiver.\<close>

definition sample_comment :: "string \<Rightarrow> string \<Rightarrow> string" where
  "sample_comment name path =
     Join [name @ '' godoc'', ''@Summary      '' @ name, ''@Tags         topics'',
       ''@Param        topic path string true'', ''@Router       '' @ path, []] line_end"

definition sample_package :: "decl list list list" where
  "sample_package =
     [[[OtherDecl,
        FuncDecl \<lparr>fd_Recv = None, fd_Name = ''Start'', fd_Doc = []\<rparr>,
        FuncDecl \<lparr>fd_Recv = Some [''this''], fd_Name = ''HealthCheck'', fd_Doc = sample_comment ''HealthCheck'' ''/ [get]''\<rparr>],
       map (\<lambda>(name, path). FuncDecl \<lparr>fd_Recv = Some [''this''], fd_Name = name, fd_Doc = sample_comment name path\<rparr>)
         [(''ListTopics'', ''/admin/topics [get]''),
          (''Check'', ''/check/{topic}/{id} [get]''),
          (''SetTopic'', ''/admin/topics [POST]'')]]]"

definition all_paths :: "string \<Rightarrow> string \<Rightarrow> bool" where
  "all_paths verb path = True"

lemma sample_kept:
  "map fd_Name (filter (is_kept ''permissions'' all_paths) (filterMethods sample_package)) =
     [''ListTopics'', ''Check'', ''SetTopic'']"
  by code_simp

lemma sample_routes:
  "those (map (kept ''permissions'' all_paths) (filterMethods sample_package)) =
     Some [False, True, True, True]"
  by code_simp

theorem later_endpoints_lost_witness:
  "\<exists>xs. getElements doubling sample_package ''permissions'' None (Some all_paths) = Some xs \<and>
     e_Name ` set xs \<subseteq> {''GeneratedListTopics'', ''GeneratedCheck''}"
proof -
  obtain d1 d2 ds where ds: "filter (is_kept ''permissions'' all_paths) (filterMethods sample_package) = d1 # d2 # ds"
    and names: "fd_Name d1 = ''ListTopics''" "fd_Name d2 = ''Check''"
    using sample_kept by (auto simp: map_eq_Cons_conv)
  obtain xs where xs: "getElements doubling sample_package ''permissions'' None (Some all_paths) = Some xs"
    using elements_loop_values [of doubling "''permissions''" all_paths "filterMethods sample_package"] sample_routes
    by (auto simp: getElements_def)
  show ?thesis using later_endpoints_lost [OF growth_laws_doubling xs ds] xs names by simp
qed

text \<open>The documented \<open>nil\<close> for a filter that allows everything is called like a filter, which panics.\<close>

lemma nil_filter_panics:
  "d \<in> set (filterMethods f) \<Longrightarrow> \<not> Contains (fd_Name d) ''HealthCheck'' \<Longrightarrow>
   getElements grow f prefix topics None = None"
proof -
  have "elements_loop grow prefix topics None ds (h, s) = None"
    if "d \<in> set ds" "\<not> Contains (fd_Name d) ''HealthCheck''" for d ds h s
    using that by (induction ds arbitrary: h s) (auto simp: Let_def split: option.split)
  then show "d \<in> set (filterMethods f) \<Longrightarrow> \<not> Contains (fd_Name d) ''HealthCheck'' \<Longrightarrow> ?thesis"
    by (simp add: getElements_def slice_of_def)
qed

end
