(* ===== verification/SwaggerFile.thy ===== *)
theory SwaggerFile
  imports SwaggerGen GoErrors
begin

text \<open>
  The file that the generator of \<open>pkg/client/swaggergen.go\<close> writes with its template: the errors on the
  way, what is in the file afterwards, and that what comes from comments and parameters stays within
  comments.
\<close>

section \<open>The template\<close>

definition lines :: "string list \<Rightarrow> string" where
  "lines ls = concat (map (\<lambda>l. l @ line_end) ls)"

definition quoted :: "string \<Rightarrow> string" where
  "quoted s = [byte 34] @ s @ [byte 34]"

definition tab :: string where
  "tab = [byte 9]"

definition tmpl_head :: "string list" where
  "tmpl_head =
     [[],
      ''//GENERATED FILE -- DO NOT EDIT'',
      ''//base template generated in github.com/SENERGY-Platform/permissions-v2 root dir, with '' @
        [byte 39] @ ''go generate ./...'' @ [byte 39],
      ''//result file may be generated by client.GenerateGoFileWithSwaggoCommentsForPermissionsRequestsForwarding()'',
      [],
      ''/*'',
      '' * Copyright 2024 InfAI (CC SES)'',
      '' *'',
      '' * Licensed under the Apache License, Version 2.0 (the '' @ quoted ''License'' @ '');'',
      '' * you may not use this file except in compliance with the License.'',
      '' * You may obtain a copy of the License at'',
      '' *'',
      '' *    http://www.apache.org/licenses/LICENSE-2.0'',
      '' *'',
      '' * Unless required by applicable law or agreed to in writing, software'',
      '' * distributed under the License is distributed on an '' @ quoted ''AS IS'' @ '' BASIS,'',
      '' * WITHOUT WARRANTIES OR CONDITIONS OF ANY KIND, either express or implied.'',
      '' * See the License for the specific language governing permissions and'',
      '' * limitations under the License.'',
      '' */'',
      []]"

definition tmpl_element :: "element \<Rightarrow> string" where
  "tmpl_element e = lines
     [[], e_Doc e, ''func '' @ e_Name e @ ''(){'',
      tab @ ''//this method is only used as anchor for swagger documentation'',
      tab @ ''panic('' @ quoted ''this method is only used as anchor for swagger documentation'' @ '')'',
      ''}'', [], []]"

definition tmpl :: "string \<Rightarrow> element list \<Rightarrow> string" where
  "tmpl packageName data =
     lines tmpl_head @ lines [''package '' @ packageName, [], []] @ concat (map tmpl_element data) @ line_end"

section \<open>Writing the file\<close>

text \<open>
  Where the operating system and the tools for Go sources may fail: finding the package, parsing it,
  opening the file, writing to it (after that many bytes), closing it. The template is a constant that
  can be parsed.
\<close>

record go_tools =
  gt_Import :: "error option"
  gt_ParseDir :: "error + decl list list list"
  gt_OpenFile :: "error option"
  gt_Write :: "(nat \<times> error) option"
  gt_Close :: "error option"

text \<open>\<open>None\<close> is a panic; the content of the file is kept in \<open>files\<close> in any case.\<close>

definition GenerateGoFile ::
  "(nat \<Rightarrow> nat) \<Rightarrow> go_tools \<Rightarrow> string \<Rightarrow> string \<Rightarrow> string \<Rightarrow> string list option \<Rightarrow>
   (string \<Rightarrow> string \<Rightarrow> bool) option \<Rightarrow> (string \<Rightarrow> string option) \<Rightarrow> error option option \<times> (string \<Rightarrow> string option)" where
  "GenerateGoFile grow tools packageName prefix location topicList pathFilter files =
     (case gt_Import tools of
        Some err \<Rightarrow> (Some (Some err), files)
      | None \<Rightarrow>
          (case gt_ParseDir tools of
             Inl err \<Rightarrow> (Some (Some err), files)
           | Inr f \<Rightarrow>
               let prefix = Trim_char (CHR ''/'') prefix in
               (case getElements grow f prefix topicList pathFilter of
                  None \<Rightarrow> (None, files)
                | Some list \<Rightarrow>
                    (case gt_OpenFile tools of
                       Some err \<Rightarrow> (Some (Some err), files)
                     | None \<Rightarrow>
                         let (err, content) = (case gt_Write tools of
                               None \<Rightarrow> (None, tmpl packageName list)
                             | Some (n, e) \<Rightarrow> (Some e, take n (tmpl packageName list)));
                             files = files(location \<mapsto> content)
                         in if gt_Close tools \<noteq> None then (None, files) else (Some err, files)))))"

text \<open>Without an error the file holds all that was generated; an error while writing leaves a torn file.\<close>

lemma GenerateGoFile_ok:
  assumes "GenerateGoFile grow tools packageName prefix location topics allowed files = (Some None, files')"
  shows "\<exists>f list. gt_ParseDir tools = Inr f \<and>
    getElements grow f (Trim_char (CHR ''/'') prefix) topics allowed = Some list \<and>
    files' = files(location \<mapsto> tmpl packageName list)"
  using assms by (auto simp: GenerateGoFile_def Let_def split: option.splits sum.splits prod.splits if_splits)

lemma GenerateGoFile_torn:
  assumes "gt_Import tools = None" "gt_ParseDir tools = Inr f" "gt_OpenFile tools = None"
    and "getElements grow f (Trim_char (CHR ''/'') prefix) topics allowed = Some list"
    and "gt_Write tools = Some (n, e)" "gt_Close tools = None"
  shows "GenerateGoFile grow tools packageName prefix location topics allowed files =
    (Some (Some e), files(location \<mapsto> take n (tmpl packageName list)))"
  using assms by (simp add: GenerateGoFile_def Let_def)

section \<open>Strings without line ends\<close>

abbreviation one_line :: "string \<Rightarrow> bool" where
  "one_line s \<equiv> byte 10 \<notin> set s"

definition comment_lines :: "string \<Rightarrow> bool" where
  "comment_lines doc \<longleftrightarrow> list_all (\<lambda>line. line = [] \<or> HasPrefix line ''//'') (Split doc line_end)"

lemma set_Join: "set (Join xs sep) \<subseteq> (\<Union>x \<in> set xs. set x) \<union> set sep"
  by (induction xs sep rule: Join.induct) auto

lemma Split_part: "x \<in> set (Split s sep) \<Longrightarrow> \<exists>a b. s = a @ x @ b"
proof (induction s sep rule: Split.induct)
  case (1 s sep)
  show ?case
  proof (cases "Cut s sep")
    case None
    then show ?thesis using 1(2) by (subst (asm) Split.simps) (auto intro: exI [of _ "[]"])
  next
    case (Some ab)
    then obtain a b where cut: "Cut s sep = Some (a, b)" by (cases ab) auto
    note s = Cut_Some [OF cut]
    consider "sep = []" "x = s" | "sep \<noteq> []" "x = a" | "sep \<noteq> []" "x \<in> set (Split b sep)"
      using 1(2) cut by (subst (asm) Split.simps) (auto split: if_splits)
    then show ?thesis
    proof cases
      case 1
      then show ?thesis by (metis append.right_neutral append_Nil)
    next
      case 2
      then show ?thesis using s by (metis append_Nil)
    next
      case 3
      then obtain c d where "b = c @ x @ d" using 1(1) [OF cut refl] by auto
      then show ?thesis using s by (metis append.assoc)
    qed
  qed
qed

lemma Split_set: "x \<in> set (Split s sep) \<Longrightarrow> set x \<subseteq> set s"
  using Split_part by fastforce

lemma set_ReplaceAll: "set (ReplaceAll s old new) \<subseteq> set s \<union> set new"
  unfolding ReplaceAll_def using set_Join [of "Split s old" new] Split_set [of _ s old] by fastforce

text \<open>Trimming takes away whole characters of white space.\<close>

lemma trim_step_Some:
  "trim_step ps s = Some t \<Longrightarrow> \<exists>p \<in> set ps. s = p @ t"
  by (induction ps) (auto simp: HasPrefix_iff split: if_splits)

lemma trim_step_None: "trim_step ps s = None \<Longrightarrow> p \<in> set ps \<Longrightarrow> p \<noteq> [] \<Longrightarrow> \<not> HasPrefix s p"
  by (induction ps) (auto split: if_splits)

lemma trim_with_removed:
  "\<exists>removed. s = concat removed @ trim_with ps s \<and> set removed \<subseteq> set ps \<and> trim_step ps (trim_with ps s) = None"
proof (induction ps s rule: trim_with.induct)
  case (1 ps s)
  show ?case
  proof (cases "trim_step ps s")
    case None
    then show ?thesis by (subst (1 2) trim_with.simps) (auto intro: exI [of _ "[]"])
  next
    case (Some t)
    then obtain p where p: "p \<in> set ps" "s = p @ t" using trim_step_Some by blast
    obtain removed where "t = concat removed @ trim_with ps t" "set removed \<subseteq> set ps"
      "trim_step ps (trim_with ps t) = None"
      using 1 [OF Some] by blast
    moreover have "trim_with ps s = trim_with ps t" using Some by (subst trim_with.simps) simp
    ultimately show ?thesis using p by (intro exI [of _ "p # removed"]) auto
  qed
qed

lemma spaces_chars:
  "p \<in> set spaces \<Longrightarrow> CHR ''/'' \<notin> set p \<and> p \<noteq> []" "[byte 10] \<in> set spaces"
proof -
  have "list_all (\<lambda>p. CHR ''/'' \<notin> set p \<and> p \<noteq> []) spaces" by code_simp
  then show "p \<in> set spaces \<Longrightarrow> CHR ''/'' \<notin> set p \<and> p \<noteq> []" by (auto simp: list_all_iff)
  show "[byte 10] \<in> set spaces" by (simp add: spaces_def)
qed

lemma TrimSpace_middle:
  obtains a b where "s = a @ TrimSpace s @ b" "\<not> HasPrefix (rev (TrimSpace s)) [byte 10]"
    "CHR ''/'' \<notin> set a" "CHR ''/'' \<notin> set b"
proof -
  obtain front where front: "s = concat front @ trim_with spaces s" "set front \<subseteq> set spaces"
    using trim_with_removed by blast
  obtain rear where rear: "rev (trim_with spaces s) = concat rear @ rev (TrimSpace s)"
    "set rear \<subseteq> set (map rev spaces)" "trim_step (map rev spaces) (rev (TrimSpace s)) = None"
    using trim_with_removed [of "rev (trim_with spaces s)" "map rev spaces"] by (auto simp: TrimSpace_def)
  have "trim_with spaces s = TrimSpace s @ rev (concat rear)"
    using rear(1) by (metis rev_append rev_rev_ident)
  then have "s = concat front @ TrimSpace s @ rev (concat rear)" using front(1) by simp
  moreover have "\<not> HasPrefix (rev (TrimSpace s)) [byte 10]"
    using trim_step_None [OF rear(3), of "[byte 10]"] spaces_chars(2) by force
  moreover have "CHR ''/'' \<notin> set (concat front)" using front(2) spaces_chars(1) by fastforce
  moreover have "CHR ''/'' \<notin> set (rev (concat rear))" using rear(2) spaces_chars(1) by fastforce
  ultimately show thesis by (rule that)
qed

text \<open>A piece of a line, with or without its end, is trimmed to a piece of the line.\<close>

lemma TrimSpace_one_line:
  assumes "x @ line_end = a @ s @ b" "one_line x"
  shows "one_line (TrimSpace s)"
proof
  assume nl: "byte 10 \<in> set (TrimSpace s)"
  obtain c d where s: "s = c @ TrimSpace s @ d" and tail: "\<not> HasPrefix (rev (TrimSpace s)) [byte 10]"
    by (rule TrimSpace_middle)
  have whole: "x @ [byte 10] = (a @ c) @ TrimSpace s @ (d @ b)"
    using assms(1) s by (metis append.assoc line_end_def)
  have "d @ b = []"
  proof (rule ccontr)
    assume "d @ b \<noteq> []"
    then have "x = (a @ c) @ TrimSpace s @ butlast (d @ b)"
      using whole by (metis butlast_append butlast_snoc append_is_Nil_conv)
    then show False using nl assms(2) by auto
  qed
  then have "last (TrimSpace s) = byte 10"
    using whole nl by (metis append.right_neutral last_append last_snoc list.set_cases list.distinct(1))
  moreover have "TrimSpace s \<noteq> []" using nl by auto
  ultimately have "HasPrefix (rev (TrimSpace s)) [byte 10]"
    by (cases "TrimSpace s" rule: rev_cases) (auto simp: HasPrefix_def)
  then show False using tail by blast
qed

lemma TrimSpace_comment:
  assumes "HasPrefix s ''//''"
  shows "HasPrefix (TrimSpace s) ''//''"
proof -
  obtain t where s: "s = CHR ''/'' # CHR ''/'' # t" using assms by (auto simp: HasPrefix_iff)
  obtain a b where parts: "s = a @ TrimSpace s @ b" "CHR ''/'' \<notin> set a" "CHR ''/'' \<notin> set b"
    by (rule TrimSpace_middle)
  have "a = []" using parts(1,2) s by (cases a) auto
  then have whole: "CHR ''/'' # CHR ''/'' # t = TrimSpace s @ b" using parts(1) s by simp
  obtain c u where one: "TrimSpace s = c # u" using whole parts(3) by (cases "TrimSpace s") auto
  obtain d v where "u = d # v" using whole one parts(3) by (cases u) auto
  then show ?thesis using whole one by (auto simp: HasPrefix_def)
qed

section \<open>Comments stay comments\<close>

lemma Lines_Join:
  "list_all one_line xs \<Longrightarrow> line \<in> set (Lines (Join xs line_end)) \<Longrightarrow> \<exists>x \<in> set xs. line = x \<or> line = x @ line_end"
proof (induction xs line_end rule: Join.induct)
  case (1)
  then show ?case by (simp add: Lines.simps [of "[]"] line_end_def)
next
  case (2 x)
  then show ?case
    by (auto simp: Lines.simps [of x] line_end_def Cut_char_None [THEN iffD2] split: if_splits)
next
  case (3 x y xs)
  have "Cut (x @ line_end @ Join (y # xs) line_end) line_end = Some (x, Join (y # xs) line_end)"
    using 3(2) by (simp add: line_end_def Cut_char_append)
  then have "Lines (Join (x # y # xs) line_end) = (x @ line_end) # Lines (Join (y # xs) line_end)"
    by (simp add: Lines.simps [of "x @ line_end @ Join (y # xs) line_end"])
  then show ?case using 3 by auto
qed

lemma comment_lines_Join:
  assumes "list_all one_line xs" "list_all (\<lambda>x. HasPrefix x ''//'') xs"
  shows "comment_lines (Join xs line_end)"
proof (cases "xs = []")
  case True
  then show ?thesis by (simp add: comment_lines_def line_end_def Split_char_none)
next
  case False
  then have "Split (Join xs line_end) line_end = xs"
    using assms(1) unfolding line_end_def by (intro Split_Join) (auto simp: list_all_iff)
  then show ?thesis using assms(2) by (auto simp: comment_lines_def list_all_iff)
qed

lemma prefixTags_comment:
  assumes "one_line x" "HasPrefix x ''//''" "line = x \<or> line = x @ line_end" "one_line prefix"
  defines "out \<equiv> (if Contains line ''@Tags''
       then ''// @Tags         '' @
         Join (map (\<lambda>tag. prefix @ ''-'' @ TrimSpace tag)
           (Split (TrimSpace (Split line ''@Tags'' ! 1)) '','')) '',''
       else TrimSpace line)"
  shows "one_line out" "HasPrefix out ''//''"
proof -
  have literals: "byte 10 \<noteq> CHR '',''" "byte 10 \<noteq> CHR ''-''" by code_simp+
  have piece: "one_line (TrimSpace p)" if "p \<in> set (Split line ''@Tags'') \<or> p = line" for p
  proof -
    have "\<exists>a b. line = a @ p @ b"
    proof (cases "p = line")
      case True
      then have "line = [] @ p @ []" by simp
      then show ?thesis by blast
    qed (use that Split_part in blast)
    then obtain a b where "line = a @ p @ b" by blast
    then have "x @ line_end = a @ p @ b \<or> x @ line_end = a @ p @ (b @ line_end)" using assms(3) by auto
    then show ?thesis using TrimSpace_one_line assms(1) by blast
  qed
  show "one_line out"
  proof (cases "Contains line ''@Tags''")
    case True
    then obtain a b where "Cut line ''@Tags'' = Some (a, b)" by (auto simp: Contains_def)
    then have "1 < length (Split line ''@Tags'')" by (subst Split.simps) (simp add: Suc_le_eq)
    then have "Split line ''@Tags'' ! 1 \<in> set (Split line ''@Tags'')" by simp
    then have tags: "one_line (TrimSpace (Split line ''@Tags'' ! 1))" using piece by blast
    have "one_line (TrimSpace tag)" if "tag \<in> set (Split (TrimSpace (Split line ''@Tags'' ! 1)) '','')" for tag
    proof -
      have "one_line tag" using Split_set [OF that] tags by blast
      moreover obtain c d where "tag = c @ TrimSpace tag @ d" by (rule TrimSpace_middle)
      ultimately show ?thesis by (metis Un_iff set_append)
    qed
    then have "one_line (Join (map (\<lambda>tag. prefix @ ''-'' @ TrimSpace tag)
        (Split (TrimSpace (Split line ''@Tags'' ! 1)) '','')) '','')"
      using set_Join [of "map (\<lambda>tag. prefix @ ''-'' @ TrimSpace tag)
        (Split (TrimSpace (Split line ''@Tags'' ! 1)) '','')" "'',''"] assms(4)
        literals by fastforce
    moreover have "one_line ''// @Tags         ''" by code_simp
    ultimately show ?thesis using True by (simp add: out_def)
  qed (use piece in \<open>simp add: out_def\<close>)
  have "HasPrefix line ''//''" using assms(2,3) by (auto simp: HasPrefix_iff)
  then show "HasPrefix out ''//''" using TrimSpace_comment by (auto simp: out_def HasPrefix_def)
qed

lemma Split_one_line: "x \<in> set (Split s sep) \<Longrightarrow> sep = line_end \<Longrightarrow> one_line x"
proof (induction s sep rule: Split.induct)
  case (1 s sep)
  show ?case
  proof (cases "Cut s sep")
    case None
    then have "x = s" using 1(2) by (subst (asm) Split.simps) simp
    then show ?thesis using None 1(3) by (simp add: line_end_def Cut_char_None)
  next
    case (Some ab)
    then obtain a b where cut: "Cut s sep = Some (a, b)" by (cases ab) auto
    then have "one_line a" using 1(3) Cut_char_Some by (simp add: line_end_def)
    moreover have "x = a \<or> x \<in> set (Split b sep)"
      using 1(2,3) cut by (subst (asm) Split.simps) (simp add: line_end_def)
    ultimately show ?thesis using 1(1) [OF cut refl] 1(3) by (auto simp: line_end_def)
  qed
qed

text \<open>What \<open>getElements\<close> makes of an element whose name is one line.\<close>

lemma finished_comment:
  assumes "one_line (e_Name sub)" "one_line prefix"
  shows "comment_lines (e_Doc (finished name prefix sub))"
proof -
  define xs where "xs = map (\<lambda>line. ''// '' @ ReplaceAll line (name @ '' godoc'') (e_Name sub @ '' godoc''))
    (filter (\<lambda>line. TrimSpace line \<noteq> []) (Split (e_Doc sub) line_end))"
  have literals: "one_line '' godoc''" "one_line ''// ''" by code_simp+
  have "one_line (ReplaceAll line (name @ '' godoc'') (e_Name sub @ '' godoc''))"
    if "line \<in> set (Split (e_Doc sub) line_end)" for line
    using set_ReplaceAll [of line "name @ '' godoc''" "e_Name sub @ '' godoc''"] Split_one_line [OF that refl]
      assms(1) literals(1) by auto
  then have one: "list_all one_line xs" using literals(2) by (auto simp: xs_def list_all_iff)
  have slashes: "list_all (\<lambda>x. HasPrefix x ''//'') xs" by (auto simp: xs_def list_all_iff HasPrefix_def)
  define out where "out = (\<lambda>line. if Contains line ''@Tags''
       then ''// @Tags         '' @
         Join (map (\<lambda>tag. prefix @ ''-'' @ TrimSpace tag)
           (Split (TrimSpace (Split line ''@Tags'' ! 1)) '','')) '',''
       else TrimSpace line)"
  have doc: "e_Doc (finished name prefix sub) = Join (map out (Lines (Join xs line_end))) line_end"
    by (simp add: finished_def prefixTags_def replaceMethodNameInDoc_def xs_def out_def)
  have "one_line (out line) \<and> HasPrefix (out line) ''//''" if line: "line \<in> set (Lines (Join xs line_end))" for line
  proof -
    obtain x where "x \<in> set xs" "line = x \<or> line = x @ line_end" using Lines_Join [OF one line] by blast
    then show ?thesis
      using prefixTags_comment [of x line prefix] one slashes assms(2) by (auto simp: out_def list_all_iff)
  qed
  then show ?thesis unfolding doc by (intro comment_lines_Join) (simp_all add: list_all_iff)
qed

section \<open>Every element\<close>

text \<open>The names in all arrays are single lines.\<close>

definition one_line_names :: "arrays \<Rightarrow> bool" where
  "one_line_names h \<longleftrightarrow> (\<forall>a < length h. \<forall>e \<in> set (h ! a). one_line (e_Name e))"

lemma one_line_names_nth:
  "one_line_names h \<Longrightarrow> a < length h \<Longrightarrow> i < length (h ! a) \<Longrightarrow> one_line (e_Name (h ! a ! i))"
  by (auto simp: one_line_names_def)

lemma append_element_names:
  assumes "append_element grow x (h, s) = (h', s')" "slice_ok h s" "one_line_names h" "one_line (e_Name x)"
  shows "one_line_names h'"
proof -
  have old: "\<forall>e \<in> set (h ! sl_array s). one_line (e_Name e)"
    using assms(2,3) unfolding one_line_names_def slice_ok_def by blast
  then have "\<forall>e \<in> set ((h ! sl_array s)[sl_len s := x]). one_line (e_Name e)"
    using assms(4) set_update_subset_insert by fastforce
  moreover have "\<forall>e \<in> set (slice_values h s). one_line (e_Name e)"
    using old by (auto simp: slice_values_def dest: in_set_takeD)
  ultimately show ?thesis
    using assms
    by (auto simp: append_element_def slice_ok_def Let_def one_line_names_def nth_append nth_list_update less_Suc_eq
        split: if_splits)
qed

lemma append_element_lengths:
  assumes "append_element grow x (h, s) = (h', s')" "slice_ok h s" "a < length h"
  shows "a < length h'" "length (h' ! a) = length (h ! a)"
  using assms
  by (cases "a = sl_array s"; auto simp: append_element_def Let_def nth_append nth_list_update split: if_splits)+

lemma add_elements_comments:
  assumes "add_elements grow (finished name prefix) docs (h, s) = (h', s')" "slice_ok h s" "slice_ok h docs"
    and "one_line_names h" "one_line prefix"
    and "\<forall>e \<in> set (slice_values h s). comment_lines (e_Doc e)"
  shows "slice_ok h' s' \<and> one_line_names h' \<and> (\<forall>e \<in> set (slice_values h' s'). comment_lines (e_Doc e))"
proof -
  have "slice_ok h' s' \<and> one_line_names h' \<and> (\<forall>e \<in> set (slice_values h' s'). comment_lines (e_Doc e))"
    if "fold (\<lambda>i (h, s). append_element grow (finished name prefix (h ! sl_array docs ! i)) (h, s)) is (h, s) = (h', s')"
      and "slice_ok h s" "slice_ok h docs" "one_line_names h" "\<forall>i \<in> set is. i < sl_len docs"
      and "\<forall>e \<in> set (slice_values h s). comment_lines (e_Doc e)" for "is" :: "nat list" and h s
    using that
  proof (induction "is" arbitrary: h s)
    case (Cons i "is")
    let ?sub = "h ! sl_array docs ! i"
    obtain h1 s1 where step: "append_element grow (finished name prefix ?sub) (h, s) = (h1, s1)" by fastforce
    have name: "one_line (e_Name ?sub)"
      using Cons.prems(3-5) by (intro one_line_names_nth) (auto simp: slice_ok_def)
    have "slice_ok h1 docs"
      using append_element_lengths [OF step Cons.prems(2)] Cons.prems(3) by (simp add: slice_ok_def)
    moreover have "one_line_names h1"
      using append_element_names [OF step Cons.prems(2,4)] name by (simp add: finished_def)
    moreover note append_element_ok(1,2) [OF step Cons.prems(2)]
    ultimately show ?case
      using Cons.IH [of h1 s1] Cons.prems(1,5,6) step finished_comment [OF name assms(5)] by simp
  qed simp
  from this [of "[0..<sl_len docs]"] show ?thesis using assms by (simp add: add_elements_def)
qed

lemma topic_suffix_one_line: "one_line topic \<Longrightarrow> one_line (topic_suffix topic)"
proof -
  have "one_line t \<Longrightarrow> one_line (fold (\<lambda>c s. ReplaceAll s c []) cs t)" for cs t
  proof (induction cs arbitrary: t)
    case (Cons c cs)
    then show ?case using set_ReplaceAll [of t c "[]"] by (simp add: subset_iff) blast
  qed simp
  then show "one_line topic \<Longrightarrow> one_line (topic_suffix topic)" unfolding topic_suffix_def by blast
qed

lemma handleTopicList_names:
  assumes "one_line name" "list_all one_line topics" "e \<in> set (handleTopicList doc name topics)"
  shows "one_line (e_Name e)"
proof -
  have "one_line ''Generated''" "byte 10 \<noteq> CHR ''_''" by code_simp+
  then show ?thesis
    using assms topic_suffix_one_line
    by (auto simp: handleTopicList_def Let_def list_all_iff split: if_splits)
qed

lemma elements_loop_comments:
  assumes "elements_loop grow prefix topics path_filter ds (h, s) = Some (h', s')"
    and "slice_ok h s" "one_line_names h" "one_line prefix"
    and "list_all (\<lambda>d. one_line (fd_Name d)) ds" "list_all one_line (case topics of None \<Rightarrow> [] | Some ts \<Rightarrow> ts)"
    and "\<forall>e \<in> set (slice_values h s). comment_lines (e_Doc e)"
  shows "\<forall>e \<in> set (slice_values h' s'). comment_lines (e_Doc e)"
  using assms
proof (induction ds arbitrary: h s)
  case (Cons d ds)
  show ?case
  proof (cases "elements_loop grow prefix topics path_filter ds (h, s) = Some (h', s')")
    case True
    then show ?thesis using Cons by simp
  next
    case False
    then obtain doc verb path allowed where "updateEndpoint (fd_Doc d) prefix = Some (doc, verb, path)"
      "path_filter = Some allowed" "allowed verb path" "\<not> Contains (fd_Name d) ''HealthCheck''"
      using Cons.prems(1) by (auto simp: Let_def split: if_splits option.splits prod.splits)
    moreover obtain h1 docs where docs: "(case topics of
          Some topics \<Rightarrow> slice_of (handleTopicList doc (fd_Name d) topics) h
        | None \<Rightarrow> append_element grow \<lparr>e_Name = ''Generated'' @ fd_Name d, e_Doc = doc\<rparr> (h, s)) = (h1, docs)"
      by fastforce
    ultimately have rest: "elements_loop grow prefix topics path_filter ds
        (add_elements grow (finished (fd_Name d) prefix) docs (h1, s)) = Some (h', s')"
      using Cons.prems(1) by (simp add: Let_def)
    obtain h2 s2 where added: "add_elements grow (finished (fd_Name d) prefix) docs (h1, s) = (h2, s2)" by fastforce
    have one: "one_line (fd_Name d)" "one_line ''Generated''" using Cons.prems(5) by (simp, code_simp)
    have "slice_ok h1 docs \<and> slice_ok h1 s \<and> one_line_names h1 \<and> slice_values h1 s = slice_values h s"
    proof (cases topics)
      case None
      then have step: "append_element grow \<lparr>e_Name = ''Generated'' @ fd_Name d, e_Doc = doc\<rparr> (h, s) = (h1, docs)"
        using docs by simp
      have "slice_ok h1 s" "slice_values h1 s = slice_values h s"
        using step Cons.prems(2)
        by (auto simp: append_element_def slice_ok_def slice_values_def Let_def nth_append split: if_splits)
      then show ?thesis
        using append_element_ok(1) [OF step Cons.prems(2)] append_element_names [OF step Cons.prems(2,3)] one by simp
    next
      case (Some ts)
      then have step: "slice_of (handleTopicList doc (fd_Name d) ts) h = (h1, docs)" using docs by simp
      have "one_line_names h1"
        using step Cons.prems(3,6) Some handleTopicList_names [OF one(1)]
        by (auto simp: slice_of_def one_line_names_def nth_append less_Suc_eq)
      then show ?thesis
        using slice_of_ok(1) [OF step] slice_of_ok(4) [OF step Cons.prems(2)] by simp
    qed
    then have "slice_ok h2 s2 \<and> one_line_names h2 \<and> (\<forall>e \<in> set (slice_values h2 s2). comment_lines (e_Doc e))"
      using Cons.prems(4,7) by (intro add_elements_comments [OF added]) simp_all
    then show ?thesis using Cons.IH [of h2 s2] rest added Cons.prems(4-6) by simp
  qed
qed simp

section \<open>Properties\<close>

text \<open>
  C40. The generated documentation stays within comments: whatever the comments of the handlers contain,
  every line of the documentation of every generated element is empty or starts with two slashes, with
  and without a list of topics, so long as the prefix, the topics and the names of the handlers are
  single lines. No text from the comments becomes code of the generated file.
\<close>

theorem generated_docs_are_comments:
  assumes "getElements grow f prefix topics path_filter = Some elements"
    and "one_line prefix" "list_all one_line (case topics of None \<Rightarrow> [] | Some ts \<Rightarrow> ts)"
    and "list_all (\<lambda>d. one_line (fd_Name d)) (filterMethods f)"
  shows "list_all (\<lambda>e. comment_lines (e_Doc e)) elements"
proof -
  obtain h s where run: "elements_loop grow prefix topics path_filter (filterMethods f)
      ([[]], \<lparr>sl_array = 0, sl_len = 0\<rparr>) = Some (h, s)" and elements: "elements = slice_values h s"
    using assms(1) by (auto simp: getElements_def slice_of_empty)
  have "\<forall>e \<in> set (slice_values h s). comment_lines (e_Doc e)"
    by (rule elements_loop_comments [OF run _ _ assms(2,4,3)])
      (simp_all add: slice_ok_def one_line_names_def slice_values_def)
  then show ?thesis by (simp add: elements list_all_iff)
qed

theorem generated_docs_are_comments_witness:
  "\<exists>elements. getElements doubling sample_package ''permissions'' None (Some all_paths) = Some elements \<and>
     length elements = 7 \<and> list_all (\<lambda>e. comment_lines (e_Doc e)) elements"
proof -
  have "those (map (kept ''permissions'' all_paths) (filterMethods sample_package)) = Some [False, True, True, True]"
    by (rule sample_routes)
  then obtain elements where run: "getElements doubling sample_package ''permissions'' None (Some all_paths) = Some elements"
    and "length elements = 7"
    using elements_without_topics_double [of doubling sample_package "''permissions''" all_paths] by auto
  moreover have "one_line ''permissions''" by code_simp
  moreover have "list_all (\<lambda>d. one_line (fd_Name d)) (filterMethods sample_package)" by code_simp
  ultimately show ?thesis using generated_docs_are_comments [OF run] by simp
qed

end
