(* ===== verification/Auth.thy ===== *)
theory Auth
  imports Complex_Main Http
begin

text \<open>
  Getting access tokens for the client, \<open>pkg/client/auth.go\<close>: the requests to the OpenID provider
  and the functions that keep a token, refresh it and replace it. Times are nanoseconds since 1970,
  the numbers of seconds in a token are rationals: the rounding of \<open>float64\<close> is left out. The clock,
  the HTTP client and the parsing of decimal fractions are parameters.
\<close>

section \<open>Tokens\<close>

record openid_token =
  AccessToken :: string
  ExpiresIn :: rat
  RefreshExpiresIn :: rat
  RefreshToken :: string
  TokenType :: string
  RequestTime :: int

text \<open>The zero value; the zero time is the beginning of the year 1.\<close>

definition empty_token :: openid_token where
  "empty_token =
     \<lparr>AccessToken = [], ExpiresIn = 0, RefreshExpiresIn = 0, RefreshToken = [], TokenType = [],
      RequestTime = - 62135596800 * 10 ^ 9\<rparr>"

record 'w auth_lib =
  Now :: "('w, int) state"
  PostForm :: "string \<Rightarrow> url_values \<Rightarrow> ('w, error + response) state"
  status_line :: "int \<Rightarrow> string"
  body_text :: "json \<Rightarrow> string"
  ParseFloat :: "string \<Rightarrow> rat option"

text \<open>\<open>time.Time.Sub\<close> stays within 64 bits; \<open>Duration.Seconds\<close>.\<close>

definition time_Sub :: "int \<Rightarrow> int \<Rightarrow> int" where
  "time_Sub t u = max (- (2 ^ 63)) (min (2 ^ 63 - 1) (t - u))"

definition Seconds :: "int \<Rightarrow> rat" where
  "Seconds d = of_int d / 10 ^ 9"

definition read_float :: "(string \<Rightarrow> rat option) \<Rightarrow> rat reader" where
  "read_float parse v x =
     (case v of
        JNull \<Rightarrow> Inr x
      | JNum n \<Rightarrow> Inr (of_int n)
      | JFloat s \<Rightarrow> (case parse s of None \<Rightarrow> type_error | Some y \<Rightarrow> Inr y)
      | _ \<Rightarrow> type_error)"

definition token_fields :: "(string \<Rightarrow> rat option) \<Rightarrow> openid_token json_field list" where
  "token_fields parse =
     [(''access_token'', in_field read_string AccessToken (\<lambda>s t. t\<lparr>AccessToken := s\<rparr>)),
      (''expires_in'', in_field (read_float parse) ExpiresIn (\<lambda>s t. t\<lparr>ExpiresIn := s\<rparr>)),
      (''refresh_expires_in'', in_field (read_float parse) RefreshExpiresIn (\<lambda>s t. t\<lparr>RefreshExpiresIn := s\<rparr>)),
      (''refresh_token'', in_field read_string RefreshToken (\<lambda>s t. t\<lparr>RefreshToken := s\<rparr>)),
      (''token_type'', in_field read_string TokenType (\<lambda>s t. t\<lparr>TokenType := s\<rparr>))]"

text \<open>
  Decoding goes on after a member of the wrong type and reports the first error. Here the value that
  was read counts also when there is an error.
\<close>

fun fill_members :: "'r json_field list \<Rightarrow> (string \<times> json) list \<Rightarrow> 'r \<Rightarrow> 'r \<times> error option" where
  "fill_members fs [] r = (r, None)"
| "fill_members fs ((k, v) # ms) r =
     (case find_field fs k of
        None \<Rightarrow> fill_members fs ms r
      | Some rd \<Rightarrow>
          (case rd v r of
             Inl e \<Rightarrow> (fst (fill_members fs ms r), Some e)
           | Inr r' \<Rightarrow> fill_members fs ms r'))"

definition decode_token :: "(string \<Rightarrow> rat option) \<Rightarrow> body \<Rightarrow> openid_token \<times> error option" where
  "decode_token parse b =
     (case b of
        Raw s \<Rightarrow> (empty_token, Some (ErrLib (if s = [] then ''EOF'' else ''invalid character'')))
      | Json JNull \<Rightarrow> (empty_token, None)
      | Json (JObj ms) \<Rightarrow> fill_members (token_fields parse) ms empty_token
      | Json _ \<Rightarrow> (empty_token, Some (ErrLib ''json: cannot unmarshal value'')))"

section \<open>Requests\<close>

definition token_url :: "string \<Rightarrow> string" where
  "token_url authEndpoint = authEndpoint @ ''/auth/realms/master/protocol/openid-connect/token''"

definition auth_form :: "(string \<times> string) list \<Rightarrow> url_values" where
  "auth_form kvs = fold (\<lambda>(k, v). Set_value k v) kvs DAList.empty"

text \<open>What the three requests have in common: the token and the error they return.\<close>

definition post_token ::
  "'w auth_lib \<Rightarrow> string \<Rightarrow> (string \<times> string) list \<Rightarrow> ('w, openid_token \<times> error option) state" where
  "post_token L authEndpoint form = do {
     requesttime \<leftarrow> Now L;
     resp \<leftarrow> PostForm L (token_url authEndpoint) (auth_form form);
     (case resp of
        Inl err \<Rightarrow> ret (empty_token, Some err)
      | Inr resp \<Rightarrow>
          if 300 \<le> rs_status resp
          then ret (empty_token, Some (Err (status_line L (rs_status resp) @ '': '' @
                 (case rs_body resp of Raw s \<Rightarrow> s | Json v \<Rightarrow> body_text L v))))
          else
            let (openid, err) = decode_token (ParseFloat L) (rs_body resp)
            in ret (openid\<lparr>RequestTime := requesttime\<rparr>, err))
   }"

definition getOpenidToken ::
  "'w auth_lib \<Rightarrow> string \<Rightarrow> string \<Rightarrow> string \<Rightarrow> ('w, openid_token \<times> error option) state" where
  "getOpenidToken L authEndpoint authClientId authClientSecret =
     post_token L authEndpoint
       [(''client_id'', authClientId), (''client_secret'', authClientSecret),
        (''grant_type'', ''client_credentials'')]"

definition refreshOpenidToken ::
  "'w auth_lib \<Rightarrow> string \<Rightarrow> string \<Rightarrow> string \<Rightarrow> openid_token \<Rightarrow> ('w, openid_token \<times> error option) state" where
  "refreshOpenidToken L authEndpoint authClientId authClientSecret oldOpenid =
     post_token L authEndpoint
       [(''client_id'', authClientId), (''client_secret'', authClientSecret),
        (''refresh_token'', RefreshToken oldOpenid), (''grant_type'', ''refresh_token'')]"

definition getOpenidPasswordToken ::
  "'w auth_lib \<Rightarrow> string \<Rightarrow> string \<Rightarrow> string \<Rightarrow> string \<Rightarrow> string \<Rightarrow>
   ('w, openid_token \<times> error option) state" where
  "getOpenidPasswordToken L authEndpoint authClientId authClientSecret username password =
     post_token L authEndpoint
       [(''client_id'', authClientId), (''client_secret'', authClientSecret),
        (''username'', username), (''password'', password), (''grant_type'', ''password'')]"

section \<open>Providers\<close>

text \<open>
  What a provider does under its lock: the token it has afterwards, and the error if there is one.
  \<open>fetch\<close> is the request for a new token.
\<close>

definition locked_part ::
  "'w auth_lib \<Rightarrow> (openid_token \<Rightarrow> ('w, openid_token \<times> error option) state) \<Rightarrow>
   ('w, openid_token \<times> error option) state \<Rightarrow> openid_token \<Rightarrow> ('w, openid_token \<times> error option) state" where
  "locked_part L refresh fetch openid = do {
     t \<leftarrow> Now L;
     let duration = Seconds (time_Sub t (RequestTime openid)) + 10;
     if AccessToken openid \<noteq> [] \<and> ExpiresIn openid > duration then ret (openid, None)
     else if RefreshToken openid \<noteq> [] \<and> RefreshExpiresIn openid > duration
     then do {
       (openid, err) \<leftarrow> refresh openid;
       (case err of None \<Rightarrow> ret (openid, None) | Some _ \<Rightarrow> fetch)
     }
     else fetch
   }"

text \<open>A whole call: the token as it is sent, and what the provider keeps; after an error nothing.\<close>

definition provider ::
  "'w auth_lib \<Rightarrow> (openid_token \<Rightarrow> ('w, openid_token \<times> error option) state) \<Rightarrow>
   ('w, openid_token \<times> error option) state \<Rightarrow> openid_token \<Rightarrow> ('w, (error + string) \<times> openid_token) state" where
  "provider L refresh fetch openid = do {
     (openid, err) \<leftarrow> locked_part L refresh fetch openid;
     (case err of
        Some err \<Rightarrow> ret (Inl err, empty_token)
      | None \<Rightarrow> ret (Inr (''Bearer '' @ AccessToken openid), openid))
   }"

definition NewTokenProvider ::
  "'w auth_lib \<Rightarrow> string \<Rightarrow> string \<Rightarrow> string \<Rightarrow> openid_token \<Rightarrow>
   ('w, (error + string) \<times> openid_token) state" where
  "NewTokenProvider L authEndpoint authClientId authClientSecret =
     provider L (refreshOpenidToken L authEndpoint authClientId authClientSecret)
       (getOpenidToken L authEndpoint authClientId authClientSecret)"

definition NewUserTokenProvider ::
  "'w auth_lib \<Rightarrow> string \<Rightarrow> string \<Rightarrow> string \<Rightarrow> string \<Rightarrow> string \<Rightarrow> openid_token \<Rightarrow>
   ('w, (error + string) \<times> openid_token) state" where
  "NewUserTokenProvider L authEndpoint authClientId authClientSecret userName pw =
     provider L (refreshOpenidToken L authEndpoint authClientId authClientSecret)
       (getOpenidPasswordToken L authEndpoint authClientId authClientSecret userName pw)"

section \<open>What is returned\<close>

text \<open>A token that an answer of the endpoint holds, with the time of its request.\<close>

definition obtained :: "'w auth_lib \<Rightarrow> string \<Rightarrow> openid_token \<Rightarrow> bool" where
  "obtained L authEndpoint o1 \<longleftrightarrow>
     (\<exists>form w resp w' o2 t. run_state (PostForm L (token_url authEndpoint) form) w = (Inr resp, w') \<and>
        rs_status resp < 300 \<and> decode_token (ParseFloat L) (rs_body resp) = (o2, None) \<and>
        o1 = o2\<lparr>RequestTime := t\<rparr>)"

text \<open>What the requests and the locked part end with.\<close>

definition token_result :: "'w auth_lib \<Rightarrow> string \<Rightarrow> openid_token \<times> error option \<Rightarrow> bool" where
  "token_result L authEndpoint = (\<lambda>(o1, err). err = None \<longrightarrow> obtained L authEndpoint o1)"

lemma post_token_result:
  "run_state (post_token L authEndpoint form) w = (r, w') \<Longrightarrow> token_result L authEndpoint r"
  by (fastforce simp: post_token_def token_result_def obtained_def Let_def split: prod.splits sum.splits if_splits)

lemma locked_part_result:
  assumes "\<And>o1 w r w'. run_state (refresh o1) w = (r, w') \<Longrightarrow> token_result L ep r"
    and "\<And>w r w'. run_state fetch w = (r, w') \<Longrightarrow> token_result L ep r"
    and "run_state (locked_part L refresh fetch openid) w = (r, w')"
  shows "(r = (openid, None) \<and> w' = snd (run_state (Now L) w) \<and>
      Seconds (time_Sub (fst (run_state (Now L) w)) (RequestTime openid)) + 10 < ExpiresIn openid \<and>
      AccessToken openid \<noteq> []) \<or> token_result L ep r"
proof -
  obtain t v where now: "run_state (Now L) w = (t, v)" by fastforce
  show ?thesis
    using assms(3) assms(1) [of openid v] assms(2)
    by (auto simp: locked_part_def now Let_def token_result_def split: prod.splits if_splits option.splits)
qed

lemma provider_result:
  assumes "\<And>o1 w r w'. run_state (refresh o1) w = (r, w') \<Longrightarrow> token_result L ep r"
    and "\<And>w r w'. run_state fetch w = (r, w') \<Longrightarrow> token_result L ep r"
    and "run_state (provider L refresh fetch openid) w = ((res, openid'), w')"
  shows "case res of
      Inl err \<Rightarrow> openid' = empty_token
    | Inr s \<Rightarrow> s = ''Bearer '' @ AccessToken openid' \<and>
        (openid' = openid \<and> w' = snd (run_state (Now L) w) \<and> AccessToken openid \<noteq> [] \<and>
           Seconds (time_Sub (fst (run_state (Now L) w)) (RequestTime openid)) + 10 < ExpiresIn openid \<or>
         obtained L ep openid')"
proof -
  obtain o1 e w1 where run: "run_state (locked_part L refresh fetch openid) w = ((o1, e), w1)"
    by (metis surj_pair)
  show ?thesis
    using locked_part_result [OF assms(1,2) run] assms(3)
    by (cases e) (auto simp: provider_def run token_result_def)
qed

section \<open>Calls that overlap\<close>

text \<open>
  The deferred functions of a call run in the opposite order: the lock is released first, then the
  token is removed if there was an error. So a failing call writes to the token without the lock. The
  steps of a call: under the lock, reading the token to return, returning, releasing the lock, removing
  the token.
\<close>

datatype auth_call = Waiting | Reading | Failing error | Resetting error | Returned "error + string"

record 'w auth_state =
  as_openid :: openid_token
  as_locked :: bool
  as_world :: 'w

text \<open>\<open>None\<close> is a call that has to wait or is over.\<close>

fun call_step ::
  "'w auth_lib \<Rightarrow> (openid_token \<Rightarrow> ('w, openid_token \<times> error option) state) \<Rightarrow>
   ('w, openid_token \<times> error option) state \<Rightarrow> auth_call \<Rightarrow> 'w auth_state \<Rightarrow>
   (auth_call \<times> 'w auth_state) option" where
  "call_step L refresh fetch Waiting s =
     (if as_locked s then None
      else
        let ((openid, err), w) = run_state (locked_part L refresh fetch (as_openid s)) (as_world s)
        in Some (case err of None \<Rightarrow> Reading | Some e \<Rightarrow> Failing e,
             s\<lparr>as_openid := openid, as_locked := True, as_world := w\<rparr>))"
| "call_step L refresh fetch Reading s =
     Some (Returned (Inr (''Bearer '' @ AccessToken (as_openid s))), s\<lparr>as_locked := False\<rparr>)"
| "call_step L refresh fetch (Failing e) s = Some (Resetting e, s\<lparr>as_locked := False\<rparr>)"
| "call_step L refresh fetch (Resetting e) s = Some (Returned (Inl e), s\<lparr>as_openid := empty_token\<rparr>)"
| "call_step L refresh fetch (Returned r) s = None"

text \<open>A schedule names the call that takes the next step; a call that cannot is passed over.\<close>

fun run_calls ::
  "'w auth_lib \<Rightarrow> (openid_token \<Rightarrow> ('w, openid_token \<times> error option) state) \<Rightarrow>
   ('w, openid_token \<times> error option) state \<Rightarrow> nat list \<Rightarrow> auth_call list \<times> 'w auth_state \<Rightarrow>
   auth_call list \<times> 'w auth_state" where
  "run_calls L refresh fetch [] cs = cs"
| "run_calls L refresh fetch (i # is) (calls, s) =
     (if i < length calls
      then
        case call_step L refresh fetch (calls ! i) s of
          None \<Rightarrow> run_calls L refresh fetch is (calls, s)
        | Some (c, s') \<Rightarrow> run_calls L refresh fetch is (calls[i := c], s')
      else run_calls L refresh fetch is (calls, s))"

text \<open>A call on its own is the provider.\<close>

lemma call_alone:
  assumes "run_state (provider L refresh fetch openid) w = ((res, openid'), w')"
  shows "run_calls L refresh fetch [0, 0, 0] ([Waiting], \<lparr>as_openid = openid, as_locked = False, as_world = w\<rparr>) =
    ([Returned res], \<lparr>as_openid = openid', as_locked = False, as_world = w'\<rparr>)"
proof -
  obtain o1 e w1 where run: "run_state (locked_part L refresh fetch openid) w = ((o1, e), w1)"
    by (metis surj_pair)
  show ?thesis using assms by (cases e) (auto simp: provider_def run)
qed

section \<open>A sample endpoint\<close>

text \<open>The world holds the answers still to come; the clock stands still.\<close>

type_synonym answers = "(error + response) list"

definition sample_post :: "(answers, error + response) state" where
  "sample_post = State (\<lambda>w. case w of [] \<Rightarrow> (Inl (ErrLib ''timeout''), []) | r # rs \<Rightarrow> (r, rs))"

definition sample_auth :: "answers auth_lib" where
  "sample_auth =
     \<lparr>Now = ret 0, PostForm = (\<lambda>url form. sample_post), status_line = (\<lambda>_. ''error''),
      body_text = (\<lambda>_. []), ParseFloat = (\<lambda>_. None)\<rparr>"

definition token_response :: "string \<Rightarrow> response" where
  "token_response tok =
     \<lparr>rs_status = 200, rs_header = DAList.empty,
      rs_body = Json (JObj [(''access_token'', JStr tok), (''expires_in'', JNum 300)])\<rparr>"

section \<open>Properties\<close>


lemma sample_provider:
  "map_prod (map_prod id AccessToken) id
     (run_state (NewTokenProvider sample_auth ''http://auth'' ''id'' ''secret'' empty_token)
        [Inr (token_response ''t'')]) = ((Inr ''Bearer t'', ''t''), [])"
  by code_simp



end
