(* ===== verification/Authorisation.thy ===== *)
theory Authorisation
  imports ApiRouter CtlTopics
begin

text \<open>
  What a requester who is no admin can change at all, over the whole API: from the request that reaches
  the router of a service through its handler and the operation of the controller to the store.
\<close>

section \<open>Actions and what they may do\<close>

text \<open>Every answer of an action leads from a state to one in the relation \<open>R\<close> with it.\<close>

definition acts :: "('w \<Rightarrow> 'w \<Rightarrow> bool) \<Rightarrow> ('w \<Rightarrow> ('a \<times> 'w) option) \<Rightarrow> bool" where
  "acts R act \<longleftrightarrow> (\<forall>w x w'. act w = Some (x, w') \<longrightarrow> R w w')"

named_theorems acts_rules \<open>rules that show what an action does\<close>

lemma actsD: "acts R act \<Longrightarrow> act w = Some (x, w') \<Longrightarrow> R w w'"
  by (auto simp: acts_def)

lemma acts_run_call: "(\<And>w x w'. run_state m w = (x, w') \<Longrightarrow> R w w') \<Longrightarrow> acts R (run_call m)"
  by (auto simp: acts_def run_call_def)

lemma acts_leaves:
  "leaves I f act \<Longrightarrow> (\<And>w w'. (I w \<Longrightarrow> I w' \<and> f w' = f w) \<Longrightarrow> R w w') \<Longrightarrow> acts R act"
  by (auto simp: acts_def leaves_def)

lemma acts_answer [acts_rules]: "acts R call \<Longrightarrow> acts R (answer call ok)"
proof -
  have "\<exists>r. call w = Some (r, w')" if "answer call ok w = Some (x, w')" for x w w'
    using that by (auto simp: answer_def split: option.splits prod.splits sum.splits)
  then show "acts R call \<Longrightarrow> acts R (answer call ok)" unfolding acts_def by metis
qed

lemma acts_if [acts_rules]: "(b \<Longrightarrow> acts R m) \<Longrightarrow> (\<not> b \<Longrightarrow> acts R n) \<Longrightarrow> acts R (if b then m else n)"
  by simp

lemma acts_sum [acts_rules]:
  "(\<And>e. r = Inl e \<Longrightarrow> acts R (m e)) \<Longrightarrow> (\<And>v. r = Inr v \<Longrightarrow> acts R (n v)) \<Longrightarrow>
   acts R (case r of Inl e \<Rightarrow> m e | Inr v \<Rightarrow> n v)"
  by (cases r) auto

lemma acts_ServeMux:
  assumes "\<And>w. R w w"
    and "\<And>pat h ms. (pat, h) \<in> set mux \<Longrightarrow> acts R (h (r\<lparr>rq_path_values := ms\<rparr>))"
  shows "acts R (ServeMux mux r)"
  unfolding acts_def
proof (intro allI impI)
  fix w x w' assume run: "ServeMux mux r w = Some (x, w')"
  let ?p = "cleanPath (EscapedPath (rq_url r))"
  show "R w w'"
  proof (cases "match_method mux (rq_method r) ?p")
    case None
    then show ?thesis using run assms(1) by (auto simp: ServeMux_def Let_def split: if_splits list.splits)
  next
    case (Some y)
    then obtain names h ms where y: "match_method mux (rq_method r) ?p = Some ((names, h), ms)" by (cases y) auto
    then obtain pat where "(pat, h) \<in> set mux" using match_method_in [OF y] by blast
    from assms(2) [OF this] show ?thesis
      using run y assms(1) by (auto simp: ServeMux_def Let_def split: if_splits dest: actsD)
  qed
qed

section \<open>Changes without admin rights\<close>

text \<open>
  The only change: the entry of one resource that the requester administrates, by the resource itself
  or by the default of its topic, gets valid permissions.
\<close>

definition permitted_change :: "token \<Rightarrow> store \<Rightarrow> store \<Rightarrow> bool" where
  "permitted_change token st st' \<longleftrightarrow>
     st' = st \<or>
     (\<exists>t i p. may_administrate st token t i \<and> Valid p \<and>
        st' = put_resource \<lparr>r_id = i, r_topic_id = t, r_permissions = p\<rparr> st)"

definition may_change ::
  "('s \<Rightarrow> bool) \<Rightarrow> ('s \<Rightarrow> store) \<Rightarrow> token \<Rightarrow> ('s, 'e, 'p) world \<Rightarrow> ('s, 'e, 'p) world \<Rightarrow> bool" where
  "may_change I store token w w' \<longleftrightarrow>
     (I (w_db w) \<longrightarrow> I (w_db w') \<and> permitted_change token (store (w_db w)) (store (w_db w')))"

lemma may_change_refl: "may_change I store token w w"
  by (simp add: may_change_def permitted_change_def)

lemma may_change_bad_request: "acts (may_change I store token) (bad_request msg)"
  by (simp add: acts_def bad_request_def may_change_refl)

lemma may_change_leaves:
  "leaves (\<lambda>w. I (w_db w)) (\<lambda>w. store (w_db w)) act \<Longrightarrow> acts (may_change I store token) act"
  by (rule acts_leaves) (auto simp: may_change_def permitted_change_def)

context database
begin

lemma operations_act:
  assumes C: "ctl_db C = db" and parse: "jwt_Parse C s = Inr token" and no_admin: "\<not> IsAdmin token"
  shows "acts (may_change invar store_of token) (run_call (SetPermission C s t i p))"
    "acts (may_change invar store_of token) (run_call (RemoveResource C s t i))"
    "acts (may_change invar store_of token) (run_call (CtlSetTopic C s topic))"
    "acts (may_change invar store_of token) (run_call (RemoveTopic C s t))"
    "acts (may_change invar store_of token) (run_call (Import C s doc options))"
proof -
  show "acts (may_change invar store_of token) (run_call (SetPermission C s t i p))"
  proof (rule acts_run_call)
    fix w x w' assume run: "run_state (SetPermission C s t i p) w = (x, w')"
    show "may_change invar store_of token w w'"
      unfolding may_change_def permitted_change_def
    proof (intro impI conjI)
      assume inv: "invar (w_db w)"
      note result = SetPermission_store(1,2) [OF C inv parse run]
      show "invar (w_db w')" by (rule result(1))
      show "store_of (w_db w') = store_of (w_db w) \<or>
          (\<exists>t i p. may_administrate (store_of (w_db w)) token t i \<and> Valid p \<and>
            store_of (w_db w') = put_resource \<lparr>r_id = i, r_topic_id = t, r_permissions = p\<rparr> (store_of (w_db w)))"
      proof (cases "store_of (w_db w') = store_of (w_db w)")
        case False
        from result(2) [OF this] no_admin obtain p' where "may_administrate (store_of (w_db w)) token t (pure_id i)"
          "Valid p" "rp_user p' = rp_user p" "store_of (w_db w') =
            put_resource \<lparr>r_id = pure_id i, r_topic_id = t, r_permissions = p'\<rparr> (store_of (w_db w))"
          by (auto simp: edit_allowed_def)
        with Valid_user show ?thesis by blast
      qed simp
    qed
  qed
  show "acts (may_change invar store_of token) (run_call (RemoveResource C s t i))"
    using RemoveResource_store [OF C _ parse] no_admin
    by (intro acts_run_call) (auto simp: may_change_def permitted_change_def)
  show "acts (may_change invar store_of token) (run_call (CtlSetTopic C s topic))"
    using CtlSetTopic_store(1,2) [OF C _ parse] no_admin
    by (intro acts_run_call) (fastforce simp: may_change_def permitted_change_def)
  show "acts (may_change invar store_of token) (run_call (RemoveTopic C s t))"
    using RemoveTopic_store [OF C _ parse] no_admin
    by (intro acts_run_call) (fastforce simp: may_change_def permitted_change_def)
  show "acts (may_change invar store_of token) (run_call (Import C s doc options))"
    using Import_imported [OF C _ parse] no_admin
    by (intro acts_run_call) (fastforce simp: may_change_def permitted_change_def)
qed

lemma handlers_act:
  assumes C: "ctl_db C = db" and laws: "token_laws L C"
    and parse: "jwt_Parse C (Get (rq_header r) ''Authorization'') = Inr token" and no_admin: "\<not> IsAdmin token"
    and endpoint: "(pat, h) \<in> set (endpoints cfg L ui (controller_api C))" and ui: "\<And>r w. \<exists>g. ui r w = Some (g, w)"
  shows "acts (may_change invar store_of token) (h r)"
proof -
  have tok: "GetAuthToken L r = Get (rq_header r) ''Authorization''" "GetParsedToken L r = Inr token"
    using laws parse by (simp_all add: token_laws_def)
  let ?leaves = "leaves (\<lambda>w. invar (w_db w)) (\<lambda>w. store_of (w_db w))"
  have "?leaves (ui r)" unfolding leaves_def using ui by (metis option.inject prod.inject)
  note leaving = this reading_handlers [OF controller_reads_only [OF C], of L r]
    constant_handlers [of "\<lambda>w. invar (w_db w)" "\<lambda>w. store_of (w_db w)"]
  have load: "acts (may_change invar store_of token) (h_AdminLoadFromPermissionSearch L (controller_api C) r)"
    by (simp add: h_AdminLoadFromPermissionSearch_def tok no_admin acts_def may_change_refl)
  note ops = operations_act [OF C parse no_admin]
  have edits: "acts (may_change invar store_of token) (h_SetTopic L (controller_api C) r)"
    "acts (may_change invar store_of token) (h_SetTopicByPost L (controller_api C) r)"
    "acts (may_change invar store_of token) (h_DeleteTopic L (controller_api C) r)"
    "acts (may_change invar store_of token) (h_DeleteResource L (controller_api C) r)"
    "acts (may_change invar store_of token) (h_SetPermission L (controller_api C) r)"
    "acts (may_change invar store_of token) (h_Import L (controller_api C) r)"
    unfolding h_SetTopic_def h_SetTopicByPost_def h_DeleteTopic_def h_DeleteResource_def h_SetPermission_def
      h_Import_def Let_def tok
    by (auto simp: controller_api_def intro!: acts_rules may_change_bad_request ops)
  show ?thesis
    using endpoint edits load leaving [THEN may_change_leaves]
    by (auto simp: endpoints_def swagger_endpoints_def split: if_splits)
qed

end

section \<open>Properties\<close>

text \<open>
  C2. Who is no admin can change at most the permissions of one resource with one request: whatever is
  requested of the router, with whatever path, method and body, the store is as before, or the entry of
  one resource that the requester administrates has got valid permissions.
\<close>

theorem non_admin_requests:
  assumes "database db store_of invar" "ctl_db C = db" "invar (w_db w)"
    and "token_laws L C" "jwt_Parse C (Get (rq_header r) ''Authorization'') = Inr token" "\<not> IsAdmin token"
    and "\<And>r w. \<exists>g. ui r w = Some (g, w)"
    and "serve (GetRouterWithoutMiddleware cfg L ui (controller_api C)) r w = Some (resp, w')"
  shows "invar (w_db w') \<and> permitted_change token (store_of (w_db w)) (store_of (w_db w'))"
proof -
  obtain g where run: "ServeMux (endpoints cfg L ui (controller_api C)) r w = Some (g, w')"
    using assms(8) by (auto simp: serve_Some GetRouterWithoutMiddleware_def)
  have "acts (may_change invar store_of token) (ServeMux (endpoints cfg L ui (controller_api C)) r)"
    using assms(5) by (intro acts_ServeMux may_change_refl
        database.handlers_act [OF assms(1,2,4) _ assms(6) _ assms(7)]) simp_all
  from actsD [OF this run] show ?thesis using assms(3) by (simp add: may_change_def)
qed

definition share_request :: request where
  "share_request = sample_request ''PUT'' [''manage'', ''devices'', ''d''] [] ''Bearer alice''
     (Json (json_resource_permissions shared))"

lemma share_request_answer:
  "map_option (\<lambda>(resp, _). rs_status resp)
     (serve (GetRouterWithoutMiddleware sample_config sample_lib no_ui (controller_api sample_controller))
        share_request sample_world) = Some 200"
  by code_simp

theorem non_admin_requests_witness:
  "\<exists>resp w'. serve (GetRouterWithoutMiddleware sample_config sample_lib no_ui (controller_api sample_controller))
      share_request sample_world = Some (resp, w') \<and> rs_status resp = 200 \<and>
    permitted_change alice (mock_store (w_db sample_world)) (mock_store (w_db w'))"
proof -
  obtain resp w' where run: "serve (GetRouterWithoutMiddleware sample_config sample_lib no_ui
      (controller_api sample_controller)) share_request sample_world = Some (resp, w')"
    and status: "rs_status resp = 200"
    using share_request_answer by (auto split: prod.splits)
  have "Get (rq_header share_request) ''Authorization'' = ''Bearer alice''"
    by (simp add: share_request_def sample_request_def Get_def Set_value_def values_list_def lookup_update)
  then have "jwt_Parse sample_controller (Get (rq_header share_request) ''Authorization'') = Inr alice"
    using sample_parse(1) by simp
  from non_admin_requests [OF mock.database_axioms sample_db sample_invar sample_token_laws this _ no_ui_constant run]
  show ?thesis using run status by (simp add: alice_def)
qed

end
