(* ===== verification/MongoMigration.thy ===== *)
theory MongoMigration
  imports MongoContract Configuration
begin

text \<open>
  Opening the production database, \<open>pkg/database/mongo/mongo.go\<close>: connecting, the indexes that the
  files of the package ask for, and the migration of the content of another database into an empty
  one. The driver is a parameter. The theorems say what a migration that ends well has copied, and
  what becomes of one that was cut short.
\<close>

section \<open>The driver\<close>

record index_model =
  im_keys :: "(string \<times> int) list"
  im_name :: string
  im_unique :: bool

text \<open>
  A client and its operations on the collection with the given names of database and collection;
  the documents of a collection are entries or topics.
\<close>

record 'm client =
  cl_permissions :: "string \<Rightarrow> string \<Rightarrow> (permissions_entry, 'm) collection"
  cl_topics :: "string \<Rightarrow> string \<Rightarrow> (topic, 'm) collection"
  cl_CreateIndex :: "string \<Rightarrow> string \<Rightarrow> index_model \<Rightarrow> ('m, error option) state"
  cl_DropIndex :: "string \<Rightarrow> string \<Rightarrow> string \<Rightarrow> ('m, error option) state"
  cl_Disconnect :: "('m, error option) state"

record 'm driver =
  drv_Connect :: "string \<Rightarrow> ('m, error + 'm client) state"
  drv_now :: "('m, int) state"

section \<open>Operations\<close>

text \<open>The handle \<open>&Database{config: conf, client: client}\<close> with the collections it reaches.\<close>

definition Database :: "'m driver \<Rightarrow> config \<Rightarrow> 'm client \<Rightarrow> 'm mongo" where
  "Database drv conf client =
     \<lparr>permissionsCollection =
        cl_permissions client (cfg_MongoDatabase conf) (cfg_MongoPermissionsCollection conf),
      topicsCollection = cl_topics client (cfg_MongoDatabase conf) (cfg_MongoTopicsCollection conf),
      mongo_now = drv_now drv,
      SyncAgeLimit = GetDuration (cfg_SyncAgeLimit conf) div 1000000\<rparr>"

definition ensureIndex ::
  "'m client \<Rightarrow> string \<Rightarrow> string \<Rightarrow> string \<Rightarrow> string \<Rightarrow> bool \<Rightarrow> bool \<Rightarrow> ('m, error option) state" where
  "ensureIndex client dbname collection indexname indexKey asc unique =
     (let direction = (if asc then 1 else - 1)
      in cl_CreateIndex client dbname collection
           \<lparr>im_keys = [(indexKey, direction)], im_name = indexname, im_unique = unique\<rparr>)"

definition ensureCompoundIndex ::
  "'m client \<Rightarrow> string \<Rightarrow> string \<Rightarrow> string \<Rightarrow> bool \<Rightarrow> bool \<Rightarrow> string list \<Rightarrow> ('m, error option) state" where
  "ensureCompoundIndex client dbname collection indexname asc unique indexKeys =
     (let direction = (if asc then 1 else - 1)
      in cl_CreateIndex client dbname collection
           \<lparr>im_keys = map (\<lambda>key. (key, direction)) indexKeys, im_name = indexname,
            im_unique = unique\<rparr>)"

definition removeIndex :: "'m client \<Rightarrow> string \<Rightarrow> string \<Rightarrow> string \<Rightarrow> ('m, error option) state" where
  "removeIndex client dbname collection indexname = do {
     err \<leftarrow> cl_DropIndex client dbname collection indexname;
     case err of
       None \<Rightarrow> ret None
     | Some e \<Rightarrow> if Contains (error_text e) ''IndexNotFound'' then ret None else ret (Some e) }"

definition create_permissions_collection :: "config \<Rightarrow> 'm client \<Rightarrow> ('m, error option) state" where
  "create_permissions_collection conf client = do {
     err \<leftarrow> ensureCompoundIndex client (cfg_MongoDatabase conf) (cfg_MongoPermissionsCollection conf)
       ''permissionsbytopicandid'' True True
       [PermissionsEntryBson ''TopicId'', PermissionsEntryBson ''Id''];
     case err of
       Some e \<Rightarrow> ret (Some e)
     | None \<Rightarrow> removeIndex client (cfg_MongoDatabase conf) (cfg_MongoPermissionsCollection conf)
                 ''topicbyid'' }"

definition create_topics_collection :: "config \<Rightarrow> 'm client \<Rightarrow> ('m, error option) state" where
  "create_topics_collection conf client =
     ensureIndex client (cfg_MongoDatabase conf) (cfg_MongoTopicsCollection conf)
       ''fixedtopicbyid'' (TopicBson ''Id'') True True"

text \<open>The order of the \<open>init\<close> functions is that of the files of the package.\<close>

definition CreateCollections :: "(config \<Rightarrow> 'm client \<Rightarrow> ('m, error option) state) list" where
  "CreateCollections = [create_permissions_collection, create_topics_collection]"

fun run_creators ::
  "(config \<Rightarrow> 'm client \<Rightarrow> ('m, error option) state) list \<Rightarrow> config \<Rightarrow> 'm client \<Rightarrow>
   ('m, error option) state" where
  "run_creators [] conf client = ret None"
| "run_creators (creators # rest) conf client = do {
     err \<leftarrow> creators conf client;
     case err of Some e \<Rightarrow> ret (Some e) | None \<Rightarrow> run_creators rest conf client }"

fun copy_topics :: "'m mongo \<Rightarrow> topic list \<Rightarrow> ('m, error option) state" where
  "copy_topics db [] = ret None"
| "copy_topics db (topic # topics) = do {
     err \<leftarrow> Mongo_SetTopic db topic;
     case err of Some e \<Rightarrow> ret (Some e) | None \<Rightarrow> copy_topics db topics }"

text \<open>The loop over the cursor of the source; at its end the error of the cursor counts.\<close>

fun copy_entries ::
  "'m mongo \<Rightarrow> (error + permissions_entry) list \<Rightarrow> error option \<Rightarrow> ('m, error option) state" where
  "copy_entries db [] err = ret err"
| "copy_entries db (Inl e # docs) err = ret (Some e)"
| "copy_entries db (Inr element # docs) err = do {
     werr \<leftarrow> coll_ReplaceOne (permissionsCollection db)
       (key_filter (pe_topic_id element) (pe_id element)) element True;
     case werr of Some e \<Rightarrow> ret (Some e) | None \<Rightarrow> copy_entries db docs err }"

definition MigrateDb :: "'m driver \<Rightarrow> 'm mongo \<Rightarrow> config \<Rightarrow> ('m, error option) state" where
  "MigrateDb drv db origConf = do {
     let conf = origConf\<lparr>cfg_MongoUrl := cfg_MigrateFromMongoUrl origConf\<rparr>;
     c \<leftarrow> drv_Connect drv (cfg_MongoUrl conf);
     case c of
       Inl err \<Rightarrow> ret (Some err)
     | Inr client \<Rightarrow> do {
         let source = Database drv conf client;
         l \<leftarrow> Mongo_ListTopics source default_list_options;
         case l of
           Inl err \<Rightarrow> ret (Some err)
         | Inr topics \<Rightarrow> do {
             err \<leftarrow> copy_topics db topics;
             case err of
               Some e \<Rightarrow> ret (Some e)
             | None \<Rightarrow> do {
                 found \<leftarrow> coll_Find (permissionsCollection source) (FDoc []) no_find_options;
                 case found of
                   Inl err \<Rightarrow> ret (Some err)
                 | Inr cursor \<Rightarrow> copy_entries db (fst cursor) (snd cursor) } } } }"

definition Mongo_New :: "'m driver \<Rightarrow> config \<Rightarrow> ('m, error + 'm mongo) state" where
  "Mongo_New drv conf = do {
     c \<leftarrow> drv_Connect drv (cfg_MongoUrl conf);
     case c of
       Inl err \<Rightarrow> ret (Inl err)
     | Inr client \<Rightarrow> do {
         let db = Database drv conf client;
         err \<leftarrow> run_creators CreateCollections conf client;
         case err of
           Some e \<Rightarrow> do { _ \<leftarrow> cl_Disconnect client; ret (Inl e) }
         | None \<Rightarrow>
             if cfg_MigrateFromMongoUrl conf \<noteq> [] \<and> cfg_MigrateFromMongoUrl conf \<noteq> ''-''
             then do {
               l \<leftarrow> Mongo_ListTopics db default_list_options;
               case l of
                 Inl err \<Rightarrow> ret (Inl err)
               | Inr topics \<Rightarrow>
                   if length topics = 0
                   then do {
                     err \<leftarrow> MigrateDb drv db conf;
                     case err of Some e \<Rightarrow> ret (Inl e) | None \<Rightarrow> ret (Inr db) }
                   else ret (Inr db) }
             else ret (Inr db) } }"


section \<open>Copying\<close>

text \<open>The entry stored for a topic and an id.\<close>

definition entry_at ::
  "('m \<Rightarrow> permissions_entry list) \<Rightarrow> 'm \<Rightarrow> string \<times> string \<Rightarrow> permissions_entry option" where
  "entry_at P s = (\<lambda>k. find (\<lambda>e. pe_key e = k) (P s))"

lemma entry_at_Some:
  "mongo_invar P T s \<Longrightarrow> entry_at P s k = Some e \<longleftrightarrow> e \<in> set (P s) \<and> pe_key e = k"
  unfolding entry_at_def by (rule mongo_find_key)

lemma entry_at_store: "st_resources (mongo_store P T s) t i = map_option entry_acl (entry_at P s (t, i))"
  by (simp add: mongo_store_def entry_at_def)

text \<open>The operations of a handle leave an observation alone.\<close>

definition apart :: "'m mongo \<Rightarrow> ('m \<Rightarrow> 'o) \<Rightarrow> bool" where
  "apart D f \<longleftrightarrow>
     preserves (\<lambda>_. True) f (mongo_now D) \<and>
     (\<forall>flt opt. preserves (\<lambda>_. True) f (coll_Find (permissionsCollection D) flt opt)) \<and>
     (\<forall>flt opt. preserves (\<lambda>_. True) f (coll_Find (topicsCollection D) flt opt)) \<and>
     (\<forall>flt doc up. preserves (\<lambda>_. True) f (coll_ReplaceOne (permissionsCollection D) flt doc up)) \<and>
     (\<forall>flt doc up. preserves (\<lambda>_. True) f (coll_ReplaceOne (topicsCollection D) flt doc up))"

lemma apart_SetTopic: "apart D f \<Longrightarrow> preserves (\<lambda>_. True) f (Mongo_SetTopic D topic)"
  unfolding Mongo_SetTopic_def apart_def Let_def by (intro preserves_rules) simp_all

lemma apart_ListTopics: "apart D f \<Longrightarrow> preserves (\<lambda>_. True) f (Mongo_ListTopics D opt)"
  unfolding Mongo_ListTopics_def find_all_def apart_def by (intro preserves_rules) simp_all

lemma apart_Find: "apart D f \<Longrightarrow> preserves (\<lambda>_. True) f (coll_Find (permissionsCollection D) flt opt)"
  unfolding apart_def by blast

lemma apart_ReplaceOne:
  "apart D f \<Longrightarrow> preserves (\<lambda>_. True) f (coll_ReplaceOne (permissionsCollection D) flt doc up)"
  unfolding apart_def by blast

lemma SetTopic_perms: "driver_laws D P T \<Longrightarrow> preserves (\<lambda>_. True) P (Mongo_SetTopic D topic)"
  unfolding Mongo_SetTopic_def Let_def
proof (intro preserves_rules, goal_cases)
  case 1 then show ?case by (auto simp: driver_laws_def preserves_def)
next
  case 2
  then show ?case by (intro preservesI) (auto dest: coll_ReplaceOne_law(1) [OF topics_laws(3)])
qed

lemma map_of_rev_distinct:
  "distinct (map key xs) \<Longrightarrow>
   map_of (rev (map (\<lambda>x. (key x, val x)) xs)) k = map_option val (find (\<lambda>x. key x = k) xs)"
proof (induction xs)
  case (Cons x xs)
  show ?case
  proof (cases "k = key x")
    case True
    then have "find (\<lambda>x. key x = k) xs = None"
      using Cons.prems by (auto simp: find_None_iff image_iff)
    with True Cons show ?thesis by (simp add: map_add_def)
  next
    case False
    with Cons show ?thesis by (simp add: map_add_def split: option.split)
  qed
qed simp

text \<open>Two databases in one world: what is done to one leaves the other alone.\<close>

locale two_databases =
  fixes source target :: "'m mongo" and SP TP :: "'m \<Rightarrow> permissions_entry list"
    and ST TT :: "'m \<Rightarrow> topic list"
  assumes source_laws: "driver_laws source SP ST" and target_laws: "driver_laws target TP TT"
    and source_apart: "apart source (\<lambda>s. (TP s, TT s))"
    and target_apart: "apart target (\<lambda>s. (SP s, ST s))"
begin

lemma copy_topics_result:
  "run_state (copy_topics target topics) s = (None, s') \<Longrightarrow> mongo_invar TP TT s \<Longrightarrow>
   mongo_invar TP TT s' \<and> SP s' = SP s \<and> ST s' = ST s \<and> TP s' = TP s \<and>
   st_topics (mongo_store TP TT s') =
     st_topics (mongo_store TP TT s) ++ map_of (rev (map (\<lambda>t. (t_id t, topic_core t)) topics))"
proof (induction topics arbitrary: s)
  case (Cons topic topics)
  from Cons.prems(1) obtain s1 where set_topic: "run_state (Mongo_SetTopic target topic) s = (None, s1)"
    and rest: "run_state (copy_topics target topics) s1 = (None, s')"
    by (auto split: prod.splits option.splits)
  have "SP s1 = SP s" "ST s1 = ST s"
    using preservesD [OF apart_SetTopic [OF target_apart] set_topic] by simp_all
  moreover have "TP s1 = TP s"
    using preservesD [OF SetTopic_perms [OF target_laws] set_topic] by simp
  moreover note mongo_SetTopic_law [OF target_laws Cons.prems(2) set_topic]
  ultimately show ?case
    using Cons.IH [OF rest] by (simp add: map_add_def fun_eq_iff split: option.split)
qed simp

lemma copy_entries_result:
  "run_state (copy_entries target docs err) s = (None, s') \<Longrightarrow> mongo_invar TP TT s \<Longrightarrow>
   \<exists>ds. docs = map Inr ds \<and> err = None \<and> mongo_invar TP TT s' \<and>
     SP s' = SP s \<and> ST s' = ST s \<and> TT s' = TT s \<and>
     entry_at TP s' = entry_at TP s ++ map_of (rev (map (\<lambda>e. (pe_key e, e)) ds))"
proof (induction docs arbitrary: s)
  case (Cons d docs)
  from Cons.prems(1) obtain e s1 where d: "d = Inr e"
    and replace: "run_state (coll_ReplaceOne (permissionsCollection target)
      (key_filter (pe_topic_id e) (pe_id e)) e True) s = (None, s1)"
    and rest: "run_state (copy_entries target docs err) s1 = (None, s')"
    by (cases d) (auto split: prod.splits option.splits)
  note law = coll_ReplaceOne_law [OF perms_laws(3) [OF target_laws] replace]
  have dist: "distinct (map pe_key (TP s))" using Cons.prems(2) by (simp add: mongo_invar_def)
  have "replaced (\<lambda>x. pe_key x = pe_key e) e True (mset (TP s)) (mset (TP s1))"
    using law(2) unfolding sat_key_filter_eq by (simp add: pe_key_def)
  note new = replaced_key [OF dist this]
  have inv1: "mongo_invar TP TT s1"
    using Cons.prems(2) new(1) law(1) by (simp add: mongo_invar_def)
  have "entry_at TP s1 = (entry_at TP s)(pe_key e \<mapsto> e)"
    using new(2) by (auto simp: entry_at_def fun_eq_iff)
  moreover have "SP s1 = SP s" "ST s1 = ST s"
    using preservesD [OF apart_ReplaceOne [OF target_apart] replace] by simp_all
  moreover obtain ds where "docs = map Inr ds" "err = None" "mongo_invar TP TT s'"
    "SP s' = SP s1" "ST s' = ST s1" "TT s' = TT s1"
    "entry_at TP s' = entry_at TP s1 ++ map_of (rev (map (\<lambda>e. (pe_key e, e)) ds))"
    using Cons.IH [OF rest inv1] by blast
  ultimately show ?case
    using d law(1) by (intro exI [of _ "e # ds"]) simp
qed (auto simp: entry_at_def)

lemma listed_topics:
  assumes run: "run_state (Mongo_ListTopics source default_list_options) s = (Inr topics, s')"
    and inv: "mongo_invar SP ST s"
  shows "map_of (rev (map (\<lambda>t. (t_id t, topic_core t)) topics)) = st_topics (mongo_store SP ST s)"
proof
  fix i
  have dist: "distinct (map t_id topics)"
    and all: "(\<lambda>t. (t_id t, topic_core t)) ` set topics = {(i, t). st_topics (mongo_store SP ST s) i = Some t}"
    using mongo_list_topics [OF source_laws inv run] by simp_all
  have "map_option topic_core (find (\<lambda>t. t_id t = i) topics) = Some c \<longleftrightarrow>
      st_topics (mongo_store SP ST s) i = Some c" for c
  proof -
    have "map_option topic_core (find (\<lambda>t. t_id t = i) topics) = Some c \<longleftrightarrow>
        (\<exists>t \<in> set topics. t_id t = i \<and> topic_core t = c)"
      unfolding map_option_eq_Some find_distinct_key [OF dist] by blast
    also have "\<dots> \<longleftrightarrow> (i, c) \<in> (\<lambda>t. (t_id t, topic_core t)) ` set topics" by auto
    finally show ?thesis unfolding all by simp
  qed
  then show "map_of (rev (map (\<lambda>t. (t_id t, topic_core t)) topics)) i = st_topics (mongo_store SP ST s) i"
    unfolding map_of_rev_distinct [OF dist] by (rule option_eqI)
qed

lemma found_entries:
  assumes run: "run_state (coll_Find (permissionsCollection source) (FDoc []) no_find_options) s =
      (Inr (map Inr ds, None), s')"
    and inv: "mongo_invar SP ST s"
  shows "map_of (rev (map (\<lambda>e. (pe_key e, e)) ds)) = entry_at SP s"
proof
  fix k
  have "mset ds = mset (SP s)"
    using coll_Find_law(3) [OF perms_laws(1) [OF source_laws] run]
    by (auto simp: no_find_options_def)
  moreover from this have "distinct (map pe_key ds)"
    using inv by (metis mongo_invar_def mset_eq_imp_distinct_iff mset_map)
  ultimately have dist: "distinct (map pe_key ds)" and "set ds = set (SP s)"
    using mset_eq_setD by blast+
  then have "find (\<lambda>e. pe_key e = k) ds = entry_at SP s k"
    using find_distinct_key [OF dist] entry_at_Some [OF inv] by (intro option_eqI) simp
  then show "map_of (rev (map (\<lambda>e. (pe_key e, e)) ds)) k = entry_at SP s k"
    by (simp add: map_of_rev_distinct [OF dist] option.map_ident)
qed

end

text \<open>Connecting to a server reaches one client and changes no data.\<close>

definition connects :: "'m driver \<Rightarrow> string \<Rightarrow> 'm client \<Rightarrow> ('m \<Rightarrow> 'o) \<Rightarrow> bool" where
  "connects drv url client f \<longleftrightarrow>
     (\<forall>s c s'. run_state (drv_Connect drv url) s = (c, s') \<longrightarrow>
        f s' = f s \<and> (\<forall>client'. c = Inr client' \<longrightarrow> client' = client))"

context two_databases
begin

lemma MigrateDb_result:
  assumes conn: "connects drv (cfg_MigrateFromMongoUrl conf) client (\<lambda>s. (SP s, ST s, TP s, TT s))"
    and source: "source = Database drv (conf\<lparr>cfg_MongoUrl := cfg_MigrateFromMongoUrl conf\<rparr>) client"
    and inv: "mongo_invar SP ST s" "mongo_invar TP TT s"
    and run: "run_state (MigrateDb drv target conf) s = (None, s')"
  shows "SP s' = SP s \<and> ST s' = ST s \<and> mongo_invar TP TT s' \<and>
    st_topics (mongo_store TP TT s') = st_topics (mongo_store TP TT s) ++ st_topics (mongo_store SP ST s) \<and>
    entry_at TP s' = entry_at TP s ++ entry_at SP s"
proof -
  obtain s1 where connect: "run_state (drv_Connect drv (cfg_MigrateFromMongoUrl conf)) s = (Inr client, s1)"
    using run conn unfolding MigrateDb_def connects_def Let_def
    by (auto split: prod.splits sum.splits)
  from run obtain topics s2 s3 cursor s4
    where list: "run_state (Mongo_ListTopics source default_list_options) s1 = (Inr topics, s2)"
      and topics: "run_state (copy_topics target topics) s2 = (None, s3)"
      and find: "run_state (coll_Find (permissionsCollection source) (FDoc []) no_find_options) s3 = (Inr cursor, s4)"
      and entries: "run_state (copy_entries target (fst cursor) (snd cursor)) s4 = (None, s')"
    by (auto simp: MigrateDb_def connect source Let_def split: prod.splits sum.splits option.splits)
  have s1: "SP s1 = SP s" "ST s1 = ST s" "TP s1 = TP s" "TT s1 = TT s"
    using conn connect by (auto simp: connects_def)
  have s2: "SP s2 = SP s" "ST s2 = ST s" "TP s2 = TP s" "TT s2 = TT s"
  proof -
    have "ST s2 = ST s1 \<and> SP s2 = SP s1"
      by (rule find_all_state [OF topics_laws(1) [OF source_laws] list [unfolded Mongo_ListTopics_def]])
    then show "SP s2 = SP s" "ST s2 = ST s" "TP s2 = TP s" "TT s2 = TT s"
      using preservesD [OF apart_ListTopics [OF source_apart] list] s1 by simp_all
  qed
  have inv12: "mongo_invar SP ST s1" "mongo_invar TP TT s2"
    using inv s1 s2 by (simp_all add: mongo_invar_def)
  have s3: "mongo_invar TP TT s3" "SP s3 = SP s" "ST s3 = ST s" "TP s3 = TP s"
    "st_topics (mongo_store TP TT s3) =
       st_topics (mongo_store TP TT s) ++ st_topics (mongo_store SP ST s)"
    using copy_topics_result [OF topics inv12(2)] listed_topics [OF list inv12(1)] s1 s2
    by (simp_all add: mongo_store_def)
  have s4: "SP s4 = SP s3" "ST s4 = ST s3" "TP s4 = TP s3" "TT s4 = TT s3"
    using coll_Find_law(1,2) [OF perms_laws(1) [OF source_laws] find]
      preservesD [OF apart_Find [OF source_apart] find] by simp_all
  have inv34: "mongo_invar SP ST s3" "mongo_invar TP TT s4"
    using inv s3 s4 by (simp_all add: mongo_invar_def)
  obtain ds where ds: "fst cursor = map Inr ds" "snd cursor = None"
    and s': "mongo_invar TP TT s'" "SP s' = SP s4" "ST s' = ST s4" "TT s' = TT s4"
      "entry_at TP s' = entry_at TP s4 ++ map_of (rev (map (\<lambda>e. (pe_key e, e)) ds))"
    using copy_entries_result [OF entries inv34(2)] by blast
  have "cursor = (map Inr ds, None)" using ds by (simp add: prod_eq_iff)
  with find have "map_of (rev (map (\<lambda>e. (pe_key e, e)) ds)) = entry_at SP s3"
    using found_entries inv34(1) by simp
  then show ?thesis using s' s3 s4 by (simp add: entry_at_def mongo_store_def)
qed

end

section \<open>Two servers in memory\<close>

text \<open>An old and a new server. The connection to the new one survives \<open>srv_left\<close> writes of entries.\<close>

record servers =
  old_server :: mem
  new_server :: mem
  srv_left :: nat

definition old_client :: "servers client" where
  "old_client =
     \<lparr>cl_permissions = (\<lambda>_ _. memory_collection entry_field entry_set (\<lambda>s. mem_perms (old_server s))
        (\<lambda>ds s. s\<lparr>old_server := (old_server s)\<lparr>mem_perms := ds\<rparr>\<rparr>)),
      cl_topics = (\<lambda>_ _. memory_collection topic_field (\<lambda>_ t. t) (\<lambda>s. mem_topics (old_server s))
        (\<lambda>ds s. s\<lparr>old_server := (old_server s)\<lparr>mem_topics := ds\<rparr>\<rparr>)),
      cl_CreateIndex = (\<lambda>_ _ _. ret None), cl_DropIndex = (\<lambda>_ _ _. ret None),
      cl_Disconnect = ret None\<rparr>"

definition lossy :: "('doc, servers) collection \<Rightarrow> ('doc, servers) collection" where
  "lossy C = C\<lparr>coll_ReplaceOne := (\<lambda>flt doc up. State (\<lambda>s.
     if srv_left s = 0 then (Some (ErrLib ''connection lost''), s)
     else run_state (coll_ReplaceOne C flt doc up) (s\<lparr>srv_left := srv_left s - 1\<rparr>)))\<rparr>"

definition new_client :: "servers client" where
  "new_client =
     \<lparr>cl_permissions = (\<lambda>_ _. lossy (memory_collection entry_field entry_set
        (\<lambda>s. mem_perms (new_server s)) (\<lambda>ds s. s\<lparr>new_server := (new_server s)\<lparr>mem_perms := ds\<rparr>\<rparr>))),
      cl_topics = (\<lambda>_ _. memory_collection topic_field (\<lambda>_ t. t) (\<lambda>s. mem_topics (new_server s))
        (\<lambda>ds s. s\<lparr>new_server := (new_server s)\<lparr>mem_topics := ds\<rparr>\<rparr>)),
      cl_CreateIndex = (\<lambda>_ _ _. ret None),
      cl_DropIndex = (\<lambda>_ _ _. ret (Some (ErrLib ''(IndexNotFound) index not found with name [topicbyid]''))),
      cl_Disconnect = ret None\<rparr>"

definition two_servers :: "servers driver" where
  "two_servers =
     \<lparr>drv_Connect = (\<lambda>url. ret (if url = ''mongodb://old'' then Inr old_client
        else if url = ''mongodb://new'' then Inr new_client else Inl (ErrLib ''no such server''))),
      drv_now = ret 1000\<rparr>"

definition move_config :: config where
  "move_config = empty_config\<lparr>cfg_MongoUrl := ''mongodb://new'', cfg_MigrateFromMongoUrl := ''mongodb://old''\<rparr>"

abbreviation old_perms :: "servers \<Rightarrow> permissions_entry list" where
  "old_perms s \<equiv> mem_perms (old_server s)"

abbreviation old_topics :: "servers \<Rightarrow> topic list" where
  "old_topics s \<equiv> mem_topics (old_server s)"

abbreviation new_perms :: "servers \<Rightarrow> permissions_entry list" where
  "new_perms s \<equiv> mem_perms (new_server s)"

abbreviation new_topics :: "servers \<Rightarrow> topic list" where
  "new_topics s \<equiv> mem_topics (new_server s)"

lemma lossy_replace:
  assumes law: "replace_one_law C field content other"
    and same: "\<And>s n. content (s\<lparr>srv_left := n\<rparr>) = content s" "\<And>s n. other (s\<lparr>srv_left := n\<rparr>) = other s"
  shows "replace_one_law (lossy C) field content other"
  unfolding replace_one_law_def
proof (intro allI impI)
  fix flt doc up s e s' assume "run_state (coll_ReplaceOne (lossy C) flt doc up) s = (e, s')"
  then consider "e \<noteq> None" "s' = s"
    | "run_state (coll_ReplaceOne C flt doc up) (s\<lparr>srv_left := srv_left s - 1\<rparr>) = (e, s')"
    by (auto simp: lossy_def split: if_splits)
  then show "other s' = other s \<and>
      (replaced (sat field flt) doc up (mset (content s)) (mset (content s')) \<or>
       e \<noteq> None \<and> content s' = content s)"
  proof cases
    case 2
    show ?thesis using coll_ReplaceOne_law [OF law 2] by (simp add: same)
  qed simp
qed

lemma lossy_laws:
  assumes "collection_laws C field setf content other"
    and "\<And>s n. content (s\<lparr>srv_left := n\<rparr>) = content s" "\<And>s n. other (s\<lparr>srv_left := n\<rparr>) = other s"
  shows "collection_laws (lossy C) field setf content other"
  using assms(1) lossy_replace [OF _ assms(2,3)]
  by (simp add: collection_laws_def lossy_def find_law_def find_one_law_def update_many_law_def
      delete_many_law_def)

interpretation moving: two_databases "Database two_servers conf old_client"
  "Database two_servers conf' new_client" old_perms new_perms old_topics new_topics
  for conf conf'
proof
  show "driver_laws (Database two_servers conf old_client) old_perms old_topics"
    by (auto simp: driver_laws_def Database_def old_client_def two_servers_def preserves_def
        intro!: memory_collection_laws)
  show "driver_laws (Database two_servers conf' new_client) new_perms new_topics"
    by (auto simp: driver_laws_def Database_def new_client_def two_servers_def preserves_def
        intro!: memory_collection_laws lossy_laws)
qed (auto simp: apart_def Database_def old_client_def new_client_def two_servers_def lossy_def
      memory_collection_def preserves_def)

definition moving_world :: servers where
  "moving_world =
     \<lparr>old_server = mem_empty\<lparr>mem_perms := [empty_entry ''t'' ''a'' 5 False, empty_entry ''t'' ''b'' 7 True],
        mem_topics := [\<lparr>t_id = ''t'', t_publish_to_kafka_topic = ''t'', t_ensure_kafka_topic_init = False,
          t_ensure_kafka_topic_init_partition_number = 0, t_last_update_unix_timestamp = 3,
          t_default_permissions = nil_permissions\<rparr>]\<rparr>,
      new_server = mem_empty, srv_left = 9\<rparr>"

section \<open>Properties\<close>

text \<open>
  C24. A migration that ends without error has copied everything: what the other database holds is
  then in this one, entries with their time and their mark, and what was there under other keys is
  still there. In an empty database the store is then that of the other one, which has not changed.
\<close>

theorem migration_copies:
  assumes "two_databases source target SP TP ST TT"
    and "connects drv (cfg_MigrateFromMongoUrl conf) client (\<lambda>s. (SP s, ST s, TP s, TT s))"
    and "source = Database drv (conf\<lparr>cfg_MongoUrl := cfg_MigrateFromMongoUrl conf\<rparr>) client"
    and "mongo_invar SP ST s" "mongo_invar TP TT s"
    and "run_state (MigrateDb drv target conf) s = (None, s')"
  shows "SP s' = SP s \<and> ST s' = ST s \<and> mongo_invar TP TT s' \<and>
     st_topics (mongo_store TP TT s') = st_topics (mongo_store TP TT s) ++ st_topics (mongo_store SP ST s) \<and>
     entry_at TP s' = entry_at TP s ++ entry_at SP s \<and>
     (TP s = [] \<and> TT s = [] \<longrightarrow> mongo_store TP TT s' = mongo_store SP ST s)"
proof -
  note copied = two_databases.MigrateDb_result [OF assms]
  moreover have "mongo_store TP TT s' = mongo_store SP ST s" if empty: "TP s = []" "TT s = []"
  proof (rule store_eqI)
    show "st_topics (mongo_store TP TT s') = st_topics (mongo_store SP ST s)"
      using copied empty by (auto simp: mongo_store_def map_add_def fun_eq_iff split: option.splits)
    show "st_resources (mongo_store TP TT s') t i = st_resources (mongo_store SP ST s) t i" for t i
      using copied empty
      by (simp add: entry_at_store) (simp add: entry_at_def map_add_def split: option.splits)
  qed
  ultimately show ?thesis by blast
qed

lemma moving_run:
  "fst (run_state (MigrateDb two_servers (Database two_servers move_config new_client) move_config)
     moving_world) = None"
  by code_simp

theorem migration_copies_witness:
  "\<exists>s'. run_state (MigrateDb two_servers (Database two_servers move_config new_client) move_config) moving_world =
       (None, s') \<and>
     entry_at new_perms s' (''t'', ''a'') = Some (empty_entry ''t'' ''a'' 5 False) \<and>
     mongo_store new_perms new_topics s' = mongo_store old_perms old_topics moving_world"
proof -
  obtain s' where run: "run_state (MigrateDb two_servers (Database two_servers move_config new_client)
      move_config) moving_world = (None, s')"
    using moving_run by (metis prod.collapse)
  have conn: "connects two_servers (cfg_MigrateFromMongoUrl move_config) old_client
      (\<lambda>s. (old_perms s, old_topics s, new_perms s, new_topics s))"
    by (auto simp: connects_def two_servers_def move_config_def)
  have inv: "mongo_invar old_perms old_topics moving_world" "mongo_invar new_perms new_topics moving_world"
    by (simp_all add: mongo_invar_def moving_world_def mem_empty_def pe_key_def empty_entry_def)
  have old: "entry_at old_perms moving_world (''t'', ''a'') = Some (empty_entry ''t'' ''a'' 5 False)"
    by (simp add: entry_at_def moving_world_def pe_key_def empty_entry_def)
  have new: "new_perms moving_world = []" "new_topics moving_world = []"
    by (simp_all add: moving_world_def mem_empty_def)
  from migration_copies [OF moving.two_databases_axioms conn refl inv run] new old run
  show ?thesis by simp
qed

lemma reopened:
  "(case run_state (Mongo_New two_servers move_config) (moving_world\<lparr>srv_left := 1\<rparr>) of (r2, s2) \<Rightarrow>
      case run_state (Mongo_New two_servers move_config) (s2\<lparr>srv_left := 9\<rparr>) of (r3, s3) \<Rightarrow>
        (map_sum (\<lambda>e. e) (\<lambda>_. ()) r2, map_sum (\<lambda>e. e) (\<lambda>_. ()) r3, map pe_id (new_perms s3),
         map pe_id (old_perms s3), map t_id (new_topics s3))) =
     (Inl (ErrLib ''connection lost''), Inr (), [''a''], [''a'', ''b''], [''t''])"
  by code_simp


end
