(* ===== verification/Service.thy ===== *)
theory Service
  imports Authorisation MongoMigration SyncContract
begin

text \<open>
  The service as a whole: how \<open>pkg/pkg.go\<close> starts it over a MongoDB server, and what it does while it
  answers one request after the other and its loop publishes again. The theorem says that resources
  are safe from all who do not administrate them, however many requests they send.
\<close>

section \<open>Starting\<close>

text \<open>\<open>pkg/database/db.go\<close>: the database of the service is the one on MongoDB.\<close>

definition database_New :: "'m driver \<Rightarrow> config \<Rightarrow> ('m, error + 'm database) state" where
  "database_New drv config = do {
     r \<leftarrow> Mongo_New drv config;
     case r of Inl err \<Rightarrow> ret (Inl err) | Inr db \<Rightarrow> ret (Inr (mongo_db db)) }"

text \<open>
  \<open>C\<close> holds what the controller uses of other packages, with the producers of
  \<open>kafka.NewKafkaProducerProvider\<close>. The result is what runs in the end: the handler of the HTTP server
  (\<open>api.Start\<close>) and the controller, whose sync loop has been started.
\<close>

definition Start ::
  "'m driver \<Rightarrow> (string \<Rightarrow> message \<Rightarrow> ('e, error option) state) \<Rightarrow>
   (('m, 'e, 'p) world handler \<Rightarrow> ('m, 'e, 'p) world handler) \<Rightarrow>
   (('m, 'e, 'p) world handler \<Rightarrow> ('m, 'e, 'p) world handler) \<Rightarrow>
   ('m, 'e, 'p) world remote_do \<Rightarrow> api_lib \<Rightarrow> ('m, 'e, 'p) world handler \<Rightarrow>
   ('m, 'e, 'p) controller \<Rightarrow> config \<Rightarrow>
   (('m, 'e, 'p) world, error + ('m, 'e, 'p) world handler \<times> ('m, 'e, 'p) controller) state" where
  "Start drv remote accesslog otel remote_do L ui C config = do {
     r \<leftarrow> on_db (database_New drv config);
     case r of
       Inl err \<Rightarrow> ret (Inl err)
     | Inr db \<Rightarrow> do {
         r \<leftarrow> NewWithDependencies remote (C\<lparr>ctl_config := config, ctl_db := db\<rparr>);
         case r of
           Inl err \<Rightarrow> ret (Inl err)
         | Inr ctrl \<Rightarrow>
             ret (Inr (GetRouter accesslog otel remote_do config L ui (controller_api ctrl), ctrl)) } }"

section \<open>Running\<close>

text \<open>
  What happens to a service that runs: a request arrives, or the timer of the sync loop ticks. Each is
  done before the next begins; with a configured interval of zero there are runs without ticks only.
\<close>

datatype service_event = Request request | Sync_tick

inductive runs ::
  "('s, 'e, 'p) world handler \<Rightarrow> ('s, 'e, 'p) controller \<Rightarrow> ('s, 'e, 'p) world \<Rightarrow> service_event list \<Rightarrow>
   ('s, 'e, 'p) world \<Rightarrow> bool" for h ctrl where
  runs_none: "runs h ctrl w [] w"
| runs_request: "serve h r w = Some (resp, w') \<Longrightarrow> runs h ctrl w' events w'' \<Longrightarrow>
    runs h ctrl w (Request r # events) w''"
| runs_tick: "run_state (RetryPublishOfUnsyncedResources ctrl) w = (err, w') \<Longrightarrow>
    runs h ctrl w' events w'' \<Longrightarrow> runs h ctrl w (Sync_tick # events) w''"

inductive_simps runs_simps [simp]:
  "runs h ctrl w [] w'"
  "runs h ctrl w (Request r # events) w'"
  "runs h ctrl w (Sync_tick # events) w'"

section \<open>The start changes nothing\<close>

text \<open>Creating and dropping indexes, and disconnecting, leave the documents as they are.\<close>

definition index_laws :: "'m client \<Rightarrow> ('m \<Rightarrow> 'o) \<Rightarrow> bool" where
  "index_laws client f \<longleftrightarrow>
     (\<forall>d c i. preserves (\<lambda>_. True) f (cl_CreateIndex client d c i)) \<and>
     (\<forall>d c i. preserves (\<lambda>_. True) f (cl_DropIndex client d c i)) \<and>
     preserves (\<lambda>_. True) f (cl_Disconnect client)"

text \<open>No other database is to be copied, or it has been: there are topics.\<close>

definition settled :: "config \<Rightarrow> topic list \<Rightarrow> bool" where
  "settled conf topics \<longleftrightarrow> cfg_MigrateFromMongoUrl conf \<in> {[], ''-''} \<or> topics \<noteq> []"

lemma run_creators_leave:
  assumes "index_laws client f"
  shows "preserves (\<lambda>_. True) f (run_creators CreateCollections conf client)"
  using assms
  unfolding CreateCollections_def run_creators.simps create_permissions_collection_def
    create_topics_collection_def ensureCompoundIndex_def ensureIndex_def removeIndex_def index_laws_def Let_def
  by (intro preserves_rules) auto

lemma Mongo_New_settled:
  assumes conn: "connects drv (cfg_MongoUrl conf) client (\<lambda>s. (P s, T s))"
    and laws: "driver_laws (Database drv conf client) P T" and index: "index_laws client (\<lambda>s. (P s, T s))"
    and inv: "mongo_invar P T s" and settled: "settled conf (T s)"
    and run: "run_state (Mongo_New drv conf) s = (r, s')"
  shows "P s' = P s \<and> T s' = T s \<and> (\<forall>db. r = Inr db \<longrightarrow> db = Database drv conf client)"
proof -
  let ?db = "Database drv conf client"
  obtain c s1 where connect: "run_state (drv_Connect drv (cfg_MongoUrl conf)) s = (c, s1)" by fastforce
  have s1: "P s1 = P s" "T s1 = T s" and c: "\<And>client'. c = Inr client' \<Longrightarrow> client' = client"
    using conn connect by (auto simp: connects_def)
  show ?thesis
  proof (cases c)
    case (Inl err)
    then show ?thesis using run connect s1 by (auto simp: Mongo_New_def)
  next
    case (Inr client')
    with c have c: "c = Inr client" by simp
    obtain e s2 where create: "run_state (run_creators CreateCollections conf client) s1 = (e, s2)" by fastforce
    have s2: "P s2 = P s" "T s2 = T s"
      using preservesD [OF run_creators_leave [OF index] create] s1 by simp_all
    obtain l s3 where list: "run_state (Mongo_ListTopics ?db default_list_options) s2 = (l, s3)" by fastforce
    have s3: "P s3 = P s" "T s3 = T s"
      using find_all_state [OF topics_laws(1) [OF laws] list [unfolded Mongo_ListTopics_def]] s2 by simp_all
    have inv2: "mongo_invar P T s2" using inv s2 by (simp add: mongo_invar_def)
    have some: "topics \<noteq> []" if "l = Inr topics" "T s \<noteq> []" for topics
    proof -
      obtain t ts where "T s = t # ts" using \<open>T s \<noteq> []\<close> by (cases "T s") auto
      then have "st_topics (mongo_store P T s2) (t_id t) = Some (topic_core t)"
        by (simp add: mongo_store_def s2)
      then show ?thesis
        using mongo_list_topics [OF laws inv2] list \<open>l = Inr topics\<close> by fastforce
    qed
    obtain d s4 where disconnect: "run_state (cl_Disconnect client) s2 = (d, s4)" by fastforce
    have s4: "P s4 = P s" "T s4 = T s"
      using preservesD [OF _ disconnect, of "\<lambda>_. True" "\<lambda>s. (P s, T s)"] index s2
      by (simp_all add: index_laws_def)
    show ?thesis
      using run connect create list disconnect s2 s3 s4 settled some
      by (auto simp: Mongo_New_def c Let_def settled_def split: option.splits sum.splits if_splits)
  qed
qed

lemma New_keeps_parse:
  "run_state (NewWithDependencies remote C) w = (Inr ctrl, w') \<Longrightarrow>
   ctl_db ctrl = ctl_db C \<and> jwt_Parse ctrl = jwt_Parse C"
  by (auto simp: NewWithDependencies_def Let_def split: option.splits prod.splits)

context database
begin

lemma New_wpreserves: "ctl_db C = db \<Longrightarrow> wpreserves (NewWithDependencies remote C)"
  unfolding NewWithDependencies_def Let_def
  by (intro preserves_rules retry_wpreserves) simp_all

end

lemma Start_result:
  assumes conn: "connects drv (cfg_MongoUrl conf) client (\<lambda>s. (P s, T s))"
    and laws: "driver_laws (Database drv conf client) P T" and index: "index_laws client (\<lambda>s. (P s, T s))"
    and inv: "mongo_invar P T (w_db w)" and settled: "settled conf (T (w_db w))"
    and run: "run_state (Start drv remote accesslog otel remote_do L ui C conf) w = (r, w')"
  shows "mongo_invar P T (w_db w') \<and> mongo_store P T (w_db w') = mongo_store P T (w_db w) \<and>
    (\<forall>h ctrl. r = Inr (h, ctrl) \<longrightarrow>
       h = GetRouter accesslog otel remote_do conf L ui (controller_api ctrl) \<and>
       ctl_db ctrl = mongo_db (Database drv conf client) \<and> jwt_Parse ctrl = jwt_Parse C)"
proof -
  obtain r1 s1 where new: "run_state (Mongo_New drv conf) (w_db w) = (r1, s1)" by fastforce
  note opened = Mongo_New_settled [OF conn laws index inv settled new]
  then have s1: "mongo_invar P T s1" "mongo_store P T s1 = mongo_store P T (w_db w)"
    using inv by (simp_all add: mongo_invar_def mongo_store_def)
  show ?thesis
  proof (cases r1)
    case (Inl err)
    then show ?thesis
      using run new s1 by (auto simp: Start_def database_New_def on_db_def)
  next
    case (Inr db)
    with opened have db: "db = Database drv conf client" by simp
    let ?C = "C\<lparr>ctl_config := conf, ctl_db := mongo_db db\<rparr>"
    obtain r2 w2 where ctl: "run_state (NewWithDependencies remote ?C) (w\<lparr>w_db := s1\<rparr>) = (r2, w2)" by fastforce
    have "mongo_invar P T (w_db w2) \<and> mongo_store P T (w_db w2) = mongo_store P T (w_db w)"
      using preservesD [OF database.New_wpreserves [OF mongo_database [OF laws]] ctl] s1 by (simp add: db)
    moreover have "run_state (on_db (database_New drv conf)) w = (Inr (mongo_db db), w\<lparr>w_db := s1\<rparr>)"
      by (simp add: database_New_def on_db_def new Inr)
    then have "(r, w') = (case r2 of Inl err \<Rightarrow> Inl err
        | Inr ctrl \<Rightarrow> Inr (GetRouter accesslog otel remote_do conf L ui (controller_api ctrl), ctrl), w2)"
      using run ctl by (cases r2) (simp_all add: Start_def)
    moreover have "ctl_db ctrl = ctl_db ?C \<and> jwt_Parse ctrl = jwt_Parse ?C" if "r2 = Inr ctrl" for ctrl
      using New_keeps_parse ctl that by blast
    ultimately show ?thesis by (cases r2) (simp_all add: db)
  qed
qed

section \<open>One request\<close>

lemma GetRouter_acts:
  assumes "\<And>h. accesslog h = h" "\<And>h. otel h = h" "\<And>w. R w w"
    and "acts R (GetRouterWithoutMiddleware cfg L ui ctrl r)" "acts R (forward remote_do (cfg_EditForward cfg) r)"
  shows "acts R (GetRouter accesslog otel remote_do cfg L ui ctrl r)"
proof -
  have version: "acts R (h r) \<Longrightarrow> acts R (VersionCheck h v r)" for h v
    using assms(3) by (auto simp: acts_def VersionCheck_def Let_def split: if_splits)
  have cors: "acts R (h r) \<Longrightarrow> acts R (Cors h r)" for h
    using assms(3) by (auto simp: acts_def Cors_def split: if_splits)
  have "acts R (ConditionalForward remote_do (GetRouterWithoutMiddleware cfg L ui ctrl) (cfg_EditForward cfg) b r)" for b
    using assms(4,5) by (auto simp: acts_def ConditionalForward_def)
  then show ?thesis
    using assms(4) by (auto simp: GetRouter_def Let_def assms(1,2) intro!: version cors)
qed

text \<open>The token of a request gives no right to administrate a resource, or is none.\<close>

definition powerless :: "('s, 'e, 'p) controller \<Rightarrow> store \<Rightarrow> string \<Rightarrow> string \<Rightarrow> request \<Rightarrow> bool" where
  "powerless C st t i r \<longleftrightarrow>
     (case jwt_Parse C (Get (rq_header r) ''Authorization'') of
        Inl err \<Rightarrow> True
      | Inr token \<Rightarrow> \<not> IsAdmin token \<and> \<not> may_administrate st token t i)"

text \<open>The topics and what is stored for one resource stay as they are.\<close>

definition keeps_entry :: "string \<Rightarrow> string \<Rightarrow> store \<Rightarrow> store \<Rightarrow> bool" where
  "keeps_entry t i st st' \<longleftrightarrow>
     st_topics st' = st_topics st \<and> st_resources st' t i = st_resources st t i"

lemma keeps_entry_refl [simp]: "keeps_entry t i st st"
  by (simp add: keeps_entry_def)

lemma keeps_entry_trans: "keeps_entry t i st st' \<Longrightarrow> keeps_entry t i st' st'' \<Longrightarrow> keeps_entry t i st st''"
  by (simp add: keeps_entry_def)

lemma keeps_entry_powerless: "keeps_entry t i st st' \<Longrightarrow> powerless C st' t i r = powerless C st t i r"
  by (simp add: powerless_def keeps_entry_def may_administrate_def topic_grants_def resource_grants_def
      split: sum.split)

lemma permitted_keeps_entry:
  "permitted_change token st st' \<Longrightarrow> \<not> may_administrate st token t i \<Longrightarrow> keeps_entry t i st st'"
  by (auto simp: permitted_change_def keeps_entry_def put_resource_def)

text \<open>What is assumed of the packages around the router; requests to other services change nothing here.\<close>

definition router_laws ::
  "('w handler \<Rightarrow> 'w handler) \<Rightarrow> ('w handler \<Rightarrow> 'w handler) \<Rightarrow> 'w remote_do \<Rightarrow> 'w handler \<Rightarrow>
   ('w \<Rightarrow> 'd) \<Rightarrow> bool" where
  "router_laws accesslog otel remote_do ui f \<longleftrightarrow>
     (\<forall>h. accesslog h = h) \<and> (\<forall>h. otel h = h) \<and> (\<forall>r w. \<exists>g. ui r w = Some (g, w)) \<and>
     (\<forall>m u h b. preserves (\<lambda>_. True) f (remote_do m u h b))"

context database
begin

lemma request_keeps_entry:
  assumes C: "ctl_db C = db" and laws: "token_laws L C"
    and router: "router_laws accesslog otel remote_do ui w_db"
    and inv: "invar (w_db w)" and powerless: "powerless C (store_of (w_db w)) t i r"
    and run: "serve (GetRouter accesslog otel remote_do cfg L ui (controller_api C)) r w = Some (resp, w')"
  shows "invar (w_db w') \<and> keeps_entry t i (store_of (w_db w)) (store_of (w_db w'))"
proof -
  let ?R = "\<lambda>w w'. w_db w' = w_db w \<or> (\<exists>token. jwt_Parse C (Get (rq_header r) ''Authorization'') = Inr token \<and>
    may_change invar store_of token w w')"
  have ui: "\<And>r w. \<exists>g. ui r w = Some (g, w)" and mid: "\<And>h. accesslog h = h" "\<And>h. otel h = h"
    using router by (simp_all add: router_laws_def)
  have forward: "acts ?R (forward remote_do (cfg_EditForward cfg) r)"
    by (rule acts_leaves [where I = "\<lambda>_. True" and f = w_db, OF forward_leaves])
      (use router in \<open>auto simp: router_laws_def\<close>)
  have "acts ?R (ServeMux (endpoints cfg L ui (controller_api C)) r)"
  proof (rule acts_ServeMux)
    fix pat h ms assume h: "(pat, h) \<in> set (endpoints cfg L ui (controller_api C))"
    let ?r = "r\<lparr>rq_path_values := ms\<rparr>"
    show "acts ?R (h ?r)"
    proof (cases "jwt_Parse C (Get (rq_header r) ''Authorization'')")
      case (Inl err)
      then have "leaves (\<lambda>_. True) (\<lambda>w. w) (h ?r)" by (intro refused_handlers [OF laws _ h ui]) simp
      then show ?thesis by (rule acts_leaves) simp
    next
      case (Inr token)
      then have "\<not> IsAdmin token" using powerless by (simp add: powerless_def)
      then have "acts (may_change invar store_of token) (h ?r)"
        using Inr by (intro handlers_act [OF C laws _ _ h ui]) simp_all
      then show ?thesis using Inr by (auto simp: acts_def)
    qed
  qed simp
  then have "acts ?R (GetRouter accesslog otel remote_do cfg L ui (controller_api C) r)"
    using forward by (intro GetRouter_acts mid) (simp_all add: GetRouterWithoutMiddleware_def)
  then have "?R w w'" using run by (auto simp: serve_Some dest: actsD)
  then show ?thesis
    using inv powerless permitted_keeps_entry by (auto simp: may_change_def powerless_def)
qed

lemma runs_keep_entry:
  assumes "runs h ctrl w events w'"
    and "h = GetRouter accesslog otel remote_do cfg L ui (controller_api ctrl)"
    and "ctl_db ctrl = db" "token_laws L ctrl" "router_laws accesslog otel remote_do ui w_db"
    and "invar (w_db w)" "\<And>r. Request r \<in> set events \<Longrightarrow> powerless ctrl (store_of (w_db w)) t i r"
  shows "invar (w_db w') \<and> keeps_entry t i (store_of (w_db w)) (store_of (w_db w'))"
  using assms
proof (induction rule: runs.induct)
  case (runs_request r w resp w' events w'')
  have step: "invar (w_db w') \<and> keeps_entry t i (store_of (w_db w)) (store_of (w_db w'))"
    using runs_request by (intro request_keeps_entry) auto
  then have "powerless ctrl (store_of (w_db w')) t i r' = powerless ctrl (store_of (w_db w)) t i r'" for r'
    using keeps_entry_powerless by blast
  with step have "invar (w_db w'') \<and> keeps_entry t i (store_of (w_db w')) (store_of (w_db w''))"
    using runs_request by simp
  then show ?case using step keeps_entry_trans by blast
next
  case (runs_tick w err w' events w'')
  have step: "invar (w_db w') \<and> store_of (w_db w') = store_of (w_db w)"
    using preservesD [OF retry_wpreserves runs_tick.hyps(1)] runs_tick.prems by simp
  then show ?case using runs_tick by simp
qed simp

end

section \<open>A server to start on\<close>

text \<open>A server that holds the database in memory, whatever its url is.\<close>

definition one_client :: "mem client" where
  "one_client =
     \<lparr>cl_permissions = (\<lambda>_ _. permissionsCollection (mem_mongo 0)),
      cl_topics = (\<lambda>_ _. topicsCollection (mem_mongo 0)),
      cl_CreateIndex = (\<lambda>_ _ _. ret None),
      cl_DropIndex = (\<lambda>_ _ _. ret (Some (ErrLib ''(IndexNotFound) index not found with name [topicbyid]''))),
      cl_Disconnect = ret None\<rparr>"

definition one_server :: "mem driver" where
  "one_server = \<lparr>drv_Connect = (\<lambda>_. ret (Inr one_client)), drv_now = mongo_now (mem_mongo 0)\<rparr>"

definition start_sample ::
  "((mem, sample_ext, string) world, error + (mem, sample_ext, string) world handler \<times>
    (mem, sample_ext, string) controller) state" where
  "start_sample = Start one_server (\<lambda>_ _. ret None) (\<lambda>h. h) (\<lambda>h. h) no_remote sample_lib no_ui
     mem_controller sample_config"

lemma one_server_laws:
  "connects one_server url one_client f"
  "driver_laws (Database one_server conf one_client) mem_perms mem_topics"
  "index_laws one_client f"
proof -
  show "connects one_server url one_client f" by (simp add: connects_def one_server_def)
  show "driver_laws (Database one_server conf one_client) mem_perms mem_topics"
    using mem_driver_laws [of 0]
    by (simp add: driver_laws_def Database_def one_server_def one_client_def)
  show "index_laws one_client f" by (simp add: index_laws_def one_client_def)
qed

text \<open>What runs after the start.\<close>

definition started_controller :: "(mem, sample_ext, string) controller" where
  "started_controller = mem_controller\<lparr>ctl_config := sample_config,
     ctl_db := mongo_db (Database one_server sample_config one_client),
     SendMessage := LogNotifier_SendMessage\<rparr>"

definition started_world :: "(mem, sample_ext, string) world" where
  "started_world = mem_world\<lparr>w_db := (w_db mem_world)\<lparr>mem_clock := 11\<rparr>\<rparr>"

lemma opened_sample:
  "run_state (Mongo_New one_server sample_config) s = (Inr (Database one_server sample_config one_client), s)"
proof -
  have "Contains (error_text (ErrLib ''(IndexNotFound) index not found with name [topicbyid]'')) ''IndexNotFound''"
    by code_simp
  then show ?thesis
    by (simp del: error_text.simps Contains_def add: Mongo_New_def one_server_def CreateCollections_def
        create_permissions_collection_def create_topics_collection_def ensureCompoundIndex_def ensureIndex_def
        removeIndex_def one_client_def sample_config_def empty_config_def Let_def)
qed

text \<open>Both entries are marked as published: the first round publishes nothing and reads the clock.\<close>

lemma retried_sample:
  "run_state (RetryPublishOfUnsyncedResources started_controller) mem_world = (None, started_world)"
proof -
  have "fst (run_state (ListUnsyncedResources (ctl_db started_controller)) (w_db mem_world)) = Inr []"
    by code_simp
  moreover have "snd (run_state (ListUnsyncedResources (ctl_db started_controller)) (w_db mem_world)) =
      (w_db mem_world)\<lparr>mem_clock := 11\<rparr>"
    by code_simp
  ultimately have "run_state (ListUnsyncedResources (ctl_db started_controller)) (w_db mem_world) =
      (Inr [], (w_db mem_world)\<lparr>mem_clock := 11\<rparr>)"
    by (simp add: prod_eq_iff)
  then show ?thesis
    by (simp add: RetryPublishOfUnsyncedResources_def on_db_def started_world_def)
qed

lemma started_sample:
  "run_state start_sample mem_world =
     (Inr (GetRouter (\<lambda>h. h) (\<lambda>h. h) no_remote sample_config sample_lib no_ui (controller_api started_controller),
        started_controller), started_world)"
proof -
  have "(mem_controller\<lparr>ctl_config := sample_config,
      ctl_db := mongo_db (Database one_server sample_config one_client),
      SendMessage := LogNotifier_SendMessage\<rparr>) = started_controller"
    by (simp add: started_controller_def)
  moreover have "cfg_DevNotifierUrl sample_config = []" by (simp add: sample_config_def empty_config_def)
  moreover have "mem_world\<lparr>w_producer := m_empty\<rparr> = mem_world" by (simp add: mem_world_def)
  ultimately show ?thesis
    by (simp add: start_sample_def Start_def database_New_def on_db_def opened_sample NewWithDependencies_def
        Let_def retried_sample)
qed

text \<open>Alice shares her device; what is stored for the device type is no business of hers.\<close>

lemma shared_handled:
  "map_option (\<lambda>(g, _). rs_status (response_of (g (cors_headers share_request fresh_writer))))
     (h_SetPermission sample_lib (controller_api started_controller)
        (share_request\<lparr>rq_path_values := [(''topic'', ''devices''), (''id'', ''d'')]\<rparr>) started_world) = Some 200"
  by code_simp

lemma shared_sample:
  "map_option (\<lambda>(resp, _). rs_status resp)
     (serve (GetRouter (\<lambda>h. h) (\<lambda>h. h) no_remote sample_config sample_lib no_ui
        (controller_api started_controller)) share_request started_world) = Some 200"
proof -
  let ?r = "share_request\<lparr>rq_path_values := [(''topic'', ''devices''), (''id'', ''d'')]\<rparr>"
  have plain: "plain_segment ''devices''" "plain_segment ''d''" "plain_segment ''manage''" by code_simp+
  have url: "rq_url share_request = segments_url [''manage'', ''devices'', ''d''] []"
    and verb: "rq_method share_request = ''PUT''"
    by (simp_all add: share_request_def sample_request_def)
  have "Get (Query (rq_url share_request)) ''version'' = []" by code_simp
  moreover have "ServeMux (endpoints sample_config sample_lib no_ui (controller_api started_controller))
      share_request started_world = h_SetPermission sample_lib (controller_api started_controller) ?r started_world"
    by (subst ServeMux_segments [OF url, where names = "[''topic'', ''id'']" and ms = "[''devices'', ''d'']"
          and h = "h_SetPermission sample_lib (controller_api started_controller)"])
      (simp_all add: verb plain routes [OF plain(1,2)] del: join_path_Cons)
  ultimately show ?thesis
    using shared_handled
    by (auto simp: serve_def GetRouter_def GetRouterWithoutMiddleware_def VersionCheck_pass Cors_def verb
        Let_def sample_config_def empty_config_def split: option.splits prod.splits)
qed

lemma alice_and_the_device_type:
  "\<not> may_administrate (mongo_store mem_perms mem_topics (w_db mem_world)) alice ''device-types'' ''dt''"
proof -
  have topic: "st_topics (mock_store (w_db sample_world)) ''device-types'' = Some (topic_core device_types)"
    and entry: "st_resources (mock_store (w_db sample_world)) ''device-types'' ''dt'' =
      Some (acl_of (r_permissions device_type))"
    by (simp_all add: mock_store_def sample_world_def devices_def device_types_def rt_key_def device_def
        device_type_def)
  have "\<not> token_holds (acl_of (t_default_permissions (topic_core device_types))) alice [Administrate]"
    "\<not> token_holds (acl_of (r_permissions device_type)) alice [Administrate]"
    by code_simp+
  then show ?thesis
    by (simp add: mem_world_store may_administrate_def topic_grants_def resource_grants_def topic entry alice_def)
qed

section \<open>Properties\<close>

text \<open>
  C3. Resources are safe from those who do not administrate them: a service that has been started over
  its database, with nothing left to migrate, and answers any sequence of requests while it publishes
  again, keeps the topics and what is stored for a resource, so long as each request comes without a
  valid token or from somebody who is no admin and had no right to administrate that resource at the
  start. Nobody can gain the right by first changing something else.
\<close>

theorem unadministrated_resources_safe:
  assumes "connects drv (cfg_MongoUrl conf) client (\<lambda>s. (P s, T s))"
    and "driver_laws (Database drv conf client) P T" "index_laws client (\<lambda>s. (P s, T s))"
    and "token_laws L C" "router_laws accesslog otel remote_do ui w_db"
    and "mongo_invar P T (w_db w)" "settled conf (T (w_db w))"
    and "run_state (Start drv remote accesslog otel remote_do L ui C conf) w = (Inr (h, ctrl), w1)"
    and "runs h ctrl w1 events w2"
    and "\<And>r. Request r \<in> set events \<Longrightarrow> powerless C (mongo_store P T (w_db w)) t i r"
  shows "keeps_entry t i (mongo_store P T (w_db w)) (mongo_store P T (w_db w2))"
proof -
  note started = Start_result [OF assms(1-3,6-8)]
  then have parse: "jwt_Parse ctrl = jwt_Parse C" by blast
  then have "powerless ctrl = powerless C" by (simp add: powerless_def fun_eq_iff)
  moreover have "token_laws L ctrl" using parse assms(4) by (simp add: token_laws_def)
  ultimately show ?thesis
    using database.runs_keep_entry [OF mongo_database [OF assms(2)] assms(9) _ _ _ assms(5)] started assms(10)
    by simp
qed

theorem unadministrated_resources_safe_witness:
  "\<exists>h ctrl w1 w2 resp.
     run_state start_sample mem_world = (Inr (h, ctrl), w1) \<and>
     map_option fst (serve h share_request w1) = Some resp \<and> rs_status resp = 200 \<and>
     runs h ctrl w1 [Request share_request, Sync_tick] w2 \<and>
     keeps_entry ''device-types'' ''dt'' (mongo_store mem_perms mem_topics (w_db mem_world))
       (mongo_store mem_perms mem_topics (w_db w2))"
proof -
  let ?h = "GetRouter (\<lambda>h. h) (\<lambda>h. h) no_remote sample_config sample_lib no_ui (controller_api started_controller)"
  obtain resp w' where served: "serve ?h share_request started_world = Some (resp, w')" "rs_status resp = 200"
    using shared_sample by (auto split: prod.splits)
  obtain err w2 where tick: "run_state (RetryPublishOfUnsyncedResources started_controller) w' = (err, w2)"
    by fastforce
  have runs: "runs ?h started_controller started_world [Request share_request, Sync_tick] w2"
    using served tick by auto
  have "Get (rq_header share_request) ''Authorization'' = ''Bearer alice''" by code_simp
  then have "jwt_Parse mem_controller (Get (rq_header share_request) ''Authorization'') = Inr alice" by simp
  then have powerless: "powerless mem_controller (mongo_store mem_perms mem_topics (w_db mem_world))
      ''device-types'' ''dt'' share_request"
    using alice_and_the_device_type by (simp add: powerless_def alice_def)
  have "token_laws sample_lib mem_controller"
    using sample_token_laws by (simp add: token_laws_def)
  moreover have "router_laws (\<lambda>h. h) (\<lambda>h. h) no_remote no_ui w_db"
    by (simp add: router_laws_def no_ui_def no_remote_def)
  moreover have "settled sample_config (mem_topics (w_db mem_world))"
    by (simp add: settled_def sample_config_def empty_config_def)
  ultimately have "keeps_entry ''device-types'' ''dt'' (mongo_store mem_perms mem_topics (w_db mem_world))
      (mongo_store mem_perms mem_topics (w_db w2))"
    using powerless
    by (intro unadministrated_resources_safe [OF one_server_laws _ _ mem_world_invar _
          started_sample [unfolded start_sample_def] runs]) auto
  then show ?thesis using started_sample served runs by fastforce
qed

end
