(* ===== verification/Answers.thy ===== *)
theory Answers
  imports Service Client
begin

text \<open>
  The type of the answers of the API: which statuses the controller replies with, and that every
  response of the router of a service is of the shape that its status announces.
\<close>

section \<open>Replies\<close>

text \<open>Every result of a program is one with \<open>P\<close>.\<close>

definition replies :: "('a \<Rightarrow> bool) \<Rightarrow> ('s, 'a) state \<Rightarrow> bool" where
  "replies P m \<longleftrightarrow> (\<forall>s. P (fst (run_state m s)))"

named_theorems replies_rules \<open>rules that show what a program may reply\<close>

lemma repliesD: "replies P m \<Longrightarrow> run_state m s = (r, s') \<Longrightarrow> P r"
  by (metis fst_conv replies_def)

lemma replies_ret [replies_rules]: "P x \<Longrightarrow> replies P (ret x)"
  by (simp add: replies_def)

text \<open>What a program replies, in a longer one: with and without knowing its results.\<close>

lemma replies_bind_of:
  "replies P m \<Longrightarrow> (\<And>x. P x \<Longrightarrow> replies Q (k x)) \<Longrightarrow> replies Q (State_Monad.bind m k)"
  by (simp add: replies_def split: prod.split) (metis fst_conv)

lemma replies_bind [replies_rules]: "(\<And>x. replies Q (k x)) \<Longrightarrow> replies Q (State_Monad.bind m k)"
  by (simp add: replies_def split: prod.split)

lemma replies_let [replies_rules]: "(\<And>x. replies P (m x)) \<Longrightarrow> replies P (let x = t in m x)"
  by simp

lemma replies_if [replies_rules]:
  "(b \<Longrightarrow> replies P m) \<Longrightarrow> (\<not> b \<Longrightarrow> replies P n) \<Longrightarrow> replies P (if b then m else n)"
  by simp

lemma replies_sum [replies_rules]:
  "(\<And>e. r = Inl e \<Longrightarrow> replies P (m e)) \<Longrightarrow> (\<And>v. r = Inr v \<Longrightarrow> replies P (n v)) \<Longrightarrow>
   replies P (case r of Inl e \<Rightarrow> m e | Inr v \<Rightarrow> n v)"
  by (cases r) auto

lemma replies_option [replies_rules]:
  "(r = None \<Longrightarrow> replies P m) \<Longrightarrow> (\<And>v. r = Some v \<Longrightarrow> replies P (n v)) \<Longrightarrow>
   replies P (case r of None \<Rightarrow> m | Some v \<Rightarrow> n v)"
  by (cases r) auto

lemma replies_prod [replies_rules]:
  "(\<And>x y. r = (x, y) \<Longrightarrow> replies P (m x y)) \<Longrightarrow> replies P (case r of (x, y) \<Rightarrow> m x y)"
  by (cases r) auto

section \<open>The statuses of the controller\<close>

definition legal :: "'a reply \<Rightarrow> bool" where
  "legal r \<longleftrightarrow>
     (case r of
        Inl (err, code) \<Rightarrow> code \<in> {StatusBadRequest, StatusUnauthorized, StatusForbidden, StatusNotFound,
          StatusInternalServerError}
      | Inr (v, code) \<Rightarrow> code \<in> {StatusOK, StatusAccepted})"

lemma legal_simps [simp]:
  "legal (Inl (err, code)) \<longleftrightarrow> code \<in> {400, 401, 403, 404, 500}"
  "legal (Inr (v, code)) \<longleftrightarrow> code \<in> {200, 202}"
  by (simp_all add: legal_def)

lemma default_legal: "replies legal (CheckTopicDefaultPermission C token t ps)"
  unfolding CheckTopicDefaultPermission_def by (intro replies_rules) simp_all

lemma check_legal: "replies legal (checkPermission C token t i ps)"
  unfolding checkPermission_def
  by (rule replies_bind_of [OF default_legal]) (intro replies_rules; simp)

lemmas after_default = replies_bind_of [OF default_legal]

lemma edit_legal: "replies legal (checkEditPermission C token t i p)"
  unfolding checkEditPermission_def check_added_def Let_def by (intro replies_rules) simp_all

lemma controller_legal:
  "replies legal (CheckPermission C s t i ps)"
  "replies legal (CheckMultiplePermissions C s t is ps)"
  "replies legal (ListComputedPermissions C s t ids)"
  "replies legal (CtlListTopics C s opt)"
  "replies legal (CtlGetTopic C s i)"
  "replies legal (RemoveTopic C s i)"
  "replies legal (CtlSetTopic C s topic)"
  "replies legal (CtlAdminListResourceIds C s t opt)"
  "replies legal (ListAccessibleResourceIds C s t opt ps)"
  "replies legal (ListResourcesWithAdminPermission C s t opt)"
  "replies legal (CtlGetResource C s t i)"
  "replies legal (RemoveResource C s t i)"
  "replies legal (Export C s options)"
  subgoal unfolding CheckPermission_def by (intro replies_rules check_legal) simp
  subgoal unfolding CheckMultiplePermissions_def Let_def
    by (intro replies_sum after_default; (intro replies_rules)?; simp?)
  subgoal unfolding ListComputedPermissions_def Let_def by (intro replies_rules) simp_all
  subgoal unfolding CtlListTopics_def by (intro replies_rules) simp_all
  subgoal unfolding CtlGetTopic_def by (intro replies_rules) simp_all
  subgoal unfolding RemoveTopic_def by (intro replies_rules) simp_all
  subgoal unfolding CtlSetTopic_def by (intro replies_rules) simp_all
  subgoal unfolding CtlAdminListResourceIds_def by (intro replies_rules) simp_all
  subgoal unfolding ListAccessibleResourceIds_def
    by (intro replies_sum after_default; (intro replies_rules)?; simp?)
  subgoal unfolding ListResourcesWithAdminPermission_def
    by (intro replies_sum after_default; (intro replies_rules)?; simp?)
  subgoal unfolding CtlGetResource_def Let_def
    by (intro replies_sum after_default; (intro replies_rules)?; simp?)
  subgoal unfolding RemoveResource_def by (intro replies_rules) simp_all
  subgoal unfolding Export_def by (intro replies_rules) simp_all
  done

lemma set_permission_legal: "replies legal (SetPermission C s t i p)"
proof -
  have edit: "replies legal (State_Monad.bind (checkEditPermission C token (t_id topic) i p) (\<lambda>r. case r of
      Inl (err, code) \<Rightarrow> ret (Inl (err, code))
    | Inr (permissions, code) \<Rightarrow> State_Monad.bind (setPermission C topic
          \<lparr>r_id = pure_id i, r_topic_id = t_id topic, r_permissions = permissions\<rparr>) (\<lambda>err. case err of
        Some e \<Rightarrow> ret (Inl (e, StatusInternalServerError))
      | None \<Rightarrow> ret (Inr (permissions, StatusOK)))))" for token topic
    by (rule replies_bind_of [OF edit_legal]) (intro replies_rules; simp)
  show ?thesis
    unfolding SetPermission_def Let_def
    by (intro replies_sum replies_option replies_if edit; (intro replies_rules edit)?; simp?)
qed

lemma import_topics_legal: "replies legal (import_topics C s options topics)"
  by (induction topics)
    (auto intro!: replies_ret replies_bind_of [OF controller_legal(7)] split: sum.split)

lemma cached_legal: "replies legal (cached_topic C cache r)"
  unfolding cached_topic_def by (intro replies_rules) simp_all

lemma import_permissions_legal: "replies legal (import_permissions C options cache rs)"
proof (induction rs arbitrary: cache)
  case (Cons r rs)
  show ?case
    unfolding import_permissions.simps
    by (intro replies_if replies_bind_of [OF cached_legal]; (intro replies_rules Cons)?; simp?)
qed (simp add: replies_ret)

lemma import_legal: "replies legal (Import C s doc options)"
proof -
  have topics: "replies legal (if ieo_include_topic_config options
      then import_topics C s options (ie_topics doc) else ret (Inr ((), StatusOK)))"
    by (simp add: import_topics_legal replies_ret)
  have rest: "replies legal (if ieo_include_permissions options
      then import_permissions C options DAList.empty (ie_permissions doc) else ret (Inr ((), StatusOK)))"
    by (simp add: import_permissions_legal replies_ret)
  show ?thesis
    unfolding Import_def
    by (intro replies_sum replies_if replies_bind_of [OF topics] replies_prod replies_ret rest) auto
qed

lemma elements_legal: "replies legal (handle_elements C req topic list n)"
proof (induction list arbitrary: n)
  case (Cons element list)
  then show ?case by (auto intro!: replies_ret replies_bind split: sum.split)
qed (simp add: replies_ret)

lemma load_loop_legal:
  assumes "load_loop C req topic offset n w = Some q"
  shows "legal (fst q)"
proof (rule load_loop.raw_induct [where P = "\<lambda>C req topic offset n w q. legal (fst q)", OF _ assms], goal_cases)
  case (1 load_loop C req topic offset n w q)
  obtain r w1 where page: "run_state (load_page C req topic load_limit offset) w = (r, w1)" by fastforce
  show ?case
  proof (cases r)
    case (Inl err)
    with 1(2) page show ?thesis by auto
  next
    case (Inr list)
    obtain h w2 where els: "run_state (handle_elements C req topic list n) w1 = (h, w2)" by fastforce
    have legal: "legal h" by (rule repliesD [OF elements_legal els])
    show ?thesis
    proof (cases "\<exists>m code. h = Inr (m, code) \<and> \<not> int (length list) < load_limit")
      case True
      then obtain m code where "load_loop C req topic (offset + load_limit) m w2 = Some q"
        using 1(2) page Inr els by auto
      then show ?thesis by (rule 1(1))
    next
      case False
      then have "fst q = h \<or> (\<exists>m. fst q = Inr (m, StatusOK))"
        using 1(2) page Inr els by (cases h) auto
      then show ?thesis using legal by auto
    qed
  qed
qed

lemma load_legal: "AdminLoadFromPermissionSearch C req w = Some (r, w') \<Longrightarrow> legal r"
  by (auto simp: AdminLoadFromPermissionSearch_def dest: load_loop_legal split: prod.splits sum.splits option.splits if_splits)

section \<open>Responses\<close>

text \<open>
  What a response looks like: a success; a redirect with its target; or an error with a line of text,
  marked as text whatever content type was set before.
\<close>

definition well_formed :: "response \<Rightarrow> bool" where
  "well_formed resp \<longleftrightarrow>
     (if rs_status resp \<in> {200, 202} then True
      else if rs_status resp = 301 then Get (rs_header resp) ''Location'' \<noteq> []
      else rs_status resp \<in> {400, 401, 403, 404, 405, 426, 500} \<and>
        Get (rs_header resp) ''Content-Type'' = ''text/plain; charset=utf-8'' \<and>
        (case rs_body resp of Raw s \<Rightarrow> s \<noteq> [] \<and> last s = byte 10 | Json v \<Rightarrow> False))"

text \<open>What a handler does to a writer to which nothing has been written.\<close>

definition forms :: "(writer \<Rightarrow> writer) \<Rightarrow> bool" where
  "forms g \<longleftrightarrow> (\<forall>wr. unwritten wr \<longrightarrow> well_formed (response_of (g wr)))"

definition answers_well :: "('w \<Rightarrow> ((writer \<Rightarrow> writer) \<times> 'w) option) \<Rightarrow> bool" where
  "answers_well act \<longleftrightarrow> (\<forall>w g w'. act w = Some (g, w') \<longrightarrow> forms g)"

definition call_legal :: "('w, 'a) call \<Rightarrow> bool" where
  "call_legal call \<longleftrightarrow> (\<forall>w r w'. call w = Some (r, w') \<longrightarrow> legal r)"

named_theorems answers_rules \<open>rules that show that an action answers with a well-formed response\<close>

lemma forms_error: "code \<in> {400, 401, 403, 404, 405, 426, 500} \<Longrightarrow> forms (http_Error msg code)"
  by (auto simp: forms_def unwritten_def well_formed_def http_Error_def Write_body_def WriteHeader_def
      Header_Set_def response_of_def newline_def)

lemma forms_written:
  "forms (WriteHeader 200)" "forms (write_json v)" "forms (Write_body b)"
  "code \<in> {200, 202} \<Longrightarrow> forms (WriteHeader code)"
  "code \<in> {200, 202} \<Longrightarrow> forms (write_json v \<circ> WriteHeader code)"
  by (auto simp: forms_def unwritten_def well_formed_def Write_body_def WriteHeader_def
      Header_Set_def response_of_def write_json_def Let_def)

lemma forms_header: "forms g \<Longrightarrow> forms (g \<circ> Header_Set k v)"
  by (simp add: forms_def unwritten_def Header_Set_def)

lemma answers_answer [answers_rules]:
  "call_legal call \<Longrightarrow> (\<And>v code. code \<in> {200, 202} \<Longrightarrow> forms (ok v code)) \<Longrightarrow> answers_well (answer call ok)"
  unfolding answers_well_def call_legal_def answer_def
  by (fastforce split: option.splits sum.splits prod.splits intro: forms_error)

lemma answers_bad_request [answers_rules]: "answers_well (bad_request msg)"
  by (simp add: answers_well_def bad_request_def forms_error)

lemma answers_if [answers_rules]:
  "(b \<Longrightarrow> answers_well m) \<Longrightarrow> (\<not> b \<Longrightarrow> answers_well n) \<Longrightarrow> answers_well (if b then m else n)"
  by simp

lemma answers_sum [answers_rules]:
  "(\<And>e. r = Inl e \<Longrightarrow> answers_well (m e)) \<Longrightarrow> (\<And>v. r = Inr v \<Longrightarrow> answers_well (n v)) \<Longrightarrow>
   answers_well (case r of Inl e \<Rightarrow> m e | Inr v \<Rightarrow> n v)"
  by (cases r) auto

lemma answers_wellD: "answers_well act \<Longrightarrow> act w = Some (g, w') \<Longrightarrow> forms g"
  by (auto simp: answers_well_def)

lemma legal_run_call: "replies legal m \<Longrightarrow> call_legal (run_call m)"
  by (auto simp: call_legal_def run_call_def dest: repliesD)

lemma legal_not_nil: "replies legal m \<Longrightarrow> replies legal (not_nil m)"
  unfolding not_nil_def
  by (erule replies_bind_of) (auto intro!: replies_ret simp: legal_def split: sum.splits)

lemmas calls_legal = controller_legal [THEN legal_run_call] set_permission_legal [THEN legal_run_call]
  import_legal [THEN legal_run_call] controller_legal(2) [THEN legal_not_nil, THEN legal_run_call]

lemma load_handler_well: "answers_well (h_AdminLoadFromPermissionSearch L (controller_api C) r)"
proof -
  have load: "call_legal (AdminLoadFromPermissionSearch C req)" for req
    by (auto simp: call_legal_def dest: load_legal)
  have "answers_well (answer (AdminLoadFromPermissionSearch C req)
      (\<lambda>updateCount code. Write_body (Json (JNum updateCount))))" for req
    by (intro answers_rules load forms_written)
  then show ?thesis
    unfolding answers_well_def h_AdminLoadFromPermissionSearch_def
    by (auto simp: controller_api_def Let_def bad_request_def intro: forms_error split: sum.splits if_splits)
qed

lemma handlers_well:
  assumes "(pat, h) \<in> set (endpoints cfg L ui (controller_api C))" and "\<not> cfg_EnableSwaggerUi cfg"
  shows "answers_well (h r)"
proof -
  have doc: "answers_well (h_Doc L r)"
    by (auto simp: answers_well_def h_Doc_def intro!: forms_header forms_error forms_written split: sum.splits)
  have health: "answers_well (h_HealthCheck r)"
    by (simp add: answers_well_def h_HealthCheck_def forms_written)
  from assms show ?thesis
    using doc health load_handler_well
    by (auto simp: endpoints_def swagger_endpoints_def h_ListTopics_def h_GetTopic_def h_SetTopic_def
        h_SetTopicByPost_def h_DeleteTopic_def h_AdminListResourceIds_def h_ListComputedPermissions_def
        h_QueryListComputedPermissions_def h_CheckPermission_def h_CheckMultiplePermissions_def
        h_ListAccessibleResourceIds_def h_ListResourcesWithAdminPermission_def h_GetResource_def
        h_DeleteResource_def h_SetPermission_def h_Export_def h_Import_def controller_api_def Let_def
        intro!: answers_rules calls_legal forms_header forms_written)
qed

lemma cleanPath_slash: "hd (cleanPath p) = CHR ''/'' \<and> cleanPath p \<noteq> []"
  by (auto simp: cleanPath_def path_Clean_def Let_def)

lemma redirect_well: "location \<noteq> [] \<Longrightarrow> forms (redirect location 301)"
  by (auto simp: forms_def unwritten_def well_formed_def redirect_def Write_body_def WriteHeader_def
      Header_Set_def response_of_def Let_def)

lemma ServeMux_well:
  assumes "\<And>pat h ms. (pat, h) \<in> set mux \<Longrightarrow> answers_well (h (r\<lparr>rq_path_values := ms\<rparr>))"
  shows "answers_well (ServeMux mux r)"
  unfolding answers_well_def
proof (intro allI impI)
  fix w g w' assume run: "ServeMux mux r w = Some (g, w')"
  let ?e = "EscapedPath (rq_url r)" let ?p = "cleanPath ?e"
  have target: "escape_path ?p \<noteq> []"
    using cleanPath_slash [of ?e] by (cases ?p) (auto simp: escape_path_def percent_def)
  show "forms g"
  proof (cases "?p = ?e")
    case False
    then show ?thesis
      using run target by (auto simp: ServeMux_def Let_def intro!: redirect_well)
  next
    case clean: True
    show ?thesis
    proof (cases "match_method mux (rq_method r) ?p")
      case None
      then show ?thesis
        using run clean by (auto simp: ServeMux_def Let_def split: list.splits intro!: forms_header forms_error)
    next
      case (Some y)
      then obtain names h ms where y: "match_method mux (rq_method r) ?p = Some ((names, h), ms)" by (cases y) auto
      then obtain pat where "(pat, h) \<in> set mux" using match_method_in [OF y] by blast
      from assms [OF this] show ?thesis
        using run y clean by (auto simp: ServeMux_def Let_def dest: answers_wellD)
    qed
  qed
qed

lemma forms_cors: "forms g \<Longrightarrow> forms (g \<circ> cors_headers r)"
  unfolding cors_headers_def Let_def comp_assoc [symmetric] by (intro forms_header)

lemma GetRouter_well:
  assumes "\<And>h. accesslog h = h" "\<And>h. otel h = h" and "\<not> forwards_edits cfg \<or> \<not> is_edit r"
    and "answers_well (GetRouterWithoutMiddleware cfg L ui ctrl r)"
  shows "answers_well (GetRouter accesslog otel remote_do cfg L ui ctrl r)"
proof -
  have cors: "answers_well (h r) \<Longrightarrow> answers_well (Cors h r)" for h
    by (auto simp: answers_well_def Cors_def intro!: forms_cors forms_written split: if_splits)
  have version: "answers_well (h r) \<Longrightarrow> answers_well (VersionCheck h v r)" for h v
    by (auto simp: answers_well_def VersionCheck_def Let_def intro: forms_error split: if_splits)
  have "answers_well (ConditionalForward remote_do (GetRouterWithoutMiddleware cfg L ui ctrl) (cfg_EditForward cfg)
      (\<lambda>r. rq_method r = ''POST'' \<or> rq_method r = ''PUT'' \<or> rq_method r = ''DELETE'') r)" if "forwards_edits cfg"
    using assms(3,4) that by (auto simp: ConditionalForward_def is_edit_def answers_well_def)
  then show ?thesis
    using assms(4) by (auto simp: GetRouter_def Let_def assms(1,2) forwards_edits_def intro!: version cors)
qed

section \<open>Properties\<close>


text \<open>Bob asks for the permissions of a resource that only alice administrates.\<close>

definition hidden_request :: request where
  "hidden_request = sample_request ''GET'' [''manage'', ''devices'', ''d''] [] ''Bearer bob'' (Raw [])"

lemma hidden_answer:
  "map_option (\<lambda>(resp, _). rs_status resp)
     (serve (GetRouter (\<lambda>h. h) (\<lambda>h. h) no_remote sample_config sample_lib no_ui
        (controller_api sample_controller)) hidden_request sample_world) = Some 403"
  by code_simp


end
