(* ===== verification/Registration.thy ===== *)
theory Registration
  imports ApiRouter
begin

text \<open>
  How \<open>pkg/api/api.go\<close> puts the router together: the methods of the endpoint objects, found by
  reflection, register their patterns in an order that is not determined, because they pass through a
  map. \<open>http.ServeMux\<close> panics when two patterns conflict. The theorem says that no order makes it panic
  and that all lead to the same router.
\<close>

section \<open>Conflicts of patterns\<close>

text \<open>How \<open>net/http\<close> compares two patterns without hosts.\<close>

datatype relationship = Equivalent | More_general | More_specific | Disjoint | Overlaps

definition combineRelationships :: "relationship \<Rightarrow> relationship \<Rightarrow> relationship" where
  "combineRelationships r1 r2 =
     (if r1 = r2 then r1
      else if r1 = Disjoint \<or> r2 = Disjoint then Disjoint
      else if r1 = Equivalent then r2
      else if r2 = Equivalent then r1
      else Overlaps)"

definition compareMethods :: "string \<Rightarrow> string \<Rightarrow> relationship" where
  "compareMethods m1 m2 =
     (if m1 = m2 then Equivalent
      else if m1 = [] then More_general
      else if m2 = [] then More_specific
      else if m1 = ''GET'' \<and> m2 = ''HEAD'' then More_general
      else if m2 = ''GET'' \<and> m1 = ''HEAD'' then More_specific
      else Disjoint)"

text \<open>No literal of a parsed pattern is a slash, which a wildcard would not match.\<close>

fun compareSegments :: "seg \<Rightarrow> seg \<Rightarrow> relationship" where
  "compareSegments Multi Multi = Equivalent"
| "compareSegments Multi s2 = More_general"
| "compareSegments s1 Multi = More_specific"
| "compareSegments (Wild n) (Wild m) = Equivalent"
| "compareSegments (Wild n) (Lit t) = (if t = ''/'' then Disjoint else More_general)"
| "compareSegments (Lit s) (Wild m) = (if s = ''/'' then Disjoint else More_specific)"
| "compareSegments (Lit s) (Lit t) = (if s = t then Equivalent else Disjoint)"

text \<open>
  The loop over corresponding segments. What is left of the longer pattern is matched by the shorter
  one only when that ends in a multi wildcard; \<open>m1\<close> and \<open>m2\<close> tell whether the patterns do.
\<close>

fun comparePaths_loop :: "bool \<Rightarrow> bool \<Rightarrow> seg list \<Rightarrow> seg list \<Rightarrow> relationship \<Rightarrow> relationship" where
  "comparePaths_loop m1 m2 [] [] rel = rel"
| "comparePaths_loop m1 m2 [] (s # ss) rel = (if m1 then combineRelationships rel More_general else Disjoint)"
| "comparePaths_loop m1 m2 (s # ss) [] rel = (if m2 then combineRelationships rel More_specific else Disjoint)"
| "comparePaths_loop m1 m2 (s1 # ss1) (s2 # ss2) rel =
     (let rel = combineRelationships rel (compareSegments s1 s2)
      in if rel = Disjoint then Disjoint else comparePaths_loop m1 m2 ss1 ss2 rel)"

definition ends_multi :: "seg list \<Rightarrow> bool" where
  "ends_multi segs \<longleftrightarrow> segs \<noteq> [] \<and> last segs = Multi"

definition comparePaths :: "seg list \<Rightarrow> seg list \<Rightarrow> relationship" where
  "comparePaths p1 p2 =
     (if length p1 \<noteq> length p2 \<and> \<not> ends_multi p1 \<and> \<not> ends_multi p2 then Disjoint
      else comparePaths_loop (ends_multi p1) (ends_multi p2) p1 p2 Equivalent)"

definition conflictsWith :: "string \<Rightarrow> string \<Rightarrow> bool" where
  "conflictsWith pat1 pat2 =
     (case (parse_pattern pat1, parse_pattern pat2) of
        ((m1, p1), (m2, p2)) \<Rightarrow>
          (let mrel = compareMethods m1 m2 in
           if mrel = Disjoint then False
           else combineRelationships mrel (comparePaths p1 p2) \<in> {Equivalent, Overlaps}))"

text \<open>One registration after the other; \<open>None\<close> is a panic.\<close>

fun HandleFuncs :: "'w mux \<Rightarrow> 'w mux \<Rightarrow> 'w mux option" where
  "HandleFuncs mux [] = Some mux"
| "HandleFuncs mux ((pat, h) # regs) =
     (if list_ex (\<lambda>(p, _). conflictsWith pat p) mux then None else HandleFuncs (mux @ [(pat, h)]) regs)"

section \<open>Endpoints\<close>

text \<open>
  An endpoint object: the name of its type, and its methods with what they register; \<open>None\<close> stands for
  a method that is no \<open>EndpointMethod\<close>.
\<close>

type_synonym 'w endpoint_object = "string \<times> (string \<times> 'w mux option) list"

definition getEndpointMethods :: "'w endpoint_object \<Rightarrow> (string \<times> 'w mux) list" where
  "getEndpointMethods e =
     concat (map (\<lambda>(name, f). case f of None \<Rightarrow> [] | Some regs \<Rightarrow> [(fst e @ ''::'' @ name, regs)]) (snd e))"

text \<open>The methods of \<open>admin.go\<close> have \<open>TopicsEndpoints\<close> as their receiver, and \<open>AdminEndpoints\<close> has none.\<close>

definition AdminEndpoints :: "'w endpoint_object" where
  "AdminEndpoints = (''AdminEndpoints'', [])"

definition HealthEndpoints :: "'w endpoint_object" where
  "HealthEndpoints = (''HealthEndpoints'',
     [(''HealthCheck'', Some [(''GET /'', h_HealthCheck)]), (''HealthCheck2'', Some [(''GET /health'', h_HealthCheck)])])"

definition ImportExportEndpoints :: "api_lib \<Rightarrow> 'w api \<Rightarrow> 'w endpoint_object" where
  "ImportExportEndpoints L ctrl = (''ImportExportEndpoints'',
     [(''Export'', Some [(''GET /export'', h_Export L ctrl)]), (''Import'', Some [(''PUT /import'', h_Import L ctrl)])])"

definition PermissionsListEndpoints :: "api_lib \<Rightarrow> 'w api \<Rightarrow> 'w endpoint_object" where
  "PermissionsListEndpoints L ctrl = (''PermissionsListEndpoints'',
     [(''ListComputedPermissions'', Some [(''GET /permissions/{topic}'', h_ListComputedPermissions L ctrl)]),
      (''QueryListComputedPermissions'',
        Some [(''POST /query/permissions/{topic}'', h_QueryListComputedPermissions L ctrl)])])"

definition PermissionsCheckEndpoints :: "api_lib \<Rightarrow> 'w api \<Rightarrow> 'w endpoint_object" where
  "PermissionsCheckEndpoints L ctrl = (''PermissionsCheckEndpoints'',
     [(''CheckMultiplePermissions'', Some [(''GET /check/{topic}'', h_CheckMultiplePermissions L ctrl)]),
      (''CheckPermission'', Some [(''GET /check/{topic}/{id}'', h_CheckPermission L ctrl)]),
      (''ListAccessibleResourceIds'', Some [(''GET /accessible/{topic}'', h_ListAccessibleResourceIds L ctrl)])])"

definition PermissionsManagementEndpoints :: "api_lib \<Rightarrow> 'w api \<Rightarrow> 'w endpoint_object" where
  "PermissionsManagementEndpoints L ctrl = (''PermissionsManagementEndpoints'',
     [(''DeleteResource'', Some [(''DELETE /manage/{topic}/{id}'', h_DeleteResource L ctrl)]),
      (''GetResource'', Some [(''GET /manage/{topic}/{id}'', h_GetResource L ctrl)]),
      (''ListResourcesWithAdminPermission'',
        Some [(''GET /manage/{topic}'', h_ListResourcesWithAdminPermission L ctrl)]),
      (''SetPermission'', Some [(''PUT /manage/{topic}/{id}'', h_SetPermission L ctrl)])])"

definition SwaggerEndpoints :: "config \<Rightarrow> api_lib \<Rightarrow> 'w handler \<Rightarrow> 'w endpoint_object" where
  "SwaggerEndpoints cfg L ui = (''SwaggerEndpoints'', [(''Swagger'', Some (swagger_endpoints cfg L ui))])"

definition TopicsEndpoints :: "api_lib \<Rightarrow> 'w api \<Rightarrow> 'w endpoint_object" where
  "TopicsEndpoints L ctrl = (''TopicsEndpoints'',
     [(''AdminListResourceIds'', Some [(''GET /admin/resources/{topic}'', h_AdminListResourceIds L ctrl)]),
      (''AdminLoadFromPermissionSearch'',
        Some [(''POST /admin/load/permission-search'', h_AdminLoadFromPermissionSearch L ctrl)]),
      (''DeleteTopic'', Some [(''DELETE /admin/topics/{id}'', h_DeleteTopic L ctrl)]),
      (''GetTopic'', Some [(''GET /admin/topics/{id}'', h_GetTopic L ctrl)]),
      (''ListTopics'', Some [(''GET /admin/topics'', h_ListTopics L ctrl)]),
      (''SetTopic'', Some [(''PUT /admin/topics/{id}'', h_SetTopic L ctrl)]),
      (''SetTopicByPost'', Some [(''POST /admin/topics'', h_SetTopicByPost L ctrl)])])"

text \<open>The \<open>init\<close> functions append to the list in the order of the files.\<close>

definition endpoint_objects :: "config \<Rightarrow> api_lib \<Rightarrow> 'w handler \<Rightarrow> 'w api \<Rightarrow> 'w endpoint_object list" where
  "endpoint_objects cfg L ui ctrl =
     [AdminEndpoints, HealthEndpoints, ImportExportEndpoints L ctrl, PermissionsListEndpoints L ctrl,
      PermissionsCheckEndpoints L ctrl, PermissionsManagementEndpoints L ctrl, SwaggerEndpoints cfg L ui,
      TopicsEndpoints L ctrl]"

text \<open>\<open>range\<close> over the map of an object takes any order.\<close>

definition registrations :: "'w endpoint_object list \<Rightarrow> 'w mux \<Rightarrow> bool" where
  "registrations objects regs \<longleftrightarrow>
     (\<exists>orders. list_all2 (\<lambda>e order. mset order = mset (getEndpointMethods e)) objects orders \<and>
        regs = concat (map (\<lambda>order. concat (map snd order)) orders))"

section \<open>Lookup without order\<close>

text \<open>The name of a wildcard does not matter to the search.\<close>

fun shape :: "seg \<Rightarrow> seg" where
  "shape (Wild n) = Wild []"
| "shape s = s"

definition unambiguous :: "'h routes \<Rightarrow> bool" where
  "unambiguous rs \<longleftrightarrow>
     (\<forall>p h q k. (p, h) \<in> set rs \<longrightarrow> (q, k) \<in> set rs \<longrightarrow> map shape p = map shape q \<longrightarrow> h = k)"

lemma in_literal_child: "(q, h) \<in> set (literal_child s rs) \<longleftrightarrow> (Lit s # q, h) \<in> set rs"
  by (force simp: literal_child_def split: list.splits seg.splits if_splits)

lemma in_wild_child: "(q, h) \<in> set (wild_child rs) \<longleftrightarrow> (\<exists>n. (Wild n # q, h) \<in> set rs)"
  by (force simp: wild_child_def split: list.splits seg.splits)

lemma unambiguous_child:
  "unambiguous rs \<Longrightarrow> unambiguous (literal_child s rs)"
  "unambiguous rs \<Longrightarrow> unambiguous (wild_child rs)"
  unfolding unambiguous_def in_literal_child in_wild_child by fastforce+

lemma find_pattern:
  assumes "unambiguous rs"
  shows "map_option snd (find (\<lambda>(p, h). p = pat) rs) = Some h \<longleftrightarrow> (pat, h) \<in> set rs"
proof -
  have "\<exists>k. find (\<lambda>(p, h). p = pat) rs = Some (pat, k) \<and> (pat, k) \<in> set rs" if "(pat, h) \<in> set rs" for h
    using that by (induction rs) auto
  moreover have "(pat, k) \<in> set rs" if "find (\<lambda>(p, h). p = pat) rs = Some (q, k)" for q k
    using that by (auto dest!: find_SomeD)
  ultimately show ?thesis
    using assms unfolding unambiguous_def by (smt (verit) map_option_eq_Some prod.collapse snd_conv)
qed

lemma same_routes:
  assumes "set rs = set rs'" "unambiguous rs"
  shows "leaf rs = leaf rs'" "multi_child rs = multi_child rs'"
proof -
  have "unambiguous rs'" using assms by (simp add: unambiguous_def)
  then show "leaf rs = leaf rs'" "multi_child rs = multi_child rs'"
    unfolding leaf_def multi_child_def
    by (intro option_eqI; simp only: find_pattern [OF assms(2)] find_pattern assms(1))+
qed

lemma match_path_order:
  "set rs = set rs' \<Longrightarrow> unambiguous rs \<Longrightarrow> match_path rs ss ms = match_path rs' ss ms"
proof (induction rs ss ms arbitrary: rs' rule: match_path.induct)
  case (1 rs ms)
  then show ?case by (simp add: same_routes(1))
next
  case (2 rs s ss ms)
  note same = 2(3) and unambiguous = 2(4)
  have lit: "set (literal_child s rs) = set (literal_child s rs')"
    and wild: "set (wild_child rs) = set (wild_child rs')"
    using same by (auto simp: in_literal_child in_wild_child)
  have nil: "rs = [] \<longleftrightarrow> rs' = []" using same by (metis set_empty)
  show ?case
  proof (cases "rs = []")
    case False
    note IH = 2(1) [OF False lit unambiguous_child(1) [OF unambiguous]]
    show ?thesis
    proof (cases "match_path (literal_child s rs) ss ms")
      case None
      have "s \<noteq> ''/'' \<Longrightarrow> match_path (wild_child rs) ss (ms @ [s]) = match_path (wild_child rs') ss (ms @ [s])"
        using 2(2) [OF False None _ wild unambiguous_child(2) [OF unambiguous]] by blast
      then show ?thesis
        using False nil None IH same_routes(2) [OF same unambiguous] by (auto split: option.split)
    qed (use False nil IH in auto)
  qed (use nil in auto)
qed

section \<open>Conflicts without order\<close>

fun inverse_rel :: "relationship \<Rightarrow> relationship" where
  "inverse_rel More_general = More_specific"
| "inverse_rel More_specific = More_general"
| "inverse_rel r = r"

lemma inverse_combine:
  "inverse_rel (combineRelationships r1 r2) = combineRelationships (inverse_rel r1) (inverse_rel r2)"
  by (cases r1; cases r2) (simp_all add: combineRelationships_def)

lemma inverse_rel_iff [simp]:
  "inverse_rel r = Disjoint \<longleftrightarrow> r = Disjoint" "inverse_rel r = Equivalent \<longleftrightarrow> r = Equivalent"
  "inverse_rel r = Overlaps \<longleftrightarrow> r = Overlaps"
  by (cases r; simp)+

lemma compareSegments_inverse: "compareSegments s2 s1 = inverse_rel (compareSegments s1 s2)"
  by (cases s1; cases s2) auto

lemma compareMethods_inverse: "compareMethods m2 m1 = inverse_rel (compareMethods m1 m2)"
  by (auto simp: compareMethods_def)

lemma comparePaths_loop_inverse:
  "comparePaths_loop m2 m1 p2 p1 (inverse_rel rel) = inverse_rel (comparePaths_loop m1 m2 p1 p2 rel)"
proof (induction m1 m2 p1 p2 rel rule: comparePaths_loop.induct)
  case (4 m1 m2 s1 ss1 s2 ss2 rel)
  have "combineRelationships (inverse_rel rel) (compareSegments s2 s1) =
      inverse_rel (combineRelationships rel (compareSegments s1 s2))"
    by (simp add: inverse_combine compareSegments_inverse [of s2])
  with 4 show ?case by (simp add: Let_def)
qed (simp_all add: inverse_combine)

lemma comparePaths_inverse: "comparePaths p2 p1 = inverse_rel (comparePaths p1 p2)"
  using comparePaths_loop_inverse [of "ends_multi p2" "ends_multi p1" p2 p1 Equivalent]
  by (auto simp: comparePaths_def)

lemma conflictsWith_symmetric: "conflictsWith pat1 pat2 \<longleftrightarrow> conflictsWith pat2 pat1"
proof -
  obtain m1 p1 m2 p2 where p: "parse_pattern pat1 = (m1, p1)" "parse_pattern pat2 = (m2, p2)"
    by (metis surj_pair)
  have "combineRelationships (compareMethods m2 m1) (comparePaths p2 p1) =
      inverse_rel (combineRelationships (compareMethods m1 m2) (comparePaths p1 p2))"
    by (simp add: inverse_combine compareMethods_inverse [of m2] comparePaths_inverse [of p2])
  then show ?thesis
    using compareMethods_inverse [of m2 m1] by (simp add: conflictsWith_def p Let_def)
qed

lemma same_shape_loop:
  "map shape p1 = map shape p2 \<Longrightarrow> comparePaths_loop m1 m2 p1 p2 Equivalent = Equivalent"
proof (induction p1 arbitrary: p2)
  case (Cons s ss)
  then obtain t ts where p2: "p2 = t # ts" "shape s = shape t" "map shape ss = map shape ts"
    by (cases p2) auto
  then have "compareSegments s t = Equivalent" by (cases s; cases t) auto
  with Cons.IH [OF p2(3)] show ?case by (simp add: p2(1) combineRelationships_def)
qed simp

text \<open>Patterns of the same method that differ at most in the names of wildcards conflict.\<close>

lemma same_shape_conflict:
  assumes "parse_pattern pat1 = (m, p1)" "parse_pattern pat2 = (m, p2)" "map shape p1 = map shape p2"
  shows "conflictsWith pat1 pat2"
proof -
  have "length p1 = length p2" using assms(3) by (metis length_map)
  then have "comparePaths p1 p2 = Equivalent" using same_shape_loop [OF assms(3)] by (simp add: comparePaths_def)
  then show ?thesis using assms by (simp add: conflictsWith_def compareMethods_def combineRelationships_def)
qed

lemma HandleFuncs_Some:
  "HandleFuncs mux regs = Some mux' \<longleftrightarrow>
     mux' = mux @ regs \<and> (\<forall>(p, _) \<in> set regs. \<forall>(q, _) \<in> set mux. \<not> conflictsWith p q) \<and>
     sorted_wrt (\<lambda>(p, _) (q, _). \<not> conflictsWith q p) regs"
  by (induction mux regs rule: HandleFuncs.induct) (auto simp: list_ex_iff)

lemma sorted_wrt_mset:
  assumes "\<And>x y. R x y \<Longrightarrow> R y x"
  shows "sorted_wrt R xs \<longleftrightarrow> (\<forall>x \<in># mset xs. \<forall>y \<in># mset xs - {#x#}. R x y)"
proof (induction xs)
  case (Cons a xs)
  show ?case
  proof
    assume sorted: "sorted_wrt R (a # xs)"
    then have IH: "\<forall>x \<in># mset xs. \<forall>y \<in># mset xs - {#x#}. R x y" using Cons by simp
    show "\<forall>x \<in># mset (a # xs). \<forall>y \<in># mset (a # xs) - {#x#}. R x y"
    proof (intro ballI)
      fix x y assume x: "x \<in># mset (a # xs)" and y: "y \<in># mset (a # xs) - {#x#}"
      show "R x y"
      proof (cases "x = a")
        case True
        then show ?thesis using y sorted by simp
      next
        case False
        then have "x \<in># mset xs" "y = a \<or> y \<in># mset xs - {#x#}" using x y by auto
        then show ?thesis using IH sorted assms by auto
      qed
    qed
  next
    assume pairs: "\<forall>x \<in># mset (a # xs). \<forall>y \<in># mset (a # xs) - {#x#}. R x y"
    have "y \<in># mset (a # xs) - {#x#}" if "y \<in># mset xs - {#x#}" for x y
      using that by (auto simp: in_diff_count split: if_splits)
    then have "sorted_wrt R xs" using Cons pairs by simp
    moreover have "\<forall>y \<in> set xs. R a y" using pairs by simp
    ultimately show "sorted_wrt R (a # xs)" by simp
  qed
qed simp

lemma HandleFuncs_mset:
  "HandleFuncs [] regs = Some mux \<longleftrightarrow>
     mux = regs \<and> (\<forall>x \<in># mset regs. \<forall>y \<in># mset regs - {#x#}. \<not> conflictsWith (fst x) (fst y))"
proof -
  have "sorted_wrt (\<lambda>(p, _) (q, _). \<not> conflictsWith q p) regs \<longleftrightarrow>
      (\<forall>x \<in># mset regs. \<forall>y \<in># mset regs - {#x#}. \<not> conflictsWith (fst x) (fst y))"
    by (subst sorted_wrt_mset) (auto simp: conflictsWith_symmetric split_def)
  then show ?thesis by (auto simp: HandleFuncs_Some)
qed

section \<open>Routers without order\<close>

lemma sort_remdups_set:
  fixes xs :: "'a :: linorder list"
  shows "set xs = set ys \<Longrightarrow> sort (remdups xs) = sort (remdups ys)"
  by (simp add: sorted_list_of_set_sort_remdups [symmetric])

lemma method_routes_unambiguous:
  assumes "HandleFuncs [] regs = Some mux"
  shows "unambiguous (method_routes mux m)"
proof -
  have mux: "mux = regs" and pairs: "\<forall>x \<in># mset mux. \<forall>y \<in># mset mux - {#x#}. \<not> conflictsWith (fst x) (fst y)"
    using assms by (auto simp: HandleFuncs_mset)
  have entry: "\<exists>pat h. (pat, h) \<in> set mux \<and> parse_pattern pat = (m, segs) \<and> k = (wild_names segs, h)"
    if "(segs, k) \<in> set (method_routes mux m)" for segs k
    using that by (force simp: method_routes_def split: if_splits prod.splits)
  show ?thesis
    unfolding unambiguous_def
  proof (intro allI impI)
    fix p k q l
    assume "(p, k) \<in> set (method_routes mux m)" "(q, l) \<in> set (method_routes mux m)" and shapes: "map shape p = map shape q"
    then obtain pat1 h1 pat2 h2 where one: "(pat1, h1) \<in> set mux" "parse_pattern pat1 = (m, p)" "k = (wild_names p, h1)"
      and two: "(pat2, h2) \<in> set mux" "parse_pattern pat2 = (m, q)" "l = (wild_names q, h2)"
      using entry by metis
    have "(pat1, h1) = (pat2, h2)"
    proof (rule ccontr)
      assume "(pat1, h1) \<noteq> (pat2, h2)"
      then have "(pat2, h2) \<in># mset mux - {#(pat1, h1)#}" using two(1) by (auto simp: in_diff_count)
      then have "\<not> conflictsWith pat1 pat2" using pairs one(1) by fastforce
      then show False using same_shape_conflict [OF one(2) two(2) shapes] by blast
    qed
    then show "k = l" using one two by simp
  qed
qed

lemma method_routes_set: "set mux = set mux' \<Longrightarrow> set (method_routes mux m) = set (method_routes mux' m)"
  by (simp add: method_routes_def)

text \<open>What is registered in another order leads to the same router, and panics in no order or in every.\<close>

lemma order_irrelevant:
  assumes regs: "HandleFuncs [] regs = Some mux" and order: "mset regs' = mset regs"
  shows "HandleFuncs [] regs' = Some regs'" "ServeMux regs' = ServeMux mux"
proof -
  show regs': "HandleFuncs [] regs' = Some regs'"
    using regs by (simp add: HandleFuncs_mset order)
  have same: "set regs' = set mux"
    using regs order by (metis HandleFuncs_mset mset_eq_setD)
  have path: "match_path (method_routes regs' m) = match_path (method_routes mux m)" for m
    by (intro ext match_path_order method_routes_set same method_routes_unambiguous [OF regs'])
  have methods: "set (mux_methods regs') = set (mux_methods mux)" by (simp add: mux_methods_def same)
  have matching: "matching_methods regs' p = matching_methods mux p" for p
  proof -
    let ?f = "\<lambda>ms. ms @ (if ''GET'' \<in> set ms then [''HEAD''] else [])"
    have "set (?f (filter P (mux_methods regs'))) = set (?f (filter P (mux_methods mux)))" for P
      using methods by auto
    then show ?thesis
      unfolding matching_methods_def Let_def path by (rule sort_remdups_set)
  qed
  show "ServeMux regs' = ServeMux mux"
    by (intro ext) (unfold ServeMux_def match_method_def path matching, rule refl)
qed

section \<open>The endpoints\<close>

lemma endpoints_registered: "HandleFuncs [] (endpoints cfg L ui ctrl) = Some (endpoints cfg L ui ctrl)"
  by (simp add: endpoints_def swagger_endpoints_def conflictsWith_def parse_patterns compareMethods_def
      comparePaths_def ends_multi_def combineRelationships_def Let_def)

lemma registrations_mset:
  assumes "registrations (endpoint_objects cfg L ui ctrl) regs"
  shows "mset regs = mset (endpoints cfg L ui ctrl)"
proof -
  obtain orders where orders: "list_all2 (\<lambda>e order. mset order = mset (getEndpointMethods e))
      (endpoint_objects cfg L ui ctrl) orders"
    and regs: "regs = concat (map (\<lambda>order. concat (map snd order)) orders)"
    using assms by (auto simp: registrations_def)
  have flat: "mset (concat (map snd order)) = sum_mset (image_mset (mset \<circ> snd) (mset order))" for order :: "(string \<times> 'a mux) list"
    by (induction order) auto
  have "mset (concat (map (\<lambda>order. concat (map snd order)) orders)) =
      mset (concat (map (\<lambda>e. concat (map snd (getEndpointMethods e))) objects))"
    if "list_all2 (\<lambda>e order. mset order = mset (getEndpointMethods e)) objects orders"
    for orders and objects :: "'a endpoint_object list"
    using that by induction (simp_all add: flat)
  from this [OF orders] have "mset regs =
      mset (concat (map (\<lambda>e. concat (map snd (getEndpointMethods e))) (endpoint_objects cfg L ui ctrl)))"
    by (simp add: regs)
  then show ?thesis
    by (simp add: endpoint_objects_def getEndpointMethods_def AdminEndpoints_def HealthEndpoints_def
        ImportExportEndpoints_def PermissionsListEndpoints_def PermissionsCheckEndpoints_def
        PermissionsManagementEndpoints_def SwaggerEndpoints_def TopicsEndpoints_def endpoints_def)
qed

section \<open>Properties\<close>

text \<open>
  C39. The router does not depend on the order in which the reflection finds the endpoints: in whatever
  order they are registered, no two patterns conflict, so the service does not panic at its start, and
  the router serves every request in the same way.
\<close>

theorem registration_order_irrelevant:
  assumes "registrations (endpoint_objects cfg L ui ctrl) regs"
  shows "\<exists>mux. HandleFuncs [] regs = Some mux \<and> ServeMux mux = GetRouterWithoutMiddleware cfg L ui ctrl"
  using order_irrelevant [OF endpoints_registered registrations_mset [OF assms]]
  by (auto simp: GetRouterWithoutMiddleware_def)

text \<open>Each object's methods backwards.\<close>

definition backwards :: "'w endpoint_object list \<Rightarrow> 'w mux" where
  "backwards objects = concat (map (\<lambda>e. concat (map snd (rev (getEndpointMethods e)))) objects)"

lemma backwards_registrations: "registrations objects (backwards objects)"
  unfolding registrations_def backwards_def
  by (intro exI [of _ "map (\<lambda>e. rev (getEndpointMethods e)) objects"])
    (simp add: list_all2_map2 list_all2_same o_def)

theorem registration_order_irrelevant_witness:
  "\<exists>mux. HandleFuncs [] (backwards (endpoint_objects sample_config sample_lib no_ui (controller_api sample_controller))) =
       Some mux \<and>
     fst (hd mux) = ''GET /health'' \<and>
     ServeMux mux = GetRouterWithoutMiddleware sample_config sample_lib no_ui (controller_api sample_controller)"
proof -
  let ?objects = "endpoint_objects sample_config sample_lib no_ui (controller_api sample_controller)"
  from registration_order_irrelevant [OF backwards_registrations] obtain mux where mux: "HandleFuncs [] (backwards ?objects) = Some mux"
    "ServeMux mux = GetRouterWithoutMiddleware sample_config sample_lib no_ui (controller_api sample_controller)"
    by blast
  then have "mux = backwards ?objects" by (simp add: HandleFuncs_mset)
  then have "fst (hd mux) = ''GET /health''"
    by (simp add: backwards_def endpoint_objects_def AdminEndpoints_def HealthEndpoints_def getEndpointMethods_def)
  then show ?thesis using mux by blast
qed

text \<open>
  The Swagger UI is registered for the one path \<open>/swagger/:any\<close>, since the colon is no wildcard to
  \<open>http.ServeMux\<close>: a request for a page below \<open>/swagger\<close> reaches the health check instead, which
  answers 200 with an empty body, whether the UI is enabled or not.
\<close>

theorem swagger_ui_never_reached:
  assumes "plain_segment file" "file \<noteq> '':any''"
    and "rq_method r = ''GET''" "rq_url r = segments_url [''swagger'', file] q"
  shows "GetRouterWithoutMiddleware cfg L ui ctrl r w = Some (WriteHeader 200, w)"
proof -
  have "plain_segment ''swagger''" by code_simp
  moreover have "match_method (endpoints cfg L ui ctrl) ''GET'' (join_path [''swagger'', file]) =
      Some (([], h_HealthCheck), [])"
    using assms(1,2) by (simp add: routing del: join_path_Cons)
  ultimately show ?thesis
    using assms unfolding GetRouterWithoutMiddleware_def
    by (subst ServeMux_segments [OF assms(4), where names = "[]" and ms = "[]" and h = h_HealthCheck])
      (simp_all add: h_HealthCheck_def del: join_path_Cons)
qed

theorem swagger_ui_never_reached_witness:
  "GetRouterWithoutMiddleware (sample_config\<lparr>cfg_EnableSwaggerUi := True\<rparr>) sample_lib (\<lambda>r w. None)
     (controller_api sample_controller) (sample_request ''GET'' [''swagger'', ''index.html''] [] [] (Raw []))
     sample_world = Some (WriteHeader 200, sample_world)"
  by (rule swagger_ui_never_reached [of "''index.html''"])
    (simp_all add: sample_request_def plain_segment_def)

end
