(* ===== verification/ConfigLoad.thy ===== *)
theory ConfigLoad
  imports Complex_Main Configuration Json
begin

text \<open>
  Loading the configuration, \<open>pkg/configuration/config.go\<close>: the file, and the environment variables
  that override it. \<open>handleEnvironmentVars\<close> goes over the fields of a struct by reflection; here a
  field is its name, its tag \<open>config\<close> and what can be set, by its kind. \<open>strconv.ParseFloat\<close> and
  \<open>time.ParseDuration\<close> are parameters.
\<close>

section \<open>Names of environment variables\<close>

definition upper :: "char \<Rightarrow> bool" where
  "upper c \<longleftrightarrow> 65 \<le> (of_char c :: int) \<and> (of_char c :: int) \<le> 90"

text \<open>
  The matches of \<open>(^[^A-Z]*|[A-Z]*)([A-Z][^A-Z]+|$)\<close> from some position on, as the list of their
  groups that are not empty. At the beginning the first alternative is tried first; where no match
  begins, the next position is tried.
\<close>

definition nonempty :: "string list \<Rightarrow> string list" where
  "nonempty = filter (\<lambda>s. s \<noteq> [])"

function camel_later :: "string \<Rightarrow> string list" where
  "camel_later s =
     (let u = takeWhile upper s; r = dropWhile upper s in
      if s = [] then []
      else if u = [] then camel_later (tl s)
      else if r = [] then [u]
      else nonempty [butlast u, last u # takeWhile (Not \<circ> upper) r] @
        camel_later (dropWhile (Not \<circ> upper) r))"
  by pat_completeness auto
termination
proof (relation "measure length", goal_cases)
  case (3 s u r)
  have "length s = length u + length r"
    unfolding 3(1,2) by (metis length_append takeWhile_dropWhile_id)
  moreover have "0 < length u" using 3(4) by simp
  moreover have "length (dropWhile (Not \<circ> upper) r) \<le> length r" by (rule length_dropWhile_le)
  ultimately show ?case unfolding in_measure by linarith
qed auto

declare camel_later.simps [simp del]

definition camel_parts :: "string \<Rightarrow> string list" where
  "camel_parts s =
     (let n = takeWhile (Not \<circ> upper) s in
      case dropWhile (Not \<circ> upper) s of
        [] \<Rightarrow> nonempty [n]
      | c # r \<Rightarrow>
          if takeWhile (Not \<circ> upper) r \<noteq> []
          then nonempty [n, c # takeWhile (Not \<circ> upper) r] @ camel_later (dropWhile (Not \<circ> upper) r)
          else camel_later s)"

definition fieldNameToEnvName :: "string \<Rightarrow> string" where
  "fieldNameToEnvName s = ToUpper (Join (camel_parts s) ''_'')"

section \<open>Setting fields\<close>

text \<open>A struct may have a method \<open>SetString\<close> with or without an error.\<close>

datatype 'c field_kind =
    StructField "(string \<Rightarrow> 'c \<Rightarrow> 'c) option" "(string \<Rightarrow> 'c \<Rightarrow> error + 'c) option"
  | IntField "int \<Rightarrow> 'c \<Rightarrow> 'c"
  | StringField "string \<Rightarrow> 'c \<Rightarrow> 'c"
  | BoolField "bool \<Rightarrow> 'c \<Rightarrow> 'c"
  | FloatField "rat \<Rightarrow> 'c \<Rightarrow> 'c"
  | SliceField "string list \<Rightarrow> 'c \<Rightarrow> 'c"
  | MapField "(string, string) alist \<Rightarrow> 'c \<Rightarrow> 'c"
  | OtherField

record 'c field =
  f_name :: string
  f_config_tag :: string
  f_kind :: "'c field_kind"

definition ParseBool :: "string \<Rightarrow> error + bool" where
  "ParseBool s =
     (if s \<in> {''1'', ''t'', ''T'', ''TRUE'', ''true'', ''True''} then Inr True
      else if s \<in> {''0'', ''f'', ''F'', ''FALSE'', ''false'', ''False''} then Inr False
      else Inl (ErrLib ''strconv.ParseBool: invalid syntax''))"

text \<open>The pairs of a map; an element without a colon is a panic.\<close>

fun map_value :: "string list \<Rightarrow> (string, string) alist \<Rightarrow> (string, string) alist option" where
  "map_value [] m = Some m"
| "map_value (e # es) m =
     (let keyVal = Split e '':'' in
      if length keyVal < 2 then None
      else map_value es (DAList.update (TrimSpace (keyVal ! 0)) (TrimSpace (keyVal ! 1)) m))"

text \<open>One field: the struct afterwards and the error; \<open>None\<close> is a panic.\<close>

definition set_field ::
  "(string \<Rightarrow> rat option) \<Rightarrow> 'c field_kind \<Rightarrow> string \<Rightarrow> 'c \<Rightarrow> ('c \<times> error option) option" where
  "set_field parse_float kind envValue c =
     (case kind of
        StructField setter errSetter \<Rightarrow>
          let c = (case setter of None \<Rightarrow> c | Some f \<Rightarrow> f envValue c) in
          (case errSetter of
             None \<Rightarrow> Some (c, None)
           | Some f \<Rightarrow> (case f envValue c of Inl err \<Rightarrow> Some (c, Some err) | Inr c \<Rightarrow> Some (c, None)))
      | IntField f \<Rightarrow>
          (case ParseInt envValue of
             None \<Rightarrow> Some (c, Some (ErrLib ''strconv.ParseInt: invalid syntax'')) | Some i \<Rightarrow> Some (f i c, None))
      | StringField f \<Rightarrow> Some (f envValue c, None)
      | BoolField f \<Rightarrow>
          (case ParseBool envValue of Inl err \<Rightarrow> Some (c, Some err) | Inr b \<Rightarrow> Some (f b c, None))
      | FloatField f \<Rightarrow>
          (case parse_float envValue of
             None \<Rightarrow> Some (c, Some (ErrLib ''strconv.ParseFloat: invalid syntax'')) | Some x \<Rightarrow> Some (f x c, None))
      | SliceField f \<Rightarrow> Some (f (map TrimSpace (Split envValue '','')) c, None)
      | MapField f \<Rightarrow>
          map_option (\<lambda>m. (f m c, None)) (map_value (Split envValue '','') DAList.empty)
      | OtherField \<Rightarrow> Some (c, None))"

text \<open>The struct, the error, and the lines that are printed.\<close>

fun handleEnvironmentVars ::
  "(string \<Rightarrow> rat option) \<Rightarrow> (string \<Rightarrow> string) \<Rightarrow> 'c field list \<Rightarrow> 'c \<Rightarrow>
   ('c \<times> error option \<times> string list) option" where
  "handleEnvironmentVars parse_float getEnv [] c = Some (c, None, [])"
| "handleEnvironmentVars parse_float getEnv (f # fs) c =
     (let envName = fieldNameToEnvName (f_name f); envValue = getEnv envName in
      if envValue = [] then handleEnvironmentVars parse_float getEnv fs c
      else
        let loggedEnvValue = (if Contains (f_config_tag f) ''secret'' then ''***'' else envValue);
            line = Join [''use environment variable: '', envName, '' = '', loggedEnvValue] '' ''
        in case set_field parse_float (f_kind f) envValue c of
             None \<Rightarrow> None
           | Some (c, Some err) \<Rightarrow>
               Some (c, Some (ErrWrap (''invalid env variable '' @ envName @ ''='' @ envValue @ '': '') err), [line])
           | Some (c, None) \<Rightarrow>
               map_option (\<lambda>(c, err, out). (c, err, line # out)) (handleEnvironmentVars parse_float getEnv fs c))"

section \<open>The fields of the configuration\<close>

definition set_duration ::
  "(string \<Rightarrow> error + int) \<Rightarrow> ('c \<Rightarrow> duration) \<Rightarrow> (duration \<Rightarrow> 'c \<Rightarrow> 'c) \<Rightarrow> 'c field_kind" where
  "set_duration parse get put =
     StructField None (Some (\<lambda>s c. map_sum id (\<lambda>d. put d c) (Duration_SetString parse s (get c))))"

definition config_fields :: "(string \<Rightarrow> error + int) \<Rightarrow> (string \<times> config field_kind) list" where
  "config_fields parse =
     [(''Port'', StringField (\<lambda>s c. c\<lparr>cfg_Port := s\<rparr>)),
      (''Debug'', BoolField (\<lambda>b c. c\<lparr>cfg_Debug := b\<rparr>)),
      (''EnableSwaggerUi'', BoolField (\<lambda>b c. c\<lparr>cfg_EnableSwaggerUi := b\<rparr>)),
      (''EditForward'', StringField (\<lambda>s c. c\<lparr>cfg_EditForward := s\<rparr>)),
      (''DevNotifierUrl'', StringField (\<lambda>s c. c\<lparr>cfg_DevNotifierUrl := s\<rparr>)),
      (''KafkaUrl'', StringField (\<lambda>s c. c\<lparr>cfg_KafkaUrl := s\<rparr>)),
      (''MongoUrl'', StringField (\<lambda>s c. c\<lparr>cfg_MongoUrl := s\<rparr>)),
      (''MongoDatabase'', StringField (\<lambda>s c. c\<lparr>cfg_MongoDatabase := s\<rparr>)),
      (''MongoPermissionsCollection'', StringField (\<lambda>s c. c\<lparr>cfg_MongoPermissionsCollection := s\<rparr>)),
      (''MongoTopicsCollection'', StringField (\<lambda>s c. c\<lparr>cfg_MongoTopicsCollection := s\<rparr>)),
      (''MigrateFromMongoUrl'', StringField (\<lambda>s c. c\<lparr>cfg_MigrateFromMongoUrl := s\<rparr>)),
      (''SyncCheckInterval'', set_duration parse cfg_SyncCheckInterval (\<lambda>d c. c\<lparr>cfg_SyncCheckInterval := d\<rparr>)),
      (''SyncAgeLimit'', set_duration parse cfg_SyncAgeLimit (\<lambda>d c. c\<lparr>cfg_SyncAgeLimit := d\<rparr>)),
      (''OnlyAdminsMayEditRolePermissions'', BoolField (\<lambda>b c. c\<lparr>cfg_OnlyAdminsMayEditRolePermissions := b\<rparr>)),
      (''UserManagementUrl'', StringField (\<lambda>s c. c\<lparr>cfg_UserManagementUrl := s\<rparr>)),
      (''ApiDocsProviderBaseUrl'', StringField (\<lambda>s c. c\<lparr>cfg_ApiDocsProviderBaseUrl := s\<rparr>)),
      (''OtelEndpoint'', StringField (\<lambda>s c. c\<lparr>cfg_OtelEndpoint := s\<rparr>)),
      (''LogLevel'', StringField (\<lambda>s c. c\<lparr>cfg_LogLevel := s\<rparr>)),
      (''logger'', OtherField)]"

text \<open>No field has a tag \<open>config\<close>.\<close>

definition config_struct :: "(string \<Rightarrow> error + int) \<Rightarrow> config field list" where
  "config_struct parse =
     map (\<lambda>(n, k). \<lparr>f_name = n, f_config_tag = [], f_kind = k\<rparr>) (config_fields parse)"

text \<open>The members of the file; a duration is read from a string.\<close>

definition Duration_UnmarshalJSON :: "(string \<Rightarrow> error + int) \<Rightarrow> duration reader" where
  "Duration_UnmarshalJSON parse v d =
     (case read_string v [] of Inl err \<Rightarrow> Inl err | Inr str \<Rightarrow> Duration_SetString parse str d)"

definition config_json :: "(string \<Rightarrow> error + int) \<Rightarrow> config json_field list" where
  "config_json parse =
     [(''port'', in_field read_string cfg_Port (\<lambda>s c. c\<lparr>cfg_Port := s\<rparr>)),
      (''debug'', in_field read_bool cfg_Debug (\<lambda>b c. c\<lparr>cfg_Debug := b\<rparr>)),
      (''enable_swagger_ui'', in_field read_bool cfg_EnableSwaggerUi (\<lambda>b c. c\<lparr>cfg_EnableSwaggerUi := b\<rparr>)),
      (''edit_forward'', in_field read_string cfg_EditForward (\<lambda>s c. c\<lparr>cfg_EditForward := s\<rparr>)),
      (''dev_notifier_url'', in_field read_string cfg_DevNotifierUrl (\<lambda>s c. c\<lparr>cfg_DevNotifierUrl := s\<rparr>)),
      (''kafka_url'', in_field read_string cfg_KafkaUrl (\<lambda>s c. c\<lparr>cfg_KafkaUrl := s\<rparr>)),
      (''mongo_url'', in_field read_string cfg_MongoUrl (\<lambda>s c. c\<lparr>cfg_MongoUrl := s\<rparr>)),
      (''mongo_database'', in_field read_string cfg_MongoDatabase (\<lambda>s c. c\<lparr>cfg_MongoDatabase := s\<rparr>)),
      (''mongo_permissions_collection'', in_field read_string cfg_MongoPermissionsCollection
         (\<lambda>s c. c\<lparr>cfg_MongoPermissionsCollection := s\<rparr>)),
      (''mongo_topics_collection'', in_field read_string cfg_MongoTopicsCollection
         (\<lambda>s c. c\<lparr>cfg_MongoTopicsCollection := s\<rparr>)),
      (''migrate_from_mongo_url'', in_field read_string cfg_MigrateFromMongoUrl
         (\<lambda>s c. c\<lparr>cfg_MigrateFromMongoUrl := s\<rparr>)),
      (''sync_check_interval'', in_field (Duration_UnmarshalJSON parse) cfg_SyncCheckInterval
         (\<lambda>d c. c\<lparr>cfg_SyncCheckInterval := d\<rparr>)),
      (''sync_age_limit'', in_field (Duration_UnmarshalJSON parse) cfg_SyncAgeLimit
         (\<lambda>d c. c\<lparr>cfg_SyncAgeLimit := d\<rparr>)),
      (''only_admins_may_edit_role_permissions'', in_field read_bool cfg_OnlyAdminsMayEditRolePermissions
         (\<lambda>b c. c\<lparr>cfg_OnlyAdminsMayEditRolePermissions := b\<rparr>)),
      (''user_management_url'', in_field read_string cfg_UserManagementUrl (\<lambda>s c. c\<lparr>cfg_UserManagementUrl := s\<rparr>)),
      (''api_docs_provider_base_url'', in_field read_string cfg_ApiDocsProviderBaseUrl
         (\<lambda>s c. c\<lparr>cfg_ApiDocsProviderBaseUrl := s\<rparr>)),
      (''otel_endpoint'', in_field read_string cfg_OtelEndpoint (\<lambda>s c. c\<lparr>cfg_OtelEndpoint := s\<rparr>)),
      (''log_level'', in_field read_string cfg_LogLevel (\<lambda>s c. c\<lparr>cfg_LogLevel := s\<rparr>))]"

text \<open>
  \<open>file\<close> is the error of opening it or its content. With an error the configuration is not used; the
  lines printed until then are left out. \<open>None\<close> is a panic.
\<close>

definition Load ::
  "(string \<Rightarrow> error + int) \<Rightarrow> (string \<Rightarrow> rat option) \<Rightarrow> (string \<Rightarrow> string) \<Rightarrow> error + body \<Rightarrow>
   (error + config) option" where
  "Load parse parse_float getEnv file =
     (case file of
        Inl err \<Rightarrow> Some (Inl err)
      | Inr content \<Rightarrow>
          (case Decode (read_struct (config_json parse)) content empty_config of
             Inl err \<Rightarrow> Some (Inl err)
           | Inr config \<Rightarrow>
               (case handleEnvironmentVars parse_float getEnv (config_struct parse) config of
                  None \<Rightarrow> None
                | Some (config, Some err, out) \<Rightarrow> Some (Inl err)
                | Some (config, None, out) \<Rightarrow> Some (Inr config))))"

section \<open>What is loaded\<close>

lemma env_names:
  "fieldNameToEnvName ''Port'' = ''PORT''"
  "fieldNameToEnvName ''Debug'' = ''DEBUG''"
  "fieldNameToEnvName ''EnableSwaggerUi'' = ''ENABLE_SWAGGER_UI''"
  "fieldNameToEnvName ''EditForward'' = ''EDIT_FORWARD''"
  "fieldNameToEnvName ''DevNotifierUrl'' = ''DEV_NOTIFIER_URL''"
  "fieldNameToEnvName ''KafkaUrl'' = ''KAFKA_URL''"
  "fieldNameToEnvName ''MongoUrl'' = ''MONGO_URL''"
  "fieldNameToEnvName ''MongoDatabase'' = ''MONGO_DATABASE''"
  "fieldNameToEnvName ''MongoPermissionsCollection'' = ''MONGO_PERMISSIONS_COLLECTION''"
  "fieldNameToEnvName ''MongoTopicsCollection'' = ''MONGO_TOPICS_COLLECTION''"
  "fieldNameToEnvName ''MigrateFromMongoUrl'' = ''MIGRATE_FROM_MONGO_URL''"
  "fieldNameToEnvName ''SyncCheckInterval'' = ''SYNC_CHECK_INTERVAL''"
  "fieldNameToEnvName ''SyncAgeLimit'' = ''SYNC_AGE_LIMIT''"
  "fieldNameToEnvName ''OnlyAdminsMayEditRolePermissions'' = ''ONLY_ADMINS_MAY_EDIT_ROLE_PERMISSIONS''"
  "fieldNameToEnvName ''UserManagementUrl'' = ''USER_MANAGEMENT_URL''"
  "fieldNameToEnvName ''ApiDocsProviderBaseUrl'' = ''API_DOCS_PROVIDER_BASE_URL''"
  "fieldNameToEnvName ''OtelEndpoint'' = ''OTEL_ENDPOINT''"
  "fieldNameToEnvName ''LogLevel'' = ''LOG_LEVEL''"
  by code_simp+

text \<open>The fields are gone over without an error.\<close>

definition loads ::
  "(string \<Rightarrow> rat option) \<Rightarrow> (string \<Rightarrow> string) \<Rightarrow> 'c field list \<Rightarrow> 'c \<Rightarrow> 'c \<Rightarrow> bool" where
  "loads parse_float getEnv fs c c' \<longleftrightarrow>
     (\<exists>out. handleEnvironmentVars parse_float getEnv fs c = Some (c', None, out))"

text \<open>What a variable makes of a value: nothing when it is empty.\<close>

definition override :: "string \<Rightarrow> string \<Rightarrow> string" where
  "override env old = (if env = [] then old else env)"

definition switched :: "string \<Rightarrow> bool \<Rightarrow> bool \<Rightarrow> bool" where
  "switched env old b \<longleftrightarrow> (if env = [] then b = old else ParseBool env = Inr b)"

lemma loads_Cons:
  "loads parse_float getEnv (f # fs) c c' \<longleftrightarrow>
     (if getEnv (fieldNameToEnvName (f_name f)) = [] then loads parse_float getEnv fs c c'
      else \<exists>c1. set_field parse_float (f_kind f) (getEnv (fieldNameToEnvName (f_name f))) c = Some (c1, None) \<and>
        loads parse_float getEnv fs c1 c')"
  by (auto simp: loads_def Let_def split: option.splits)

lemma loads_string:
  assumes "f (g c) c = c"
  shows "loads parse_float getEnv (\<lparr>f_name = n, f_config_tag = t, f_kind = StringField f\<rparr> # fs) c c' \<longleftrightarrow>
    loads parse_float getEnv fs (f (override (getEnv (fieldNameToEnvName n)) (g c)) c) c'"
  using assms by (auto simp: loads_Cons override_def set_field_def)

lemma loads_bool:
  assumes "f (g c) c = c"
  shows "loads parse_float getEnv (\<lparr>f_name = n, f_config_tag = t, f_kind = BoolField f\<rparr> # fs) c c' \<longleftrightarrow>
    (\<exists>b. switched (getEnv (fieldNameToEnvName n)) (g c) b \<and> loads parse_float getEnv fs (f b c) c')"
  using assms by (auto simp: loads_Cons switched_def set_field_def split: sum.splits)

lemma loads_duration:
  assumes "f (g c) c = c"
  shows "loads parse_float getEnv (\<lparr>f_name = n, f_config_tag = t, f_kind = set_duration parse g f\<rparr> # fs) c c' \<longleftrightarrow>
    (\<exists>d. Duration_SetString parse (getEnv (fieldNameToEnvName n)) (g c) = Inr d \<and>
      loads parse_float getEnv fs (f d c) c')"
  using assms by (auto simp: loads_Cons Duration_SetString_def set_duration_def set_field_def split: sum.splits)

lemma loads_Nil: "loads parse_float getEnv [] c c' \<longleftrightarrow> c' = c"
  by (auto simp: loads_def)

lemma loads_other:
  "loads parse_float getEnv [\<lparr>f_name = n, f_config_tag = t, f_kind = OtherField\<rparr>] c c' \<longleftrightarrow> c' = c"
  by (simp add: loads_Cons set_field_def loads_Nil)

lemmas loads_config =
  loads_string [where f = "\<lambda>x c. c\<lparr>cfg_Port := x\<rparr>" and g = cfg_Port]
  loads_bool [where f = "\<lambda>x c. c\<lparr>cfg_Debug := x\<rparr>" and g = cfg_Debug]
  loads_bool [where f = "\<lambda>x c. c\<lparr>cfg_EnableSwaggerUi := x\<rparr>" and g = cfg_EnableSwaggerUi]
  loads_string [where f = "\<lambda>x c. c\<lparr>cfg_EditForward := x\<rparr>" and g = cfg_EditForward]
  loads_string [where f = "\<lambda>x c. c\<lparr>cfg_DevNotifierUrl := x\<rparr>" and g = cfg_DevNotifierUrl]
  loads_string [where f = "\<lambda>x c. c\<lparr>cfg_KafkaUrl := x\<rparr>" and g = cfg_KafkaUrl]
  loads_string [where f = "\<lambda>x c. c\<lparr>cfg_MongoUrl := x\<rparr>" and g = cfg_MongoUrl]
  loads_string [where f = "\<lambda>x c. c\<lparr>cfg_MongoDatabase := x\<rparr>" and g = cfg_MongoDatabase]
  loads_string [where f = "\<lambda>x c. c\<lparr>cfg_MongoPermissionsCollection := x\<rparr>" and g = cfg_MongoPermissionsCollection]
  loads_string [where f = "\<lambda>x c. c\<lparr>cfg_MongoTopicsCollection := x\<rparr>" and g = cfg_MongoTopicsCollection]
  loads_string [where f = "\<lambda>x c. c\<lparr>cfg_MigrateFromMongoUrl := x\<rparr>" and g = cfg_MigrateFromMongoUrl]
  loads_duration [where f = "\<lambda>x c. c\<lparr>cfg_SyncCheckInterval := x\<rparr>" and g = cfg_SyncCheckInterval]
  loads_duration [where f = "\<lambda>x c. c\<lparr>cfg_SyncAgeLimit := x\<rparr>" and g = cfg_SyncAgeLimit]
  loads_bool [where f = "\<lambda>x c. c\<lparr>cfg_OnlyAdminsMayEditRolePermissions := x\<rparr>" and g = cfg_OnlyAdminsMayEditRolePermissions]
  loads_string [where f = "\<lambda>x c. c\<lparr>cfg_UserManagementUrl := x\<rparr>" and g = cfg_UserManagementUrl]
  loads_string [where f = "\<lambda>x c. c\<lparr>cfg_ApiDocsProviderBaseUrl := x\<rparr>" and g = cfg_ApiDocsProviderBaseUrl]
  loads_string [where f = "\<lambda>x c. c\<lparr>cfg_OtelEndpoint := x\<rparr>" and g = cfg_OtelEndpoint]
  loads_string [where f = "\<lambda>x c. c\<lparr>cfg_LogLevel := x\<rparr>" and g = cfg_LogLevel]
  loads_other

section \<open>Properties\<close>

text \<open>
  C36. The environment overrides the file: a configuration that loads without an error has in every field
  the value of its variable, named as here, and where this is empty the value of the file. A variable
  for a boolean or a duration has been parsed.
\<close>

theorem environment_overrides_file:
  assumes "Load parse parse_float getEnv (Inr content) = Some (Inr c')"
  shows "\<exists>c. Decode (read_struct (config_json parse)) content empty_config = Inr c \<and>
    cfg_Port c' = override (getEnv ''PORT'') (cfg_Port c) \<and>
    switched (getEnv ''DEBUG'') (cfg_Debug c) (cfg_Debug c') \<and>
    switched (getEnv ''ENABLE_SWAGGER_UI'') (cfg_EnableSwaggerUi c) (cfg_EnableSwaggerUi c') \<and>
    cfg_EditForward c' = override (getEnv ''EDIT_FORWARD'') (cfg_EditForward c) \<and>
    cfg_DevNotifierUrl c' = override (getEnv ''DEV_NOTIFIER_URL'') (cfg_DevNotifierUrl c) \<and>
    cfg_KafkaUrl c' = override (getEnv ''KAFKA_URL'') (cfg_KafkaUrl c) \<and>
    cfg_MongoUrl c' = override (getEnv ''MONGO_URL'') (cfg_MongoUrl c) \<and>
    cfg_MongoDatabase c' = override (getEnv ''MONGO_DATABASE'') (cfg_MongoDatabase c) \<and>
    cfg_MongoPermissionsCollection c' = override (getEnv ''MONGO_PERMISSIONS_COLLECTION'') (cfg_MongoPermissionsCollection c) \<and>
    cfg_MongoTopicsCollection c' = override (getEnv ''MONGO_TOPICS_COLLECTION'') (cfg_MongoTopicsCollection c) \<and>
    cfg_MigrateFromMongoUrl c' = override (getEnv ''MIGRATE_FROM_MONGO_URL'') (cfg_MigrateFromMongoUrl c) \<and>
    Duration_SetString parse (getEnv ''SYNC_CHECK_INTERVAL'') (cfg_SyncCheckInterval c) = Inr (cfg_SyncCheckInterval c') \<and>
    Duration_SetString parse (getEnv ''SYNC_AGE_LIMIT'') (cfg_SyncAgeLimit c) = Inr (cfg_SyncAgeLimit c') \<and>
    switched (getEnv ''ONLY_ADMINS_MAY_EDIT_ROLE_PERMISSIONS'') (cfg_OnlyAdminsMayEditRolePermissions c) (cfg_OnlyAdminsMayEditRolePermissions c') \<and>
    cfg_UserManagementUrl c' = override (getEnv ''USER_MANAGEMENT_URL'') (cfg_UserManagementUrl c) \<and>
    cfg_ApiDocsProviderBaseUrl c' = override (getEnv ''API_DOCS_PROVIDER_BASE_URL'') (cfg_ApiDocsProviderBaseUrl c) \<and>
    cfg_OtelEndpoint c' = override (getEnv ''OTEL_ENDPOINT'') (cfg_OtelEndpoint c) \<and>
    cfg_LogLevel c' = override (getEnv ''LOG_LEVEL'') (cfg_LogLevel c)"
proof -
  obtain c where c: "Decode (read_struct (config_json parse)) content empty_config = Inr c"
    and loads: "loads parse_float getEnv (config_struct parse) c c'"
    using assms by (auto simp: Load_def loads_def split: sum.splits option.splits)
  show ?thesis
    using loads c unfolding config_struct_def config_fields_def list.map prod.case
    by (auto simp: loads_config env_names)
qed

definition sample_env :: "string \<Rightarrow> string" where
  "sample_env name =
     (if name = ''MONGO_URL'' then ''mongodb://db'' else if name = ''DEBUG'' then ''true''
      else if name = ''SYNC_AGE_LIMIT'' then ''1s'' else [])"

definition sample_duration :: "string \<Rightarrow> error + int" where
  "sample_duration s = (if s = ''1s'' then Inr (10 ^ 9) else Inl (ErrLib ''time: invalid duration''))"

definition sample_file :: body where
  "sample_file = Json (JObj [(''mongo_url'', JStr ''mongodb://localhost''), (''port'', JStr ''8080'')])"

lemma sample_config_load:
  "map_option (map_sum (\<lambda>_. ()) (\<lambda>c. (cfg_MongoUrl c, cfg_Port c, cfg_Debug c, dur (cfg_SyncAgeLimit c))))
     (Load sample_duration (\<lambda>_. None) sample_env (Inr sample_file)) =
   Some (Inr (''mongodb://db'', ''8080'', True, 10 ^ 9))"
  by code_simp

theorem environment_overrides_file_witness:
  "\<exists>c'. Load sample_duration (\<lambda>_. None) sample_env (Inr sample_file) = Some (Inr c') \<and>
     cfg_MongoUrl c' = ''mongodb://db'' \<and> cfg_Debug c'"
proof -
  obtain r where "Load sample_duration (\<lambda>_. None) sample_env (Inr sample_file) = Some r" "\<not> isl r"
    using sample_config_load by (auto simp: isl_map_sum dest: arg_cong [where f = isl])
  then obtain c' where run: "Load sample_duration (\<lambda>_. None) sample_env (Inr sample_file) = Some (Inr c')"
    by (cases r) auto
  then show ?thesis
    using environment_overrides_file [OF run]
    by (auto simp: override_def switched_def ParseBool_def sample_env_def)
qed

end
