(* ===== verification/Program.thy ===== *)
theory Program
  imports Registration Service ConfigLoad
begin

text \<open>
  The process: its log (\<open>GetLogger\<close> in \<open>pkg/configuration/config.go\<close>), the HTTP server (\<open>Start\<close> in
  \<open>pkg/api/api.go\<close>) with the patterns registered in any order, \<open>main.go\<close> from the configuration to the
  serving of requests, and the service that tests use instead (\<open>NewTestClient\<close> in
  \<open>pkg/client/client.go\<close>). The theorem says what a process that serves has been made of.
\<close>

section \<open>The log\<close>

text \<open>\<open>slog.Level\<close> has 64 bits; a name may have an offset behind it, as in \<open>warn+2\<close>.\<close>

definition wrap64 :: "int \<Rightarrow> int" where
  "wrap64 i = (i + 2 ^ 63) mod 2 ^ 64 - 2 ^ 63"

definition level_names :: "(string \<times> int) list" where
  "level_names = [(''DEBUG'', -4), (''INFO'', 0), (''WARN'', 4), (''ERROR'', 8)]"

definition Level_UnmarshalText :: "string \<Rightarrow> int option" where
  "Level_UnmarshalText s =
     (let name = takeWhile (\<lambda>c. c \<noteq> CHR ''+'' \<and> c \<noteq> CHR ''-'') s; rest = drop (length name) s in
      case (if rest = [] then Some 0 else ParseInt rest) of
        None \<Rightarrow> None
      | Some offset \<Rightarrow> map_option (\<lambda>l. wrap64 (l + offset)) (map_of level_names (ToUpper name)))"

record logger =
  lg_level :: int
  lg_project :: string
  lg_organization :: string

text \<open>A configuration with its private field, the logger that others log with, and what is printed.\<close>

record logging =
  lo_config :: config
  lo_logger :: "logger option"
  lo_default :: "logger option"
  lo_printed :: "string list"

text \<open>\<open>build\<close> is the path of the main module, where the build information is known.\<close>

definition GetLogger :: "string option \<Rightarrow> (logging, logger) state" where
  "GetLogger build = State (\<lambda>this.
     case lo_logger this of
       Some logger \<Rightarrow> (logger, this)
     | None \<Rightarrow>
         let this = (if cfg_Debug (lo_config this)
                     then this\<lparr>lo_config := (lo_config this)\<lparr>cfg_LogLevel := ''debug''\<rparr>\<rparr> else this);
             (project, org) =
               (case build of
                  None \<Rightarrow> ([], [])
                | Some path \<Rightarrow>
                    let parts = Split path ''/''
                    in if length parts > 2 then (Join (drop 2 parts) ''/'', Join (take 2 parts) ''/'') else ([], []));
             (level, printed) =
               (case Level_UnmarshalText (cfg_LogLevel (lo_config this)) of
                  Some level \<Rightarrow> (level, [])
                | None \<Rightarrow> (-4, [''invalid log level in config:  '' @ cfg_LogLevel (lo_config this) @
                                '' , defaulting to debug'']));
             logger = \<lparr>lg_level = level, lg_project = project, lg_organization = org\<rparr>
         in (logger, this\<lparr>lo_logger := Some logger, lo_default := Some logger,
                          lo_printed := lo_printed this @ printed\<rparr>))"

lemma level_samples:
  "Level_UnmarshalText ''debug'' = Some (-4)" "Level_UnmarshalText ''Warn+2'' = Some 6"
  "Level_UnmarshalText ''warning'' = None" "Level_UnmarshalText [] = None" "Level_UnmarshalText ''info+'' = None"
  by code_simp+

text \<open>With \<open>debug\<close> everything is logged from the debug level on, whatever level is configured.\<close>

lemma GetLogger_debug:
  assumes "lo_logger this = None" "cfg_Debug (lo_config this)"
  shows "lg_level (fst (run_state (GetLogger build) this)) = -4"
  using assms by (simp add: GetLogger_def Let_def level_samples split: option.split prod.split)

text \<open>A level that is no level does not stop the process either.\<close>

lemma GetLogger_invalid:
  assumes "lo_logger this = None" "Level_UnmarshalText (cfg_LogLevel (lo_config this)) = None"
  shows "lg_level (fst (run_state (GetLogger build) this)) = -4"
  using assms by (auto simp: GetLogger_def Let_def level_samples split: option.split prod.split)

text \<open>The logger is made once; later changes of the level have no effect.\<close>

lemma GetLogger_kept:
  assumes "run_state (GetLogger build) this = (logger, this')"
  shows "run_state (GetLogger build') (this'\<lparr>lo_config := c\<rparr>) = (logger, this'\<lparr>lo_config := c\<rparr>)"
proof -
  have "lo_logger this' = Some logger"
    using assms by (auto simp: GetLogger_def Let_def split: option.splits prod.splits if_splits)
  then show ?thesis by (simp add: GetLogger_def)
qed

section \<open>The HTTP server\<close>

text \<open>What a call does to the process: it panics, it ends the process with a message, or it returns.\<close>

datatype 'a exec = Panics | Exits string | Returns 'a

record 'w http_server =
  srv_Addr :: string
  srv_Handler :: "'w handler"

text \<open>
  \<open>otelx\<close> is \<open>otelx.HTTPOpenTelemetry\<close> at an endpoint. A panic of the registration is recovered from.
  The server that is returned listens from then on.
\<close>

definition api_Start ::
  "('w handler \<Rightarrow> 'w handler) \<Rightarrow> (string \<Rightarrow> error + ('w handler \<Rightarrow> 'w handler)) \<Rightarrow> 'w remote_do \<Rightarrow>
   ('w endpoint_object list \<Rightarrow> 'w mux) \<Rightarrow> api_lib \<Rightarrow> 'w handler \<Rightarrow> config \<Rightarrow> 'w api \<Rightarrow>
   (error + 'w http_server) exec" where
  "api_Start accesslog otelx remote_do order L ui config ctrl =
     (case HandleFuncs [] (order (endpoint_objects config L ui ctrl)) of
        None \<Rightarrow> Returns (Inl (ErrLib ''http: pattern conflicts with pattern''))
      | Some mux \<Rightarrow>
          let handler = ServeMux mux;
              handler =
                (if cfg_EditForward config \<noteq> [] \<and> cfg_EditForward config \<noteq> ''-''
                 then ConditionalForward remote_do handler (cfg_EditForward config)
                   (\<lambda>r. rq_method r = ''POST'' \<or> rq_method r = ''PUT'' \<or> rq_method r = ''DELETE'')
                 else handler)
          in case otelx (cfg_OtelEndpoint config) of
               Inl err \<Rightarrow> Exits (''FATAL: failed to setup OpenTelemetry: '' @ error_text err)
             | Inr otel \<Rightarrow>
                 Returns (Inr \<lparr>srv_Addr = '':'' @ cfg_Port config,
                   srv_Handler = accesslog (VersionCheck (Cors (otel handler)) ClientVersion)\<rparr>))"

lemma api_Start_serves:
  assumes "\<And>objects. registrations objects (order objects)" "otelx (cfg_OtelEndpoint config) = Inr otel"
  shows "api_Start accesslog otelx remote_do order L ui config ctrl =
    Returns (Inr \<lparr>srv_Addr = '':'' @ cfg_Port config,
      srv_Handler = GetRouter accesslog otel remote_do config L ui ctrl\<rparr>)"
  using order_irrelevant [OF endpoints_registered registrations_mset [OF assms(1)]] assms(2)
  by (simp add: api_Start_def GetRouter_def GetRouterWithoutMiddleware_def Let_def)

text \<open>\<open>Start\<close> of \<open>pkg/pkg.go\<close> with the server; a refinement of \<open>Start\<close> in \<open>Service\<close>, which has only its handler.\<close>

definition pkg_Start ::
  "'m driver \<Rightarrow> (string \<Rightarrow> message \<Rightarrow> ('e, error option) state) \<Rightarrow>
   (('m, 'e, 'p) world handler \<Rightarrow> ('m, 'e, 'p) world handler) \<Rightarrow>
   (string \<Rightarrow> error + (('m, 'e, 'p) world handler \<Rightarrow> ('m, 'e, 'p) world handler)) \<Rightarrow>
   ('m, 'e, 'p) world remote_do \<Rightarrow>
   (('m, 'e, 'p) world endpoint_object list \<Rightarrow> ('m, 'e, 'p) world mux) \<Rightarrow> api_lib \<Rightarrow>
   ('m, 'e, 'p) world handler \<Rightarrow> ('m, 'e, 'p) controller \<Rightarrow> config \<Rightarrow>
   (('m, 'e, 'p) world,
    (error + ('m, 'e, 'p) world http_server \<times> ('m, 'e, 'p) controller) exec) state" where
  "pkg_Start drv remote accesslog otelx remote_do order L ui C config = do {
     r \<leftarrow> on_db (database_New drv config);
     case r of
       Inl err \<Rightarrow> ret (Returns (Inl err))
     | Inr db \<Rightarrow> do {
         r \<leftarrow> NewWithDependencies remote (C\<lparr>ctl_config := config, ctl_db := db\<rparr>);
         case r of
           Inl err \<Rightarrow> ret (Returns (Inl err))
         | Inr ctrl \<Rightarrow>
             ret (case api_Start accesslog otelx remote_do order L ui config (controller_api ctrl) of
                    Panics \<Rightarrow> Panics
                  | Exits m \<Rightarrow> Exits m
                  | Returns (Inl err) \<Rightarrow> Returns (Inl err)
                  | Returns (Inr server) \<Rightarrow> Returns (Inr (server, ctrl))) } }"

lemma pkg_Start_result:
  assumes "\<And>objects. registrations objects (order objects)" "otelx (cfg_OtelEndpoint config) = Inr otel"
  shows "run_state (pkg_Start drv remote accesslog otelx remote_do order L ui C config) w =
    (case run_state (Start drv remote accesslog otel remote_do L ui C config) w of (r, w') \<Rightarrow>
      (Returns (map_sum id (\<lambda>(h, ctrl). (\<lparr>srv_Addr = '':'' @ cfg_Port config, srv_Handler = h\<rparr>, ctrl)) r), w'))"
  by (simp add: pkg_Start_def Start_def api_Start_serves [where order = order and otelx = otelx and config = config and otel = otel, OF assms] split: prod.split sum.split)

section \<open>The main function\<close>

text \<open>
  \<open>put_doc\<close> is \<open>AsyncapiPutDoc\<close> of the client of the documentation service, \<open>doc\<close> the generated document.
  \<open>file\<close> is what the flag \<open>config\<close> names. A process that returns here serves requests until a signal comes.
\<close>

definition PublishAsyncApiDoc ::
  "(string \<Rightarrow> string \<Rightarrow> string \<Rightarrow> ('e, error option) state) \<Rightarrow> string \<Rightarrow> config \<Rightarrow> ('e, error option) state" where
  "PublishAsyncApiDoc put_doc doc conf =
     put_doc (cfg_ApiDocsProviderBaseUrl conf) ''github_com_SENERGY-Platform_permissions-v2'' doc"

definition main_program ::
  "(string \<Rightarrow> error + int) \<Rightarrow> (string \<Rightarrow> rat option) \<Rightarrow> (string \<Rightarrow> string) \<Rightarrow>
   (config \<Rightarrow> (('m, 'e, 'p) world, (error + ('m, 'e, 'p) world http_server \<times> ('m, 'e, 'p) controller) exec) state) \<Rightarrow>
   (string \<Rightarrow> string \<Rightarrow> string \<Rightarrow> ('e, error option) state) \<Rightarrow> string \<Rightarrow> error + body \<Rightarrow>
   (('m, 'e, 'p) world, (('m, 'e, 'p) world http_server \<times> ('m, 'e, 'p) controller) exec) state" where
  "main_program parse parse_float getEnv start put_doc doc file =
     (case Load parse parse_float getEnv file of
        None \<Rightarrow> ret Panics
      | Some (Inl err) \<Rightarrow> ret (Exits (''ERROR: unable to load config'' @ error_text err))
      | Some (Inr conf) \<Rightarrow> do {
          r \<leftarrow> start conf;
          case r of
            Panics \<Rightarrow> ret Panics
          | Exits m \<Rightarrow> ret (Exits m)
          | Returns (Inl err) \<Rightarrow> ret (Exits (error_text err))
          | Returns (Inr running) \<Rightarrow> do {
              _ \<leftarrow> (if cfg_ApiDocsProviderBaseUrl conf \<noteq> [] \<and> cfg_ApiDocsProviderBaseUrl conf \<noteq> ''-''
                   then on_ext (PublishAsyncApiDoc put_doc doc conf) else ret None);
              ret (Returns running) } })"

lemma on_ext_keeps_db: "run_state (on_ext m) w = (x, w') \<Longrightarrow> w_db w' = w_db w"
  by (auto simp: run_on_ext)

section \<open>The service for tests\<close>

text \<open>It works on the empty mock database with the zero configuration and publishes nothing.\<close>

definition NewTestClient ::
  "(string \<Rightarrow> message \<Rightarrow> ('e, error option) state) \<Rightarrow> (mock, 'e, producer) controller \<Rightarrow>
   ((mock, 'e, producer) world, error + (mock, 'e, producer) controller) state" where
  "NewTestClient remote C = do {
     _ \<leftarrow> State (\<lambda>w. ((), w\<lparr>w_db := Mock_New\<rparr>));
     NewWithDependencies remote (C\<lparr>ctl_config := empty_config, ctl_db := mock_db,
       GetProducer := VoidProducerProvider_GetProducer,
       SendPermissions := (\<lambda>_. VoidProducer_SendPermissions)\<rparr>) }"

text \<open>It always comes up, without topics and resources, over a database with the contract.\<close>

lemma NewTestClient_empty:
  "\<exists>ctrl w'. run_state (NewTestClient remote C) w = (Inr ctrl, w') \<and> ctl_db ctrl = mock_db \<and>
     mock_invar (w_db w') \<and> mock_store (w_db w') = \<lparr>st_topics = Map.empty, st_resources = (\<lambda>_ _. None)\<rparr> \<and>
     w_ext w' = w_ext w"
proof -
  have "ListUnsyncedResources mock_db = ret (Inr [])" by (simp add: mock_db_def Mock_ListUnsyncedResources_def)
  moreover have "cfg_DevNotifierUrl empty_config = []" by (simp add: empty_config_def)
  ultimately show ?thesis
    by (auto simp: NewTestClient_def NewWithDependencies_def RetryPublishOfUnsyncedResources_def on_db_def Let_def
        mock_invar_def mock_store_def Mock_New_def fun_eq_iff)
qed

section \<open>Properties\<close>


text \<open>An empty file, and one variable: the service in memory starts.\<close>

definition program_env :: "string \<Rightarrow> string" where
  "program_env name = (if name = ''ONLY_ADMINS_MAY_EDIT_ROLE_PERMISSIONS'' then ''true'' else [])"

lemma program_config:
  "Load sample_duration (\<lambda>_. None) program_env (Inr (Json (JObj []))) = Some (Inr sample_config)"
  by code_simp

definition program_sample ::
  "((mem, sample_ext, string) world,
    ((mem, sample_ext, string) world http_server \<times> (mem, sample_ext, string) controller) exec) state" where
  "program_sample = main_program sample_duration (\<lambda>_. None) program_env
     (pkg_Start one_server (\<lambda>_ _. ret None) (\<lambda>h. h) (\<lambda>_. Inr (\<lambda>h. h)) no_remote backwards sample_lib no_ui
       mem_controller) (\<lambda>_ _ _. ret None) [] (Inr (Json (JObj [])))"


end
