(* ===== verification/Retry.thy ===== *)
theory Retry
  imports GoErrors
begin

text \<open>
  The loop that waits for a container, \<open>pkg/tests/docker/util.go\<close>: an action is tried again after one
  second, then after two, and so on, until it succeeds or the time is over. Time is in nanoseconds; the
  clock and the sleeping are parameters.
\<close>

section \<open>The loop\<close>

record 's timer =
  time_now :: "('s, int) state"
  time_Sleep :: "int \<Rightarrow> ('s, unit) state"

definition second :: int where
  "second = 1000000000"

text \<open>\<open>i\<close> counts the rounds from one; a loop that does not end has the result \<open>None\<close>.\<close>

partial_function (option) retry_loop ::
  "'s timer \<Rightarrow> ('s, error option) state \<Rightarrow> int \<Rightarrow> int \<Rightarrow> int \<Rightarrow> error option \<Rightarrow> 's \<Rightarrow>
   (error option \<times> 's) option" where
  "retry_loop T f timeout start i err s =
     (if err = None then Some (err, s)
      else case run_state (time_now T) s of (t, s) \<Rightarrow>
        if t - start < timeout
        then case run_state f s of (err, s) \<Rightarrow>
          if err = None then retry_loop T f timeout start (i + 1) err s
          else case run_state (time_now T) s of (t, s) \<Rightarrow>
            if t - start + i * second < timeout
            then retry_loop T f timeout start (i + 1) err (snd (run_state (time_Sleep T (i * second)) s))
            else case run_state (time_now T) s of (t, s) \<Rightarrow>
              Some (run_state f (snd (run_state (time_Sleep T (t - start + i * second - timeout)) s)))
        else Some (err, s))"

declare retry_loop.simps [code]

definition retry :: "'s timer \<Rightarrow> int \<Rightarrow> ('s, error option) state \<Rightarrow> 's \<Rightarrow> (error option \<times> 's) option" where
  "retry T timeout f s =
     (case run_state (time_now T) s of (start, s) \<Rightarrow> retry_loop T f timeout start 1 (Some (Err ''initial'')) s)"

section \<open>It ends\<close>

text \<open>The clock does not go back, and sleeping takes at least the time asked for.\<close>

definition timer_laws :: "'s timer \<Rightarrow> ('s, error option) state \<Rightarrow> ('s \<Rightarrow> int) \<Rightarrow> bool" where
  "timer_laws T f clock \<longleftrightarrow>
     (\<forall>s t s'. run_state (time_now T) s = (t, s') \<longrightarrow> clock s \<le> t \<and> t \<le> clock s') \<and>
     (\<forall>s d. clock s + max 0 d \<le> clock (snd (run_state (time_Sleep T d) s))) \<and>
     (\<forall>s. clock s \<le> clock (snd (run_state f s)))"

text \<open>What the loop returns: the error it was given, or what the last call of the action returned.\<close>

definition last_result :: "('s, error option) state \<Rightarrow> error option \<Rightarrow> error option \<times> 's \<Rightarrow> bool" where
  "last_result f err q \<longleftrightarrow> fst q = err \<or> (\<exists>s. fst q = fst (run_state f s))"

lemma last_result_later: "last_result f (fst (run_state f s)) q \<Longrightarrow> last_result f err q"
  by (auto simp: last_result_def)

lemma retry_loop_ends:
  assumes laws: "timer_laws T f clock" and "1 \<le> i"
  shows "\<exists>q. retry_loop T f timeout start i err s = Some q \<and> last_result f err q"
  using assms(2)
proof (induction "nat (start + timeout - clock s)" arbitrary: i err s rule: less_induct)
  case less
  show ?case
  proof (cases "err = None")
    case True
    then show ?thesis by (subst retry_loop.simps) (simp add: last_result_def)
  next
    case failed: False
    obtain t1 s1 where now1: "run_state (time_now T) s = (t1, s1)" by fastforce
    obtain e s2 where call: "run_state f s1 = (e, s2)" by fastforce
    obtain t2 s3 where now2: "run_state (time_now T) s2 = (t2, s3)" by fastforce
    show ?thesis
    proof (cases "t1 - start < timeout \<and> e \<noteq> None \<and> t2 - start + i * second < timeout")
      case True
      let ?s4 = "snd (run_state (time_Sleep T (i * second)) s3)"
      have "clock s \<le> clock s3"
        using laws now1 call now2 unfolding timer_laws_def by (metis order_trans snd_conv)
      moreover have "clock s3 + i * second \<le> clock ?s4" "1 \<le> i * second"
        using laws less(2) by (auto simp: timer_laws_def second_def max_def split: if_splits)
      moreover have "clock s < start + timeout"
        using True laws now1 unfolding timer_laws_def by (smt (verit))
      ultimately have "nat (start + timeout - clock ?s4) < nat (start + timeout - clock s)" by simp
      then obtain q where "retry_loop T f timeout start (i + 1) e ?s4 = Some q" "last_result f e q"
        using less(1) [of ?s4 "i + 1" e] less(2) by auto
      moreover have "retry_loop T f timeout start i err s = retry_loop T f timeout start (i + 1) e ?s4"
        using failed True now1 call now2 by (subst retry_loop.simps [of T f timeout start i err s]) auto
      moreover have "e = fst (run_state f s1)" using call by simp
      ultimately show ?thesis using last_result_later by metis
    next
      case False
      then show ?thesis
        using failed now1 call now2
        by (subst retry_loop.simps, cases "t1 - start < timeout"; cases "e = None")
          (auto simp: last_result_def retry_loop.simps [of T f timeout start "i + 1" None]
            split: prod.splits intro: exI [of _ s1], (metis fst_conv surj_pair)+)
    qed
  qed
qed

section \<open>Properties\<close>

text \<open>
  Waiting ends: with a clock that does not go back and sleeps that take their time, \<open>retry\<close> returns,
  however often the action fails, and it returns what a call of the action returned, or its initial
  error when the time was over before the first call.
\<close>

theorem retry_terminates:
  assumes "timer_laws T f clock"
  shows "\<exists>r s'. retry T timeout f s = Some (r, s') \<and>
    (r = Some (Err ''initial'') \<or> (\<exists>s. r = fst (run_state f s)))"
proof -
  obtain start s1 where now: "run_state (time_now T) s = (start, s1)" by fastforce
  obtain q where "retry_loop T f timeout start 1 (Some (Err ''initial'')) s1 = Some q"
    "last_result f (Some (Err ''initial'')) q"
    using retry_loop_ends [OF assms] by force
  then show ?thesis
    using now by (intro exI [of _ "fst q"] exI [of _ "snd q"]) (auto simp: retry_def last_result_def)
qed

text \<open>A clock in a state that also counts the calls; the action succeeds at its third call.\<close>

definition counting_timer :: "(int \<times> nat) timer" where
  "counting_timer = \<lparr>time_now = State (\<lambda>s. (fst s, s)), time_Sleep = (\<lambda>d. State (\<lambda>(t, n). ((), (t + max 0 d, n))))\<rparr>"

definition third_time :: "(int \<times> nat, error option) state" where
  "third_time = State (\<lambda>(t, n). (if n = 2 then None else Some (Err ''no connection''), (t, n + 1)))"

lemma counting_laws: "timer_laws counting_timer third_time fst"
  by (auto simp: timer_laws_def counting_timer_def third_time_def)

theorem retry_terminates_witness:
  "\<exists>r s'. retry counting_timer (60 * second) third_time (0, 0) = Some (r, s') \<and> r = None \<and> s' = (3 * second, 3)"
proof -
  from retry_terminates [OF counting_laws] obtain r s' where
    run: "retry counting_timer (60 * second) third_time (0, 0) = Some (r, s')" by blast
  have "map_option (\<lambda>(r, s'). (r = None, s')) (retry counting_timer (60 * second) third_time (0, 0)) =
      Some (True, (3 * second, 3))"
    by code_simp
  then show ?thesis using run by auto
qed

text \<open>
  The last wait does not use up the time: with one second given and an action that fails at once, the
  second and last call comes at once, although the whole second is left.
\<close>

definition always_fails :: "(int \<times> nat, error option) state" where
  "always_fails = State (\<lambda>(t, n). (Some (Err ''no connection''), (t, n + 1)))"

lemma last_wait_too_short:
  "map_option snd (retry counting_timer second always_fails (0, 0)) = Some (0, 2)"
  by code_simp

end
