(* ===== verification/Spec2Isabelle.thy ===== *)
theory Spec2Isabelle
  imports Sync Embed SwaggerFile Auth Answers Program Retry
begin

text \<open>
  Verification of permissions-v2, a service that stores who may do what with the resources of a
  platform, answers permission checks, and publishes changes to Kafka. The sources are under \<open>src/\<close>.

  \<^bold>\<open>The program.\<close> A request reaches the router (\<open>pkg/api\<close>), which checks the version of the client,
  sets the CORS headers, forwards edits to another service if it is configured to, and calls the
  handler of the path. A handler reads the request and calls the controller (\<open>pkg/controller\<close>), which
  decides what the requester may do, reads and writes the database (\<open>pkg/database\<close>: MongoDB or a mock in
  memory), and publishes what was written to Kafka. What could not be published stays marked in the
  database and is published again by a loop. Other services use the client (\<open>pkg/client\<close>), which has
  the interface of the controller and can be put into another service's router.

  \<^bold>\<open>Theories.\<close>
  \<^item> \<open>Prelude\<close>, \<open>GoStrings\<close>, \<open>GoErrors\<close>, \<open>GoUrl\<close>, \<open>Json\<close>, \<open>Http\<close>: what the sources use of Go and its standard
    library: state monad, maps, strings as bytes, UTF-8, errors as values, escaping of URLs, JSON values,
    requests, the multiplexer, redirects. A method that returns \<open>(x, err)\<close> yields \<open>error + x\<close>, one that
    returns \<open>(x, err, code)\<close> a \<open>reply\<close>.
  \<^item> \<open>Model\<close>, \<open>IdModifier\<close>: the types of \<open>pkg/model\<close> as records, permission strings, validation, the
    modifiers behind ids (\<open>pkg/controller/idmodifier\<close>).
  \<^item> \<open>DatabaseIfc\<close>: the interface \<open>Database\<close> as a record of operations, the abstract store (topics, and for
    every resource an access control list) and the locale \<open>database\<close>: what the operations promise.
    \<open>MockDb\<close> (\<open>pkg/database/mock\<close>) and \<open>MongoEntry\<close>, \<open>MongoDriver\<close>, \<open>MongoDb\<close>, \<open>MongoContract\<close>
    (\<open>pkg/database/mongo\<close>) are its two interpretations. The MongoDB driver is a parameter with
    its documented behaviour (\<open>collection_laws\<close>, \<open>driver_laws\<close>), the collection in memory its instance.
    \<open>MongoMigration\<close>:
    connecting, indexes, and copying another database at the start (\<open>mongo.go\<close>).
  \<^item> \<open>Configuration\<close>, \<open>ConfigLoad\<close>: the configuration, and how the file and the environment make it.
  \<^item> \<open>Kafka\<close> (\<open>pkg/controller/kafka\<close>): commands, keys, partitions, producers.
  \<^item> \<open>Controller\<close>, \<open>CtlCheck\<close>, \<open>CtlResource\<close>, \<open>CtlTopics\<close>, \<open>CtlImportExport\<close>, \<open>CtlLoad\<close>: one theory per
    file of \<open>pkg/controller\<close>. The world is the database, the rest of the world the external calls work
    on, and the map of producers; an operation of the controller is a program over it. The lemmas in
    \<open>context database\<close> hold for every database with the contract.
  \<^item> \<open>SyncContract\<close>, \<open>Sync\<close>: what is marked as published is published, over both databases; operations
    that overlap, taken apart into their single calls.
  \<^item> \<open>Api\<close>, \<open>ApiRouter\<close>, \<open>Authorisation\<close>: handlers, middlewares, router; which handler a path reaches, which
    requests change nothing, what a request without admin rights can change.
  \<^item> \<open>Registration\<close>: how the endpoint objects of \<open>pkg/api\<close> register their patterns by reflection, and the
    conflicts of patterns at which \<open>net/http\<close> panics. \<open>Answers\<close>: the statuses the controller replies
    with, and the shape of every response.
  \<^item> \<open>Service\<close>: the start of the service over a MongoDB server (\<open>pkg/pkg.go\<close>), and the runs of what has been
    started: requests one after the other, with rounds of the sync loop between them.
  \<^item> \<open>Program\<close>: the process (\<open>main.go\<close>, \<open>api.Start\<close>, \<open>GetLogger\<close>), from the file and the environment to
    the server, and the service for tests (\<open>NewTestClient\<close>). \<open>Retry\<close>: the loop of \<open>pkg/tests/docker\<close> that
    waits for a container.
  \<^item> \<open>Client\<close>, \<open>Embed\<close>, \<open>Auth\<close>, \<open>SwaggerGen\<close>, \<open>SwaggerFile\<close> (\<open>pkg/client\<close>): the client over HTTP, the locale
    \<open>remote_service\<close> of a client in front of the router of a service, the router that passes requests on
    with a client, token providers, and the generator of the documentation of such a router, with the
    file it writes.
  \<^item> \<open>Samples\<close>: the worlds in which the properties are tried.

  \<^bold>\<open>Lemmas.\<close> For each operation of the controller there is a lemma that says which store and which
  answer it leads to, on every branch; the properties of the resources, topics, checks, exports and
  imports follow from it. \<open>preserves\<close>, \<open>leaves\<close> and \<open>acts\<close> take programs, calls and handlers apart by
  rules and show what they do not change. The lemmas about paths and JSON show that what the client
  sends is what the handler reads, so that a check or an edit over HTTP is one of the controller.

  \<^bold>\<open>Bounds.\<close> The loads from permission-search and the loop that waits for containers may run forever and
  are \<open>partial_function (option)\<close>;
  the client follows nine redirects, as \<open>net/http\<close> does; every other loop is over a list or over a
  shrinking string. Offsets and limits are kept in the range of 64 bits where they are parsed. Schedules
  of overlapping operations are lists of any length.

  \<^bold>\<open>Parameters.\<close> The JWT library, clocks, the Kafka client, the MongoDB driver, the HTTP client of the
  loads and of the forwarding, the middlewares for access logs and tracing, the Swagger UI,
  the growth of slices, and the parsing of durations and decimal fractions are arguments. What is
  assumed of them is a named hypothesis (\<open>driver_laws\<close>, \<open>connects\<close>, \<open>index_laws\<close>, \<open>kafka_laws\<close>,
  \<open>token_laws\<close>, \<open>router_laws\<close>, \<open>growth_laws\<close>, \<open>timer_laws\<close>, the locales \<open>publisher\<close> and
  \<open>remote_service\<close>) with an instance among the samples.

  \<^bold>\<open>Not modelled.\<close> The flags of \<open>main.go\<close>, listening on the port, signals and the shutdown they lead to;
  \<open>docs/\<close> is generated; the tests of \<open>pkg/tests\<close> and the containers they start. Left out of
  what is modelled: logging and tracing (of the logger there is what \<open>GetLogger\<close> decides, and what other
  operations log is left out), the deadlines of contexts (a call that runs
  into one is a call that fails), the concrete syntax of JSON and the guessing of content types,
  the rounding of \<open>float64\<close>, the parser of Go sources, and data races other than the overlapping
  calls of \<open>Sync\<close> and \<open>Auth\<close>.
\<close>

section \<open>Properties across components\<close>

text \<open>
  The databases are interchangeable for permission checks: two services over databases that keep
  the contract, whichever they are, give the same answer to the same check when their stores agree
  and both answer.
\<close>

theorem databases_agree:
  assumes "database db1 store1 invar1" "ctl_db C1 = db1" "invar1 (w_db w1)"
    and "database db2 store2 invar2" "ctl_db C2 = db2" "invar2 (w_db w2)"
    and "store1 (w_db w1) = store2 (w_db w2)" "all_known ps"
    and "jwt_Parse C1 s1 = Inr token" "jwt_Parse C2 s2 = Inr token"
    and "run_state (CheckPermission C1 s1 t i ps) w1 = (Inr (b1, code1), w1')"
    and "run_state (CheckPermission C2 s2 t i ps) w2 = (Inr (b2, code2), w2')"
  shows "b1 = b2 \<and> code1 = code2"
  using database.CheckPermission_result [OF assms(1-3,8,9,11)]
    database.CheckPermission_result [OF assms(4-6,8,10,12)] assms(7) by simp

lemma mem_check:
  "fst (run_state (CheckPermission mem_controller ''Bearer bob'' ''devices'' ''d'' [Read]) mem_world) =
     Inr (True, 200)"
  by code_simp

theorem databases_agree_witness:
  "\<exists>w1' w2'. run_state (CheckPermission sample_controller ''Bearer bob'' ''devices'' ''d'' [Read]) sample_world =
      (Inr (True, 200), w1') \<and>
    run_state (CheckPermission mem_controller ''Bearer bob'' ''devices'' ''d'' [Read]) mem_world =
      (Inr (True, 200), w2')"
proof -
  obtain b code w1' where one: "run_state (CheckPermission sample_controller ''Bearer bob'' ''devices'' ''d''
      [Read]) sample_world = (Inr (b, code), w1')"
    using sample_check(3) by (metis prod.collapse)
  obtain w2' where two: "run_state (CheckPermission mem_controller ''Bearer bob'' ''devices'' ''d'' [Read])
      mem_world = (Inr (True, 200), w2')"
    using mem_check by (metis prod.collapse)
  have "jwt_Parse mem_controller ''Bearer bob'' = Inr bob" by simp
  from databases_agree [OF mock.database_axioms sample_db sample_invar mongo_mem.database_axioms
      mem_controller_db mem_world_invar mem_world_store [symmetric] _ sample_parse(2) this one two]
  show ?thesis using one two by simp
qed

end
